(* ===== verification/Trading_Prelude.thy ===== *)
theory Trading_Prelude
  imports Complex_Main "HOL-Library.Multiset"
begin

text \<open>
  Shared vocabulary of the development: the exceptions the Python code raises, the result
  type of fallible operations with its sequencing operator, the type synonyms of the model,
  and generic lemmas on results, folds and lists.
\<close>

named_theorems result_simps "unfolding a successful or failing chain of fallible steps"
named_theorems dec_intros "sign, order and representability of rounded decimal operations"
named_theorems engine_simps "field-wise behaviour of one operation of the execution engine"

text \<open>Python exceptions, by class; the string is the message.\<close>

datatype py_error =
    ValueError string
  | RuntimeError string
  | TypeError string
  | IndexError string
  | KeyError string
  | DivisionByZero
  | InvalidOperation
  | Overflow
  | ValidationError string
  | StrategyValidationError string
  | StrategyCompilationError string
  | MarketDataUnavailableError string
  | StrategyParserError string
  | StrategyProviderError string
  | StrategyProviderRefusalError string
  | StrategyProviderTimeoutError string
  | StrategyMalformedOutputError string
  | DatabaseUnavailable
  | DatabaseFault
  | IntegrityError
  | StaleDataError
  | RedisError
  | NoSuchJobError
  | AssertionError
  | OSError string
  | TimeoutError
  | ImportError
  | ProviderException string string
  | InvalidAccessTokenError
  | AuthServiceUnavailableError
  | HTTPException int string
  | TransientPreviewJobError string

type_synonym 'a result = "py_error + 'a"

text \<open>A datetime is the number of microseconds since the epoch.\<close>

type_synonym timestamp = int

subsection \<open>Sequencing fallible steps\<close>

definition res_bind :: "'e + 'a \<Rightarrow> ('a \<Rightarrow> 'e + 'b) \<Rightarrow> 'e + 'b" where
  "res_bind r f = (case r of Inl e \<Rightarrow> Inl e | Inr a \<Rightarrow> f a)"

text \<open>A guard: raise the error when the condition holds.\<close>

definition raise_if :: "bool \<Rightarrow> 'e \<Rightarrow> 'e + unit" where
  "raise_if c e = (if c then Inl e else Inr ())"

primrec res_fold :: "('s \<Rightarrow> 'a \<Rightarrow> 'e + 's) \<Rightarrow> 's \<Rightarrow> 'a list \<Rightarrow> 'e + 's" where
  "res_fold f s [] = Inr s"
| "res_fold f s (x # xs) = res_bind (f s x) (\<lambda>s'. res_fold f s' xs)"

primrec res_map :: "('a \<Rightarrow> 'e + 'b) \<Rightarrow> 'a list \<Rightarrow> 'e + 'b list" where
  "res_map f [] = Inr []"
| "res_map f (x # xs) = res_bind (f x) (\<lambda>y. res_bind (res_map f xs) (\<lambda>ys. Inr (y # ys)))"

lemma res_bind_simps [simp]:
  "res_bind (Inl e) f = Inl e"
  "res_bind (Inr a) f = f a"
  by (simp_all add: res_bind_def)

lemma res_bind_Inr_iff [result_simps]:
  "res_bind r f = Inr b \<longleftrightarrow> (\<exists>a. r = Inr a \<and> f a = Inr b)"
  by (cases r) auto

lemma res_bind_Inl_iff [result_simps]:
  "res_bind r f = Inl e \<longleftrightarrow> r = Inl e \<or> (\<exists>a. r = Inr a \<and> f a = Inl e)"
  by (cases r) auto

lemma res_bind_assoc:
  "res_bind (res_bind r f) g = res_bind r (\<lambda>a. res_bind (f a) g)"
  by (cases r) auto

lemma raise_if_Inr_iff [result_simps, simp]: "raise_if c e = Inr u \<longleftrightarrow> \<not> c"
  by (auto simp: raise_if_def)

lemma raise_if_Inl_iff [result_simps, simp]: "raise_if c e = Inl e' \<longleftrightarrow> c \<and> e' = e"
  by (auto simp: raise_if_def)

lemma raise_if_simps [simp]:
  "raise_if True e = Inl e"
  "raise_if False e = Inr ()"
  by (simp_all add: raise_if_def)

lemma res_fold_append:
  "res_fold f s (xs @ ys) = res_bind (res_fold f s xs) (\<lambda>s'. res_fold f s' ys)"
  by (induction xs arbitrary: s) (auto simp: res_bind_assoc)

lemma res_fold_invariant:
  assumes "res_fold f s xs = Inr s'"
    and "P s"
    and "\<And>t x t'. x \<in> set xs \<Longrightarrow> P t \<Longrightarrow> f t x = Inr t' \<Longrightarrow> P t'"
  shows "P s'"
  using assms
proof (induction xs arbitrary: s)
  case Nil
  then show ?case by simp
next
  case (Cons x xs)
  from Cons.prems(1) obtain t where t: "f s x = Inr t" "res_fold f t xs = Inr s'"
    by (auto simp: result_simps)
  have "P t"
    using Cons.prems(2,3) t(1) by auto
  then show ?case
    using Cons.IH[OF t(2)] Cons.prems(3) by auto
qed

lemma res_fold_no_error:
  assumes "res_fold f s xs = Inl e"
    and "P s"
    and "\<And>t x t'. x \<in> set xs \<Longrightarrow> P t \<Longrightarrow> f t x = Inr t' \<Longrightarrow> P t'"
  shows "\<exists>t x. x \<in> set xs \<and> P t \<and> f t x = Inl e"
  using assms
proof (induction xs arbitrary: s)
  case Nil
  then show ?case by simp
next
  case (Cons x xs)
  show ?case
  proof (cases "f s x")
    case (Inl e')
    then show ?thesis
      using Cons.prems by (intro exI[of _ s] exI[of _ x]) auto
  next
    case (Inr t)
    have "P t"
      using Cons.prems(2,3) Inr by auto
    moreover have "res_fold f t xs = Inl e"
      using Cons.prems(1) Inr by simp
    ultimately have "\<exists>t x. x \<in> set xs \<and> P t \<and> f t x = Inl e"
      using Cons.prems(3) by (intro Cons.IH[of t]) auto
    then show ?thesis by auto
  qed
qed

lemma res_map_Inr_iff:
  "res_map f xs = Inr ys \<longleftrightarrow> list_all2 (\<lambda>x y. f x = Inr y) xs ys"
  by (induction xs arbitrary: ys) (auto simp: result_simps list_all2_Cons1)

lemma res_map_Inr_length [dest]: "res_map f xs = Inr ys \<Longrightarrow> length ys = length xs"
  by (simp add: res_map_Inr_iff list_all2_lengthD)

subsection \<open>Text\<close>

text \<open>Strings are ASCII: \<open>str.lower\<close> and \<open>str.upper\<close> move the letters between the two cases.\<close>

definition char_lower :: "char \<Rightarrow> char" where
  "char_lower c =
     (let k = (of_char c :: nat) in if 65 \<le> k \<and> k \<le> 90 then char_of (k + 32) else c)"

definition char_upper :: "char \<Rightarrow> char" where
  "char_upper c =
     (let k = (of_char c :: nat) in if 97 \<le> k \<and> k \<le> 122 then char_of (k - 32) else c)"

definition str_lower :: "string \<Rightarrow> string" where
  "str_lower = map char_lower"

definition str_upper :: "string \<Rightarrow> string" where
  "str_upper = map char_upper"

definition digit_char :: "int \<Rightarrow> char" where
  "digit_char d = char_of (nat (48 + d))"

function string_of_nonneg :: "int \<Rightarrow> string" where
  "string_of_nonneg n =
     (if n < 10 then [digit_char n] else string_of_nonneg (n div 10) @ [digit_char (n mod 10)])"
  by auto
termination
  by (relation "measure nat") auto

declare string_of_nonneg.simps [simp del]

definition string_of_int :: "int \<Rightarrow> string" where
  \<comment> \<open>\<open>str\<close> of an integer\<close>
  "string_of_int n = (if n < 0 then CHR ''-'' # string_of_nonneg (- n) else string_of_nonneg n)"

lemma char_lower_idem [simp]: "char_lower (char_lower c) = char_lower c"
  by (auto simp: char_lower_def Let_def)

lemma str_lower_idem [simp]: "str_lower (str_lower t) = str_lower t"
  by (simp add: str_lower_def)

lemma str_lower_length [simp]: "length (str_lower t) = length t"
  by (simp add: str_lower_def)

subsection \<open>Indexed loops\<close>

text \<open>
  A \<open>for index in range(n)\<close> loop over a fallible body. The contract of a body is an invariant
  that every successful iteration carries from \<open>i\<close> to \<open>i + 1\<close>; the two lemmas are the loop
  rules its clients use.
\<close>

locale indexed_loop =
  fixes body :: "'s \<Rightarrow> nat \<Rightarrow> 'e + 's" and inv :: "nat \<Rightarrow> 's \<Rightarrow> bool" and n :: nat
  assumes inv_body: "i < n \<Longrightarrow> inv i s \<Longrightarrow> body s i = Inr s' \<Longrightarrow> inv (Suc i) s'"
begin

lemma loop_inv:
  assumes "m \<le> n" "inv 0 s" "res_fold body s [0..<m] = Inr s'"
  shows "inv m s'"
  using assms
proof (induction m arbitrary: s')
  case 0
  then show ?case by simp
next
  case (Suc m)
  then obtain t where t: "res_fold body s [0..<m] = Inr t" "body t m = Inr s'"
    by (auto simp: res_fold_append result_simps)
  then have "inv m t"
    using Suc by auto
  then show ?case
    using inv_body[of m t s'] t Suc.prems by auto
qed

lemma loop_error:
  assumes "m \<le> n" "inv 0 s" "res_fold body s [0..<m] = Inl e"
  shows "\<exists>i t. i < m \<and> inv i t \<and> body t i = Inl e"
  using assms
proof (induction m)
  case 0
  then show ?case by simp
next
  case (Suc m)
  show ?case
  proof (cases "res_fold body s [0..<m]")
    case (Inl e')
    then show ?thesis
      using Suc by (auto simp: res_fold_append intro: less_SucI)
  next
    case (Inr t)
    then have "inv m t"
      using Suc.prems loop_inv[of m s t] by auto
    then show ?thesis
      using Suc.prems Inr by (auto simp: res_fold_append result_simps)
  qed
qed

end

end
