(* ===== verification/Decimal_Context.thy ===== *)
theory Decimal_Context
  imports Trading_Prelude
begin

text \<open>
  Python's \<open>decimal\<close> arithmetic under the default context, which the whole backtesting package
  uses: 28 significant digits, ties to even. A finite \<open>Decimal\<close> is modelled by its value, a
  rational; every operation computes the exact result and rounds it once. The exponent range of
  the context (plus or minus 999999) and signed zeros are not modelled.

  The laws a client of the arithmetic needs are the locale \<open>decimal_rounding\<close>; its
  interpretation on \<open>dec_round\<close> discharges them for the modelled context.
\<close>

type_synonym decimal = rat

subsection \<open>Rounding to 28 significant digits\<close>

function ndigits :: "int \<Rightarrow> nat" where
  "ndigits n = (if n < 10 then 1 else Suc (ndigits (n div 10)))"
  by pat_completeness auto
termination
  by (relation "measure nat") auto

declare ndigits.simps [simp del]

definition adjusted :: "rat \<Rightarrow> int" where
  \<comment> \<open>the exponent of the most significant digit of a positive value\<close>
  "adjusted x =
     (if 1 \<le> x then int (ndigits \<lfloor>x\<rfloor>) - 1 else - int (ndigits (\<lceil>1 / x\<rceil> - 1)))"

definition round_half_even :: "rat \<Rightarrow> int" where
  "round_half_even x =
     (let f = \<lfloor>x\<rfloor>; r = x - of_int f
      in if r < 1 / 2 then f else if 1 / 2 < r then f + 1 else if even f then f else f + 1)"

definition round_pos :: "rat \<Rightarrow> rat" where
  "round_pos x =
     (let s = 27 - adjusted x in of_int (round_half_even (x * 10 powi s)) * 10 powi (- s))"

definition dec_round :: "rat \<Rightarrow> decimal" where
  "dec_round x = (if x = 0 then 0 else if 0 < x then round_pos x else - round_pos (- x))"

definition representable :: "rat \<Rightarrow> bool" where
  \<comment> \<open>a value a 28-digit decimal can hold exactly\<close>
  "representable x \<longleftrightarrow> dec_round x = x"

lemma ndigits_bounds:
  "n < 10 ^ ndigits n"
  "0 < n \<Longrightarrow> 10 ^ (ndigits n - 1) \<le> n"
proof (induction n rule: ndigits.induct)
  case (1 n)
  {
    case 1
    show ?case
    proof (cases "n < 10")
      case False
      then have "n div 10 < 10 ^ ndigits (n div 10)"
        using "1.IH"(1) by simp
      then have "n < 10 * 10 ^ ndigits (n div 10)"
        by linarith
      then show ?thesis
        using False by (simp add: ndigits.simps[of n])
    qed (simp add: ndigits.simps)
  next
    case 2
    show ?case
    proof (cases "n < 10")
      case False
      then have "10 ^ (ndigits (n div 10) - 1) \<le> n div 10"
        using "1.IH"(2) by simp
      then have "10 * 10 ^ (ndigits (n div 10) - 1) \<le> n"
        by linarith
      moreover have "ndigits (n div 10) \<ge> 1"
        by (subst ndigits.simps) simp
      ultimately show ?thesis
        using False by (simp add: ndigits.simps[of n] flip: power_Suc)
    qed (use 2 in \<open>simp add: ndigits.simps\<close>)
  }
qed

lemma ndigits_pos [simp]: "0 < ndigits n" "1 \<le> ndigits n"
  by (subst ndigits.simps, simp)+

lemma ndigits_rat_bounds:
  "(of_int n :: rat) + 1 \<le> 10 ^ ndigits n"
  "0 < n \<Longrightarrow> (10::rat) ^ (ndigits n - 1) \<le> of_int n"
proof -
  have "(of_int (n + 1) :: rat) \<le> of_int (10 ^ ndigits n)"
    using ndigits_bounds(1)[of n] by (simp add: add1_zle_eq del: of_int_add)
  then show "(of_int n :: rat) + 1 \<le> 10 ^ ndigits n"
    by (simp only: of_int_add of_int_1 of_int_power of_int_numeral)
  have "(of_int (10 ^ (ndigits n - 1)) :: rat) \<le> of_int n" if "0 < n"
    using ndigits_bounds(2)[OF that] by (simp only: of_int_le_iff)
  then show "(10::rat) ^ (ndigits n - 1) \<le> of_int n" if "0 < n"
    using that by (simp only: of_int_power of_int_numeral)
qed

lemma adjusted_ge_one:
  assumes "1 \<le> x"
  shows "10 powi adjusted x \<le> x \<and> x < 10 powi (adjusted x + 1)"
proof -
  define n where "n = \<lfloor>x\<rfloor>"
  have n: "0 < n" "of_int n \<le> x" "x < of_int n + 1"
    using assms unfolding n_def by linarith+
  have e: "adjusted x = int (ndigits n - 1)" "adjusted x + 1 = int (ndigits n)"
    using assms ndigits_pos[of n] by (simp_all add: adjusted_def n_def del: ndigits_pos)
  have "10 ^ (ndigits n - 1) \<le> x" "x < 10 ^ ndigits n"
    using n ndigits_rat_bounds(1)[of n] ndigits_rat_bounds(2)[OF n(1)] by linarith+
  then show ?thesis
    unfolding e(2) unfolding e(1) by (simp only: power_int_of_nat)
qed

lemma adjusted_lt_one:
  assumes "0 < x" "x < 1"
  shows "10 powi adjusted x \<le> x \<and> x < 10 powi (adjusted x + 1)"
proof -
  define n where "n = \<lceil>1 / x\<rceil> - 1"
  have inv: "1 < 1 / x"
    using assms by simp
  then have n: "0 < n" "of_int n < 1 / x" "1 / x \<le> of_int n + 1"
    unfolding n_def by linarith+
  define d where "d = ndigits n"
  have e: "adjusted x = - int d"
    using assms by (simp add: adjusted_def n_def d_def)
  have d0: "0 < d"
    by (simp add: d_def)
  have "10 ^ (d - 1) < 1 / x" "1 / x \<le> 10 ^ d"
    using n ndigits_rat_bounds(1)[of n] ndigits_rat_bounds(2)[OF n(1)] unfolding d_def
    by linarith+
  then have "x < 1 / 10 ^ (d - 1)" "1 / 10 ^ d \<le> x"
    using assms by (simp_all add: field_simps)
  moreover have "(10::rat) powi (- int d + 1) = 1 / 10 ^ (d - 1)"
  proof -
    have "- int d + 1 = - int (d - 1)"
      using d0 by (simp add: of_nat_diff)
    then show ?thesis
      by (simp only: power_int_minus power_int_of_nat) (simp add: divide_inverse)
  qed
  ultimately show ?thesis
    by (simp add: e power_int_minus divide_inverse)
qed

lemma adjusted_bounds:
  assumes "0 < x"
  shows "10 powi adjusted x \<le> x" "x < 10 powi (adjusted x + 1)"
  using adjusted_ge_one[of x] adjusted_lt_one[of x] assms by (cases "1 \<le> x"; simp)+

subsection \<open>Rounding to an integer\<close>

lemma round_half_even_bounds: "\<lfloor>x\<rfloor> \<le> round_half_even x" "round_half_even x \<le> \<lfloor>x\<rfloor> + 1"
  by (simp_all add: round_half_even_def Let_def)

lemma round_half_even_of_int [simp]: "round_half_even (of_int i) = i"
  by (simp add: round_half_even_def)

lemma round_half_even_mono:
  assumes "x \<le> y"
  shows "round_half_even x \<le> round_half_even y"
proof (cases "\<lfloor>x\<rfloor> = \<lfloor>y\<rfloor>")
  case True
  then show ?thesis
    using assms by (auto simp: round_half_even_def Let_def)
next
  case False
  then have "\<lfloor>x\<rfloor> + 1 \<le> \<lfloor>y\<rfloor>"
    using floor_mono[OF assms] by linarith
  then show ?thesis
    using round_half_even_bounds[of x] round_half_even_bounds[of y] by linarith
qed

lemma round_half_even_error: "\<bar>of_int (round_half_even x) - x\<bar> \<le> 1 / 2"
  by (simp add: round_half_even_def Let_def abs_if) linarith

subsection \<open>Properties of the rounding\<close>

lemma powi_ten_pos [simp]: "0 < (10::rat) powi k"
  by (simp add: zero_less_power_int)

lemma powi_ten_add: "(10::rat) powi (a + b) = 10 powi a * 10 powi b"
  by (simp add: power_int_add)

lemma powi_ten_le_iff: "(10::rat) powi a \<le> 10 powi b \<longleftrightarrow> a \<le> b"
  using power_int_increasing[of a b "10::rat"] power_int_strict_increasing[of b a "10::rat"]
  by (meson linorder_not_le one_le_numeral one_less_numeral_iff semiring_norm(76) not_less)

lemma powi_ten_less_iff: "(10::rat) powi a < 10 powi b \<longleftrightarrow> a < b"
  by (meson linorder_not_le powi_ten_le_iff)

lemma powi_ten_cancel [simp]:
  "(10::rat) powi s * 10 powi (- s) = 1"
  "(10::rat) powi (- s) * 10 powi s = 1"
  by (simp_all flip: powi_ten_add)

lemma adjusted_mono:
  assumes "0 < x" "x \<le> y"
  shows "adjusted x \<le> adjusted y"
proof -
  have "10 powi adjusted x < (10::rat) powi (adjusted y + 1)"
    using adjusted_bounds[of x] adjusted_bounds[of y] assms by linarith
  then show ?thesis
    by (simp add: powi_ten_less_iff)
qed

lemma round_pos_range:
  assumes "0 < x"
  shows "10 powi adjusted x \<le> round_pos x" "round_pos x \<le> 10 powi (adjusted x + 1)"
proof -
  define s where "s = 27 - adjusted x"
  have lo: "(10::rat) powi 27 = 10 powi adjusted x * 10 powi s"
    and hi: "(10::rat) powi 28 = 10 powi (adjusted x + 1) * 10 powi s"
    by (simp_all flip: powi_ten_add add: s_def)
  have "10 powi 27 \<le> x * 10 powi s" "x * 10 powi s \<le> 10 powi 28"
    unfolding lo hi using adjusted_bounds[OF assms] by (intro mult_right_mono; simp)+
  then have "of_int (10 ^ 27) \<le> x * 10 powi s" "x * 10 powi s \<le> of_int (10 ^ 28)"
    by simp_all
  from this[THEN round_half_even_mono]
  have b: "10 ^ 27 \<le> round_half_even (x * 10 powi s)" "round_half_even (x * 10 powi s) \<le> 10 ^ 28"
    by (simp_all only: round_half_even_of_int)
  have "(10::rat) powi 27 \<le> of_int (round_half_even (x * 10 powi s))"
    using b(1) by (metis of_int_le_iff of_int_numeral of_int_power power_int_numeral)
  then have "10 powi 27 * 10 powi (- s) \<le> round_pos x"
    by (simp add: round_pos_def s_def mult_right_mono)
  then show "10 powi adjusted x \<le> round_pos x"
    by (simp only: lo mult.assoc powi_ten_cancel mult_1_right)
  have "of_int (round_half_even (x * 10 powi s)) \<le> (10::rat) powi 28"
    using b(2) by (metis of_int_le_iff of_int_numeral of_int_power power_int_numeral)
  then have "round_pos x \<le> 10 powi 28 * 10 powi (- s)"
    by (simp add: round_pos_def s_def mult_right_mono)
  then show "round_pos x \<le> 10 powi (adjusted x + 1)"
    by (simp only: hi mult.assoc powi_ten_cancel mult_1_right)
qed

lemma round_pos_positive: "0 < x \<Longrightarrow> 0 < round_pos x"
  using round_pos_range(1)[of x] powi_ten_pos[of "adjusted x"] by linarith

lemma round_pos_mono:
  assumes "0 < x" "x \<le> y"
  shows "round_pos x \<le> round_pos y"
proof (cases "adjusted x = adjusted y")
  case True
  then show ?thesis
    using assms unfolding round_pos_def
    by (simp add: Let_def mult_right_mono round_half_even_mono)
next
  case False
  then have "(10::rat) powi (adjusted x + 1) \<le> 10 powi adjusted y"
    using adjusted_mono[OF assms] by (simp add: powi_ten_le_iff)
  then show ?thesis
    using round_pos_range[of x] round_pos_range[of y] assms by linarith
qed

lemma round_pos_exact:
  assumes "0 < c" "c < 10 ^ 28"
  shows "round_pos (of_int c * 10 powi k) = of_int c * 10 powi k" (is "round_pos ?x = ?x")
proof -
  have x: "0 < ?x"
    using assms by simp
  define s where "s = 27 - adjusted ?x"
  have "of_int c < (10::rat) powi 28"
    using assms(2) by (metis of_int_less_iff of_int_numeral of_int_power power_int_numeral)
  then have "?x < 10 powi (28 + k)"
    by (simp add: powi_ten_add)
  then have "10 powi adjusted ?x < (10::rat) powi (28 + k)"
    using adjusted_bounds(1)[OF x] by linarith
  then have s: "0 \<le> k + s"
    by (simp add: powi_ten_less_iff s_def)
  have "?x * 10 powi s = of_int c * 10 powi (k + s)"
    by (simp add: powi_ten_add)
  also have "\<dots> = of_int (c * 10 ^ nat (k + s))"
    using s by (simp add: power_int_def)
  finally have "round_half_even (?x * 10 powi s) = c * 10 ^ nat (k + s)"
    by (simp only: round_half_even_of_int)
  then have "round_pos ?x = of_int c * 10 ^ nat (k + s) * 10 powi (- s)"
    by (simp add: round_pos_def Let_def flip: s_def)
  also have "\<dots> = of_int c * 10 powi (k + s) * 10 powi (- s)"
    using s by (simp add: power_int_nonneg_exp)
  also have "\<dots> = ?x"
    by (simp add: powi_ten_add mult.assoc)
  finally show ?thesis .
qed

lemma round_pos_form:
  assumes "0 < x"
  shows "\<exists>c k. 0 < c \<and> c < 10 ^ 28 \<and> round_pos x = of_int c * 10 powi k"
proof -
  define s where "s = 27 - adjusted x"
  define c where "c = round_half_even (x * 10 powi s)"
  have r: "round_pos x = of_int c * 10 powi (- s)"
    by (simp add: round_pos_def c_def s_def)
  then have pos: "0 < c"
    using round_pos_positive[OF assms] powi_ten_pos[of "- s"]
    by (metis of_int_0_less_iff zero_less_mult_pos2)
  have "of_int c * 10 powi (- s) \<le> (10::rat) powi 28 * 10 powi (- s)"
    unfolding r[symmetric] powi_ten_add[symmetric]
    using round_pos_range(2)[OF assms] by (simp add: s_def add.commute)
  then have "of_int c \<le> (10::rat) powi 28"
    by (rule mult_right_le_imp_le) simp
  then have "c \<le> 10 ^ 28"
    by (metis of_int_le_iff of_int_numeral of_int_power power_int_numeral)
  show ?thesis
  proof (cases "c = 10 ^ 28")
    case True
    then have "round_pos x = of_int 1 * 10 powi (28 - s)"
      using r powi_ten_add[of 28 "- s"] by simp
    then show ?thesis by (intro exI[of _ 1] exI) auto
  next
    case False
    then show ?thesis
      using \<open>c \<le> 10 ^ 28\<close> pos r by (intro exI[of _ c] exI[of _ "- s"]) auto
  qed
qed

subsection \<open>The laws of the context\<close>

text \<open>
  What the arithmetic promises its clients: rounding is monotone, odd, and leaves exactly the
  values that fit into the precision unchanged. \<open>fits\<close> is the set of values an operation can
  return.
\<close>

locale decimal_rounding =
  fixes rnd :: "rat \<Rightarrow> rat" and fits :: "rat \<Rightarrow> bool"
  assumes rnd_mono: "x \<le> y \<Longrightarrow> rnd x \<le> rnd y"
    and rnd_minus: "rnd (- x) = - rnd x"
    and rnd_fits: "fits (rnd x)"
    and rnd_id: "fits x \<Longrightarrow> rnd x = x"
    and rnd_pos: "0 < x \<Longrightarrow> 0 < rnd x"
begin

lemma rnd_zero: "rnd 0 = 0"
  using rnd_minus[of 0] by simp

lemma fits_zero: "fits 0"
  using rnd_fits[of 0] rnd_zero by simp

lemma fits_minus: "fits x \<Longrightarrow> fits (- x)"
  by (metis rnd_fits rnd_id rnd_minus)

lemma rnd_nonneg: "0 \<le> x \<Longrightarrow> 0 \<le> rnd x"
  using rnd_mono[of 0 x] rnd_zero by simp

lemma rnd_nonpos: "x \<le> 0 \<Longrightarrow> rnd x \<le> 0"
  using rnd_mono[of x 0] rnd_zero by simp

lemma rnd_pos_iff: "0 < rnd x \<longleftrightarrow> 0 < x"
  using rnd_pos rnd_nonpos by (meson linorder_not_le)

lemma rnd_neg_iff: "rnd x < 0 \<longleftrightarrow> x < 0"
  using rnd_pos_iff[of "- x"] by (simp add: rnd_minus)

lemma rnd_le_fits: "x \<le> y \<Longrightarrow> fits y \<Longrightarrow> rnd x \<le> y"
  using rnd_mono[of x y] rnd_id by simp

lemma rnd_ge_fits: "y \<le> x \<Longrightarrow> fits y \<Longrightarrow> y \<le> rnd x"
  using rnd_mono[of y x] rnd_id by simp

lemma rnd_diff_nonneg:
  \<comment> \<open>subtracting a rounded amount that is covered exactly never goes below zero\<close>
  assumes "x \<le> y" "fits y"
  shows "0 \<le> rnd (y - rnd x)"
  using rnd_le_fits[OF assms] by (simp add: rnd_nonneg)

end

lemma dec_round_minus: "dec_round (- x) = - dec_round x"
  by (simp add: dec_round_def)

lemma dec_round_pos: "0 < x \<Longrightarrow> 0 < dec_round x"
  by (simp add: dec_round_def round_pos_positive)

lemma dec_round_nonneg_mono:
  assumes "0 \<le> x" "x \<le> y"
  shows "dec_round x \<le> dec_round y"
  using assms round_pos_mono[of x y] round_pos_positive[of y] by (auto simp: dec_round_def)

lemma dec_round_mono:
  assumes "x \<le> y"
  shows "dec_round x \<le> dec_round y"
proof -
  consider "0 \<le> x" | "x < 0" "0 < y" | "y \<le> 0"
    by linarith
  then show ?thesis
  proof cases
    case 1
    then show ?thesis using assms by (rule dec_round_nonneg_mono)
  next
    case 2
    then show ?thesis
      using dec_round_pos[of y] dec_round_pos[of "- x"] by (simp add: dec_round_minus)
  next
    case 3
    then show ?thesis
      using dec_round_nonneg_mono[of "- y" "- x"] assms by (simp add: dec_round_minus)
  qed
qed

lemma representable_scaled:
  assumes "\<bar>c\<bar> < 10 ^ 28"
  shows "representable (of_int c * 10 powi k)"
proof -
  consider "c = 0" | "0 < c" | "c < 0"
    by linarith
  then show ?thesis
  proof cases
    case 2
    then show ?thesis
      using round_pos_exact[of c k] assms by (simp add: representable_def dec_round_def)
  next
    case 3
    then have "of_int c * (10::rat) powi k < 0"
      by (intro mult_neg_pos) simp_all
    then show ?thesis
      using round_pos_exact[of "- c" k] assms 3 by (simp add: representable_def dec_round_def)
  qed (simp add: representable_def dec_round_def)
qed

lemma representable_iff:
  "representable x \<longleftrightarrow> (\<exists>c k. \<bar>c\<bar> < 10 ^ 28 \<and> x = of_int c * 10 powi k)"
proof
  assume x: "representable x"
  consider "x = 0" | "0 < x" | "0 < - x"
    by linarith
  then show "\<exists>c k. \<bar>c\<bar> < 10 ^ 28 \<and> x = of_int c * 10 powi k"
  proof cases
    case 1
    then show ?thesis by (intro exI[of _ 0]) simp
  next
    case 2
    then obtain c k where "0 < c" "c < 10 ^ 28" "round_pos x = of_int c * 10 powi k"
      using round_pos_form by blast
    then show ?thesis
      using x 2 by (intro exI[of _ c] exI[of _ k]) (simp add: representable_def dec_round_def)
  next
    case 3
    then obtain c k where "0 < c" "c < 10 ^ 28" "round_pos (- x) = of_int c * 10 powi k"
      using round_pos_form by blast
    then show ?thesis
      using x 3 by (intro exI[of _ "- c"] exI[of _ k]) (auto simp: representable_def dec_round_def)
  qed
qed (use representable_scaled in blast)

lemma dec_round_representable: "representable (dec_round x)"
proof -
  have pos: "representable (round_pos y)" if y: "0 < y" for y
  proof -
    obtain c k where "0 < c" "c < 10 ^ 28" "round_pos y = of_int c * 10 powi k"
      using round_pos_form[OF y] by blast
    then show ?thesis using representable_scaled[of c k] by simp
  qed
  have neg: "representable (- y)" if "representable y" for y
    using that by (simp add: representable_def dec_round_minus)
  consider "x = 0" | "0 < x" | "0 < - x"
    by linarith
  then show ?thesis
    using pos[of x] neg[OF pos[of "- x"]] by cases (auto simp: dec_round_def representable_def)
qed

interpretation dc: decimal_rounding dec_round representable
proof unfold_locales
  show "dec_round x \<le> dec_round y" if "x \<le> y" for x y
    using that by (rule dec_round_mono)
  show "dec_round (- x) = - dec_round x" for x
    by (rule dec_round_minus)
  show "representable (dec_round x)" for x
    by (rule dec_round_representable)
  show "dec_round x = x" if "representable x" for x
    using that by (simp add: representable_def)
  show "0 < dec_round x" if "0 < x" for x
    using that by (rule dec_round_pos)
qed

lemmas dec_round_laws =
  dc.rnd_zero dc.rnd_pos_iff dc.rnd_neg_iff dc.rnd_fits dc.rnd_id

declare dc.rnd_zero [simp] dc.fits_zero [simp] dc.rnd_fits [simp]

subsection \<open>The operations the code uses\<close>

definition dadd :: "decimal \<Rightarrow> decimal \<Rightarrow> decimal" where
  "dadd a b = dec_round (a + b)"

definition dsub :: "decimal \<Rightarrow> decimal \<Rightarrow> decimal" where
  "dsub a b = dec_round (a - b)"

definition dmul :: "decimal \<Rightarrow> decimal \<Rightarrow> decimal" where
  "dmul a b = dec_round (a * b)"

definition ddiv :: "decimal \<Rightarrow> decimal \<Rightarrow> decimal result" where
  "ddiv a b =
     (if b = 0 then Inl (if a = 0 then InvalidOperation else DivisionByZero)
      else Inr (dec_round (a / b)))"

definition trunc_rat :: "rat \<Rightarrow> int" where
  "trunc_rat x = (if 0 \<le> x then \<lfloor>x\<rfloor> else \<lceil>x\<rceil>)"

definition dfloordiv :: "decimal \<Rightarrow> decimal \<Rightarrow> int result" where
  \<comment> \<open>\<open>int(a // b)\<close>: the truncated quotient, which must fit into the precision\<close>
  "dfloordiv a b =
     (if b = 0 then Inl (if a = 0 then InvalidOperation else DivisionByZero)
      else if 10 ^ 28 \<le> \<bar>trunc_rat (a / b)\<bar> then Inl InvalidOperation
      else Inr (trunc_rat (a / b)))"

definition dsum :: "decimal list \<Rightarrow> decimal" where
  \<comment> \<open>\<open>sum(xs, Decimal("0"))\<close>: left to right, rounding at each addition\<close>
  "dsum xs = foldl dadd 0 xs"

lemma dec_ops_representable [simp]:
  "representable (dadd a b)" "representable (dsub a b)" "representable (dmul a b)"
  by (simp_all add: dadd_def dsub_def dmul_def)

lemma ddiv_Inr_iff [result_simps]: "ddiv a b = Inr c \<longleftrightarrow> b \<noteq> 0 \<and> c = dec_round (a / b)"
  by (auto simp: ddiv_def)

lemma ddiv_Inl_iff [result_simps]:
  "ddiv a b = Inl e \<longleftrightarrow> b = 0 \<and> e = (if a = 0 then InvalidOperation else DivisionByZero)"
  by (auto simp: ddiv_def)

lemma dadd_nonneg [dec_intros]: "0 \<le> a \<Longrightarrow> 0 \<le> b \<Longrightarrow> 0 \<le> dadd a b"
  by (simp add: dadd_def dc.rnd_nonneg)

lemma dadd_pos_left [dec_intros]: "0 < a \<Longrightarrow> 0 \<le> b \<Longrightarrow> 0 < dadd a b"
  by (simp add: dadd_def dc.rnd_pos_iff)

lemma dadd_pos_right [dec_intros]: "0 \<le> a \<Longrightarrow> 0 < b \<Longrightarrow> 0 < dadd a b"
  by (simp add: dadd_def dc.rnd_pos_iff)

lemma dmul_nonneg [dec_intros]: "0 \<le> a \<Longrightarrow> 0 \<le> b \<Longrightarrow> 0 \<le> dmul a b"
  by (simp add: dmul_def dc.rnd_nonneg)

lemma dmul_pos [dec_intros]: "0 < a \<Longrightarrow> 0 < b \<Longrightarrow> 0 < dmul a b"
  by (simp add: dmul_def dc.rnd_pos_iff)

lemma dmul_mono_right: "0 \<le> a \<Longrightarrow> b \<le> c \<Longrightarrow> dmul a b \<le> dmul a c"
  by (simp add: dmul_def dc.rnd_mono mult_left_mono)

lemma dsub_nonneg: "b \<le> a \<Longrightarrow> 0 \<le> dsub a b"
  by (simp add: dsub_def dc.rnd_nonneg)

lemma dsub_nonpos: "a \<le> b \<Longrightarrow> dsub a b \<le> 0"
  by (simp add: dsub_def dc.rnd_nonpos)

lemma dadd_zero_id [simp]: "representable a \<Longrightarrow> dadd a 0 = a"
  by (simp add: dadd_def dc.rnd_id)

lemma trunc_rat_nonneg: "0 \<le> x \<Longrightarrow> 0 \<le> trunc_rat x \<and> of_int (trunc_rat x) \<le> x \<and> x < of_int (trunc_rat x) + 1"
  by (simp add: trunc_rat_def) linarith

lemma dfloordiv_Inr_nonneg:
  assumes "dfloordiv a b = Inr q" "0 \<le> a" "0 < b"
  shows "0 \<le> q" "of_int q * b \<le> a" "a < (of_int q + 1) * b"
proof -
  have q: "q = trunc_rat (a / b)"
    using assms by (auto simp: dfloordiv_def split: if_splits)
  have "0 \<le> a / b"
    using assms by simp
  from trunc_rat_nonneg[OF this] have "0 \<le> q" "of_int q \<le> a / b" "a / b < of_int q + 1"
    by (simp_all add: q)
  then show "0 \<le> q" "of_int q * b \<le> a" "a < (of_int q + 1) * b"
    using assms by (simp_all add: pos_le_divide_eq pos_divide_less_eq)
qed

lemma dfloordiv_error:
  assumes "dfloordiv a b = Inl e"
  shows "e = DivisionByZero \<and> b = 0 \<or> e = InvalidOperation"
  using assms by (auto simp: dfloordiv_def split: if_splits)

subsection \<open>Exact values on a decimal grid\<close>

definition on_grid :: "nat \<Rightarrow> rat \<Rightarrow> bool" where
  \<comment> \<open>at most \<open>k\<close> digits after the decimal point\<close>
  "on_grid k x \<longleftrightarrow> of_int \<lfloor>x * 10 ^ k\<rfloor> = x * 10 ^ k"

lemma on_grid_iff: "on_grid k x \<longleftrightarrow> (\<exists>c::int. x * 10 ^ k = of_int c)"
  by (auto simp: on_grid_def)

lemma on_grid_of_int [simp]: "on_grid k (of_int i)"
  unfolding on_grid_iff by (intro exI[of _ "i * 10 ^ k"]) simp

lemma on_grid_zero [simp]: "on_grid k 0"
  by (simp add: on_grid_def)

lemma on_grid_add: "on_grid k x \<Longrightarrow> on_grid k y \<Longrightarrow> on_grid k (x + y)"
  unfolding on_grid_iff by (metis distrib_right of_int_add)

lemma on_grid_diff: "on_grid k x \<Longrightarrow> on_grid k y \<Longrightarrow> on_grid k (x - y)"
  unfolding on_grid_iff by (metis left_diff_distrib of_int_diff)

lemma on_grid_mult_int: "on_grid k x \<Longrightarrow> on_grid k (of_int i * x)"
  unfolding on_grid_iff by (metis mult.assoc of_int_mult)

lemma on_grid_representable:
  assumes "on_grid k x" "\<bar>x\<bar> * 10 ^ k < 10 ^ 28"
  shows "representable x"
proof -
  obtain c :: int where c: "x * 10 ^ k = of_int c"
    using assms(1) by (auto simp: on_grid_iff)
  have "of_int \<bar>c\<bar> = \<bar>x\<bar> * 10 ^ k"
    by (simp add: abs_mult flip: c)
  then have "of_int \<bar>c\<bar> < (of_int (10 ^ 28) :: rat)"
    using assms(2) by simp
  then have "\<bar>c\<bar> < 10 ^ 28"
    by (simp only: of_int_less_iff)
  moreover have "x = of_int c * 10 powi (- int k)"
    using c by (simp add: power_int_minus field_simps)
  ultimately show ?thesis
    unfolding representable_iff by blast
qed

text \<open>
  Values on the grid of eight decimals, which the price columns use, are their own rounding; the
  evaluator takes this shortcut.
\<close>

lemma on_grid_quotient:
  assumes "quotient_of x = (a, b)"
  shows "on_grid 8 x \<longleftrightarrow> 100000000 mod b = 0"
proof -
  have b: "0 < b" and cop: "coprime a b" and x: "x = of_int a / of_int b"
    using quotient_of_denom_pos[OF assms] quotient_of_coprime[OF assms] quotient_of_div[OF assms] by auto
  have "on_grid 8 x \<longleftrightarrow> (\<exists>c. of_int a * 10 ^ 8 = (of_int c * of_int b :: rat))"
    using b by (simp add: on_grid_iff x field_simps)
  also have "\<dots> \<longleftrightarrow> (\<exists>c. a * 100000000 = c * b)"
  proof -
    have "(of_int a * 10 ^ 8 = (of_int c * of_int b :: rat)) \<longleftrightarrow> a * 100000000 = c * b" for c
    proof -
      have "of_int a * 10 ^ 8 = (of_int (a * 100000000) :: rat)" "of_int c * of_int b = (of_int (c * b) :: rat)"
        by simp_all
      then show ?thesis
        by (simp only: of_int_eq_iff)
    qed
    then show ?thesis
      by simp
  qed
  also have "\<dots> \<longleftrightarrow> b dvd a * 100000000"
    by (auto simp: dvd_def mult.commute)
  also have "\<dots> \<longleftrightarrow> b dvd 100000000"
    using cop by (simp add: coprime_commute coprime_dvd_mult_right_iff)
  finally show ?thesis
    by (simp add: mod_eq_0_iff_dvd)
qed

lemma dec_round_code [code]:
  "dec_round x =
     (let (a, b) = quotient_of x in
      if 100000000 mod b = 0 \<and> \<bar>a\<bar> < 100000000000000000000 * b then x
      else if 0 < a then round_pos x else - round_pos (- x))"
proof -
  obtain a b where q: "quotient_of x = (a, b)"
    by fastforce
  have b: "0 < b" and x: "x = of_int a / of_int b"
    using quotient_of_denom_pos[OF q] quotient_of_div[OF q] by auto
  show ?thesis
  proof (cases "on_grid 8 x \<and> \<bar>a\<bar> < 100000000000000000000 * b")
    case True
    then have "(of_int \<bar>a\<bar> :: rat) < of_int (100000000000000000000 * b)"
      by (simp only: of_int_less_iff)
    then have "\<bar>x\<bar> < 100000000000000000000"
      using b by (simp add: x abs_divide divide_less_eq)
    then have "representable x"
      using True by (intro on_grid_representable[of 8]) simp_all
    then show ?thesis
      using True on_grid_quotient[OF q] by (simp add: q representable_def)
  next
    case False
    have "x \<noteq> 0"
    proof
      assume "x = 0"
      then have "a = 0" "on_grid 8 x"
        using x b by simp_all
      then show False
        using False b by simp
    qed
    moreover have "0 < a \<longleftrightarrow> 0 < x"
      using b by (simp add: x zero_less_divide_iff)
    ultimately show ?thesis
      using False on_grid_quotient[OF q] unfolding dec_round_def q Let_def by auto
  qed
qed

end
