(* ===== verification/Database_Session.thy ===== *)
theory Database_Session
  imports Trading_Prelude
begin

text \<open>
  Stateful code with exceptions. An action takes the state to a result and the state it leaves
  behind, because a Python exception keeps what was done before it. The database session
  (\<open>sqlalchemy.orm.Session\<close>, created by \<open>app/db/session.py\<close> with \<open>expire_on_commit=False\<close>) is a
  table, a flag telling that a failed statement must be rolled back before the session can be used
  again, and a schedule of faults that an adversary may choose: a statement may get lost, a commit
  may get lost or be applied without its acknowledgement, or the database may refuse in a way that
  is not worth a retry. A failed flush also expires the attributes of mapped objects, and until the
  rollback the session refuses to reload them. Hoare triples over both outcomes carry the proofs about these actions.
\<close>

named_theorems triple_rules "Hoare rules for actions"

subsection \<open>Actions\<close>

type_synonym ('s, 'a) action = "'s \<Rightarrow> 'a result \<times> 's"

definition act_return :: "'a \<Rightarrow> ('s, 'a) action" where
  "act_return a s = (Inr a, s)"

definition act_raise :: "py_error \<Rightarrow> ('s, 'a) action" where
  "act_raise e s = (Inl e, s)"

definition act_lift :: "'a result \<Rightarrow> ('s, 'a) action" where
  "act_lift r s = (r, s)"

definition act_bind :: "('s, 'a) action \<Rightarrow> ('a \<Rightarrow> ('s, 'b) action) \<Rightarrow> ('s, 'b) action" where
  "act_bind m f s = (case m s of (Inl e, t) \<Rightarrow> (Inl e, t) | (Inr a, t) \<Rightarrow> f a t)"

definition act_then :: "('s, unit) action \<Rightarrow> ('s, 'b) action \<Rightarrow> ('s, 'b) action" where
  "act_then m n = act_bind m (\<lambda>_. n)"

definition act_catch :: "('s, 'a) action \<Rightarrow> (py_error \<Rightarrow> ('s, 'a) action) \<Rightarrow> ('s, 'a) action" where
  \<comment> \<open>\<open>try ... except\<close>\<close>
  "act_catch m h s = (case m s of (Inl e, t) \<Rightarrow> h e t | (Inr a, t) \<Rightarrow> (Inr a, t))"

definition act_try ::
    "('s, 'a) action \<Rightarrow> ('a \<Rightarrow> ('s, 'b) action) \<Rightarrow> (py_error \<Rightarrow> ('s, 'b) action) \<Rightarrow> ('s, 'b) action" where
  \<comment> \<open>\<open>try ... except ... else\<close>\<close>
  "act_try m f h s = (case m s of (Inl e, t) \<Rightarrow> h e t | (Inr a, t) \<Rightarrow> f a t)"

definition act_finally :: "('s, 'a) action \<Rightarrow> ('s, unit) action \<Rightarrow> ('s, 'a) action" where
  \<comment> \<open>\<open>try ... finally\<close>: an exception of the clean-up replaces the outcome\<close>
  "act_finally m c s =
     (case m s of (r, t) \<Rightarrow> (case c t of (Inl e, u) \<Rightarrow> (Inl e, u) | (Inr _, u) \<Rightarrow> (r, u)))"

definition act_skip :: "('s, unit) action" where
  "act_skip = act_return ()"

lemma act_simps [simp]:
  "act_return a s = (Inr a, s)"
  "act_raise e s = (Inl e, s)"
  "act_lift r s = (r, s)"
  "act_skip s = (Inr (), s)"
  by (simp_all add: act_return_def act_raise_def act_lift_def act_skip_def)

lemma bind_lift_Inr: "r = Inr a \<Longrightarrow> act_bind (act_lift r) m = m a"
  by (simp add: act_bind_def fun_eq_iff)

subsection \<open>Hoare triples\<close>

definition triple ::
    "('s \<Rightarrow> bool) \<Rightarrow> ('s, 'a) action \<Rightarrow> ('a \<Rightarrow> 's \<Rightarrow> bool) \<Rightarrow> (py_error \<Rightarrow> 's \<Rightarrow> bool) \<Rightarrow> bool" where
  "triple P m Q E \<longleftrightarrow>
     (\<forall>s. P s \<longrightarrow> (case m s of (Inr a, t) \<Rightarrow> Q a t | (Inl e, t) \<Rightarrow> E e t))"

lemma tripleI:
  assumes "\<And>s a t. P s \<Longrightarrow> m s = (Inr a, t) \<Longrightarrow> Q a t"
    and "\<And>s e t. P s \<Longrightarrow> m s = (Inl e, t) \<Longrightarrow> E e t"
  shows "triple P m Q E"
  unfolding triple_def using assms by (auto split: prod.splits sum.splits)

lemma triple_Inr: "triple P m Q E \<Longrightarrow> P s \<Longrightarrow> m s = (Inr a, t) \<Longrightarrow> Q a t"
  by (auto simp: triple_def split: prod.splits)

lemma triple_Inl: "triple P m Q E \<Longrightarrow> P s \<Longrightarrow> m s = (Inl e, t) \<Longrightarrow> E e t"
  by (auto simp: triple_def split: prod.splits)

lemma triple_total:
  assumes "triple P m Q (\<lambda>_ _. False)" "P s"
  shows "\<exists>a t. m s = (Inr a, t) \<and> Q a t"
  using assms by (cases "m s"; cases "fst (m s)") (auto dest: triple_Inr triple_Inl)

lemma triple_conseq:
  assumes "triple P m Q E"
    and "\<And>s. P' s \<Longrightarrow> P s" "\<And>a s. Q a s \<Longrightarrow> Q' a s" "\<And>e s. E e s \<Longrightarrow> E' e s"
  shows "triple P' m Q' E'"
  using assms unfolding triple_def by (fastforce split: prod.splits sum.splits)

lemma triple_weaken:
  assumes "triple P m Q E" "\<And>a s. Q a s \<Longrightarrow> Q' a s" "\<And>e s. E e s \<Longrightarrow> E' e s"
  shows "triple P m Q' E'"
  by (rule triple_conseq[OF assms(1)]) (use assms in auto)

lemma triple_strengthen:
  assumes "triple P m Q E" "\<And>s. P' s \<Longrightarrow> P s"
  shows "triple P' m Q E"
  by (rule triple_conseq[OF assms(1)]) (use assms in auto)

lemma triple_disj: "triple P m Q E \<Longrightarrow> triple P' m Q E \<Longrightarrow> triple (\<lambda>s. P s \<or> P' s) m Q E"
  by (auto simp: triple_def)

lemma triple_return [triple_rules]: "triple (Q a) (act_return a) Q E"
  by (simp add: triple_def)

lemma triple_raise [triple_rules]: "triple (E e) (act_raise e) Q E"
  by (simp add: triple_def)

lemma triple_bind [triple_rules]:
  assumes "triple P m R E" "\<And>a. triple (R a) (f a) Q E"
  shows "triple P (act_bind m f) Q E"
  using assms unfolding triple_def act_bind_def by (fastforce split: prod.splits sum.splits)

lemma triple_then [triple_rules]:
  assumes "triple P m (\<lambda>_. R) E" "triple R n Q E"
  shows "triple P (act_then m n) Q E"
  unfolding act_then_def by (rule triple_bind[OF assms])

lemma triple_catch [triple_rules]:
  assumes "triple P m Q R" "\<And>e. triple (R e) (h e) Q E"
  shows "triple P (act_catch m h) Q E"
  using assms unfolding triple_def act_catch_def by (fastforce split: prod.splits sum.splits)

lemma triple_try [triple_rules]:
  assumes "triple P m R R'" "\<And>a. triple (R a) (f a) Q E" "\<And>e. triple (R' e) (h e) Q E"
  shows "triple P (act_try m f h) Q E"
  using assms unfolding triple_def act_try_def by (fastforce split: prod.splits sum.splits)

lemma triple_finally:
  assumes "triple P m Q' E'"
    and "\<And>a. triple (Q' a) c (\<lambda>_. Q a) E"
    and "\<And>e. triple (E' e) c (\<lambda>_. E e) E"
  shows "triple P (act_finally m c) Q E"
proof (rule tripleI)
  fix s a t
  assume P: "P s" and run: "act_finally m c s = (Inr a, t)"
  obtain r u where m: "m s = (r, u)" by (cases "m s")
  with run have c: "r = Inr a" "c u = (Inr (), t)"
    by (auto simp: act_finally_def split: prod.splits sum.splits)
  then show "Q a t"
    using triple_Inr[OF assms(2) triple_Inr[OF assms(1) P]] m by blast
next
  fix s e t
  assume P: "P s" and run: "act_finally m c s = (Inl e, t)"
  obtain r u where m: "m s = (r, u)" by (cases "m s")
  with run consider (cleanup) "c u = (Inl e, t)" | (body) "r = Inl e" "c u = (Inr (), t)"
    by (auto simp: act_finally_def split: prod.splits sum.splits)
  then show "E e t"
  proof cases
    case cleanup
    show ?thesis
    proof (cases r)
      case (Inl e')
      then show ?thesis using triple_Inl[OF assms(3) triple_Inl[OF assms(1) P]] m cleanup by blast
    next
      case (Inr a)
      then show ?thesis using triple_Inl[OF assms(2) triple_Inr[OF assms(1) P]] m cleanup by blast
    qed
  next
    case body
    then show ?thesis using triple_Inr[OF assms(3) triple_Inl[OF assms(1) P]] m by blast
  qed
qed

lemma triple_cases:
  assumes "b \<Longrightarrow> triple P m Q E" "\<not> b \<Longrightarrow> triple P n Q E"
  shows "triple P (if b then m else n) Q E"
  using assms by simp

lemma triple_lift: "triple (\<lambda>s. (\<forall>a. r = Inr a \<longrightarrow> Q a s) \<and> (\<forall>e. r = Inl e \<longrightarrow> E e s)) (act_lift r) Q E"
  by (rule tripleI) auto

subsection \<open>What an action leaves alone\<close>

definition keeps :: "('s \<Rightarrow> 'o) \<Rightarrow> ('s, 'a) action \<Rightarrow> bool" where
  "keeps obs m \<longleftrightarrow> (\<forall>s. obs (snd (m s)) = obs s)"

named_theorems keeps_intros "actions that leave a part of the state alone"

lemma keeps_run: "keeps obs m \<Longrightarrow> m s = (r, t) \<Longrightarrow> obs t = obs s"
  by (metis keeps_def snd_conv)

lemma keepsI: "(\<And>s r t. m s = (r, t) \<Longrightarrow> obs t = obs s) \<Longrightarrow> keeps obs m"
  unfolding keeps_def by (metis prod.collapse)

lemma keeps_simple [keeps_intros]:
  "keeps obs (act_return a)" "keeps obs (act_raise e)" "keeps obs (act_lift r)" "keeps obs act_skip"
  by (simp_all add: keeps_def)

lemma keeps_bind [keeps_intros]:
  "keeps obs m \<Longrightarrow> (\<And>a. keeps obs (f a)) \<Longrightarrow> keeps obs (act_bind m f)"
  unfolding keeps_def act_bind_def by (auto split: prod.splits sum.splits) (metis snd_conv)+

lemma keeps_then [keeps_intros]: "keeps obs m \<Longrightarrow> keeps obs n \<Longrightarrow> keeps obs (act_then m n)"
  unfolding act_then_def by (rule keeps_bind)

lemma keeps_catch [keeps_intros]:
  "keeps obs m \<Longrightarrow> (\<And>e. keeps obs (h e)) \<Longrightarrow> keeps obs (act_catch m h)"
  unfolding keeps_def act_catch_def by (auto split: prod.splits sum.splits) (metis snd_conv)+

lemma keeps_try [keeps_intros]:
  "keeps obs m \<Longrightarrow> (\<And>a. keeps obs (f a)) \<Longrightarrow> (\<And>e. keeps obs (h e)) \<Longrightarrow> keeps obs (act_try m f h)"
  unfolding keeps_def act_try_def by (auto split: prod.splits sum.splits) (metis snd_conv)+

lemma keeps_finally [keeps_intros]:
  "keeps obs m \<Longrightarrow> keeps obs c \<Longrightarrow> keeps obs (act_finally m c)"
  unfolding keeps_def act_finally_def by (auto split: prod.splits sum.splits) (metis snd_conv)+

lemma triple_keeps:
  assumes "triple P m Q E" "keeps obs m"
  shows "triple (\<lambda>s. P s \<and> K (obs s)) m (\<lambda>a s. Q a s \<and> K (obs s)) (\<lambda>e s. E e s \<and> K (obs s))"
  by (rule tripleI)
     (auto dest: triple_Inr[OF assms(1)] triple_Inl[OF assms(1)] simp: keeps_run[OF assms(2)])

subsection \<open>A session over one table\<close>

datatype fault = NoFault | Lost | LostCommit | Unacknowledged | Broken

record 'r session =
  table_rows :: "'r list"
  fault_schedule :: "fault list"
  needs_rollback :: bool
  attributes_expired :: bool

type_synonym ('r, 'z, 'a) db = "('r, 'z) session_scheme \<Rightarrow> 'a result \<times> ('r, 'z) session_scheme"

definition next_fault :: "('r, 'z) session_scheme \<Rightarrow> fault \<times> ('r, 'z) session_scheme" where
  "next_fault s =
     (case fault_schedule s of [] \<Rightarrow> (NoFault, s) | f # fs \<Rightarrow> (f, s\<lparr>fault_schedule := fs\<rparr>))"

definition db_execute :: "('r list \<Rightarrow> 'a) \<Rightarrow> ('r, 'z, 'a) db" where
  \<comment> \<open>a statement whose result depends on the table\<close>
  "db_execute f s =
     (if needs_rollback s then (Inl DatabaseFault, s)
      else case next_fault s of
        (NoFault, t) \<Rightarrow> (Inr (f (table_rows t)), t)
      | (Broken, t) \<Rightarrow> (Inl DatabaseFault, t\<lparr>needs_rollback := True\<rparr>)
      | (_, t) \<Rightarrow> (Inl DatabaseUnavailable, t\<lparr>needs_rollback := True\<rparr>))"

definition failed_flush :: "('r, 'z) session_scheme \<Rightarrow> ('r, 'z) session_scheme" where
  "failed_flush s = s\<lparr>needs_rollback := True, attributes_expired := True\<rparr>"

definition db_commit :: "('r list \<Rightarrow> bool) \<Rightarrow> ('r list \<Rightarrow> 'r list) \<Rightarrow> ('r, 'z, unit) db" where
  \<comment> \<open>flush and commit a change; the database checks the constraints of the table\<close>
  "db_commit constraints change s =
     (if needs_rollback s then (Inl DatabaseFault, s)
      else let rows = change (table_rows s) in
        case next_fault s of (f, t) \<Rightarrow>
          if f = Lost then (Inl DatabaseUnavailable, failed_flush t)
          else if f = Broken then (Inl DatabaseFault, failed_flush t)
          else if \<not> constraints rows then (Inl IntegrityError, failed_flush t)
          else if f = LostCommit then (Inl DatabaseUnavailable, t\<lparr>needs_rollback := True\<rparr>)
          else if f = Unacknowledged
            then (Inl DatabaseUnavailable, t\<lparr>table_rows := rows, needs_rollback := True\<rparr>)
          else (Inr (), t\<lparr>table_rows := rows\<rparr>))"

definition db_rollback :: "('r, 'z, unit) db" where
  \<comment> \<open>a rollback is assumed not to fail itself: once a statement has found the connection lost, SQLAlchemy has
    nothing left to send\<close>
  "db_rollback s = (Inr (), s\<lparr>needs_rollback := False, attributes_expired := False\<rparr>)"

definition db_attribute :: "('r, 'z, unit) db" where
  \<comment> \<open>reading an attribute of a mapped object\<close>
  "db_attribute s = (if needs_rollback s \<and> attributes_expired s then (Inl DatabaseFault, s) else (Inr (), s))"

text \<open>The exceptions retried by the code: \<open>TRANSIENT_DATABASE_ERRORS\<close>.\<close>

definition transient :: "py_error \<Rightarrow> bool" where
  "transient e \<longleftrightarrow> e = DatabaseUnavailable"

definition db_error :: "py_error \<Rightarrow> bool" where
  \<comment> \<open>the exceptions of SQLAlchemy\<close>
  "db_error e \<longleftrightarrow> e \<in> {DatabaseUnavailable, DatabaseFault, IntegrityError, StaleDataError}"

subsection \<open>Rules for the session\<close>

text \<open>Without faults a session is a plain table.\<close>

definition healthy :: "('r, 'z) session_scheme \<Rightarrow> bool" where
  "healthy s \<longleftrightarrow> fault_schedule s = [] \<and> \<not> needs_rollback s \<and> \<not> attributes_expired s"

lemma healthy_simps:
  assumes "healthy s"
  shows "db_execute f s = (Inr (f (table_rows s)), s)"
    and "constraints (change (table_rows s)) \<Longrightarrow>
           db_commit constraints change s = (Inr (), s\<lparr>table_rows := change (table_rows s)\<rparr>)"
    and "db_attribute s = (Inr (), s)"
    and "db_rollback s = (Inr (), s)"
    and "healthy (s\<lparr>table_rows := rows\<rparr>)"
  using assms
  by (simp_all add: healthy_def db_execute_def db_commit_def db_attribute_def db_rollback_def next_fault_def)

lemma next_fault_fields:
  assumes "next_fault s = (f, t)"
  shows "table_rows t = table_rows s" "needs_rollback t = needs_rollback s" "session.more t = session.more s"
    "healthy s \<Longrightarrow> f = NoFault \<and> t = s"
  using assms by (auto simp: next_fault_def healthy_def split: list.splits)

lemma keeps_session [keeps_intros]:
  "keeps session.more (db_execute f)" "keeps session.more (db_commit c g)"
  "keeps session.more db_rollback" "keeps session.more db_attribute"
  by (auto simp: keeps_def db_execute_def db_commit_def db_rollback_def db_attribute_def Let_def
      failed_flush_def dest: next_fault_fields(3) split: prod.splits fault.splits)

lemma execute_rows:
  assumes "db_execute f s = (r, t)"
  shows "table_rows t = table_rows s" "r = Inr (f (table_rows s)) \<or> (\<exists>e. r = Inl e \<and> db_error e)"
  using assms next_fault_fields(1)
  by (auto simp: db_execute_def db_error_def split: if_splits prod.splits fault.splits)

lemma commit_rows:
  assumes "db_commit c change s = (r, t)"
  shows "r = Inr () \<and> table_rows t = change (table_rows s) \<and> c (change (table_rows s)) \<or>
    (\<exists>e. r = Inl e \<and> db_error e) \<and>
      (table_rows t = table_rows s \<or> table_rows t = change (table_rows s) \<and> c (change (table_rows s)))"
proof -
  obtain f u where nf: "next_fault s = (f, u)" by (meson surj_pair)
  show ?thesis
    using assms next_fault_fields(1)[OF nf]
    by (auto simp: db_commit_def Let_def nf db_error_def failed_flush_def split: if_splits)
qed

end
