(* ===== verification/Market_Models.thy ===== *)
theory Market_Models
  imports Decimal_Context Database_Session
begin

text \<open>
  The immutable data of the backtesting package (\<open>app/backtesting/models.py\<close>), the stored daily
  bars with their table constraints (\<open>app/models/market_data.py\<close>), and the ordered load of a
  symbol's bars (\<open>app/backtesting/market_data.py\<close>), a query of the session that may fail.
\<close>

record market_bar =
  bar_timestamp :: timestamp
  open_price :: decimal
  high_price :: decimal
  low_price :: decimal
  close_price :: decimal
  volume :: int

datatype signal_type = BUY | SELL

datatype exit_reason = STRATEGY_EXIT | STOP_LOSS | TAKE_PROFIT | FINAL_LIQUIDATION

record signal =
  sig_timestamp :: timestamp
  sig_type :: signal_type

record completed_trade =
  t_signal_timestamp :: timestamp
  t_entry_timestamp :: timestamp
  t_entry_price :: decimal
  t_quantity :: int
  t_exit_signal_timestamp :: "timestamp option"
  t_exit_timestamp :: timestamp
  t_exit_price :: decimal
  t_profit_loss :: decimal
  t_return_percentage :: decimal
  t_exit_reason :: exit_reason

record equity_point =
  ep_timestamp :: timestamp
  equity :: decimal

record execution_result =
  final_portfolio_value :: decimal
  total_realized_profit_loss :: decimal
  er_completed_trades :: "completed_trade list"
  er_equity_curve :: "equity_point list"
  er_ignored_signals :: "signal list"

record backtest_metrics =
  total_return_percentage :: decimal
  buy_and_hold_return_percentage :: decimal
  buy_and_hold_start_timestamp :: timestamp
  buy_and_hold_start_price :: decimal
  buy_and_hold_end_price :: decimal
  win_rate_percentage :: decimal
  maximum_drawdown_percentage :: decimal
  cagr_percentage :: "decimal option"

subsection \<open>Stored bars\<close>

record market_data_row =
  md_symbol :: string
  md_interval :: string
  md_timestamp :: timestamp
  md_open_price :: decimal
  md_high_price :: decimal
  md_low_price :: decimal
  md_close_price :: decimal
  md_adjusted_close :: "decimal option"
  md_volume :: int

definition prices_positive_check :: "market_data_row \<Rightarrow> bool" where
  "prices_positive_check r \<longleftrightarrow>
     0 < md_open_price r \<and> 0 < md_high_price r \<and> 0 < md_low_price r \<and> 0 < md_close_price r \<and>
     (case md_adjusted_close r of None \<Rightarrow> True | Some a \<Rightarrow> 0 < a)"

definition price_range_check :: "market_data_row \<Rightarrow> bool" where
  "price_range_check r \<longleftrightarrow>
     md_low_price r \<le> md_open_price r \<and> md_open_price r \<le> md_high_price r \<and>
     md_low_price r \<le> md_close_price r \<and> md_close_price r \<le> md_high_price r"

definition symbol_check :: "market_data_row \<Rightarrow> bool" where
  "symbol_check r \<longleftrightarrow>
     1 \<le> length (md_symbol r) \<and> length (md_symbol r) \<le> 20 \<and> md_symbol r = str_upper (md_symbol r)"

definition numeric_18_8 :: "decimal \<Rightarrow> bool" where
  \<comment> \<open>the column type \<open>Numeric(18, 8)\<close>: eight decimal places, ten digits before the point\<close>
  "numeric_18_8 x \<longleftrightarrow> on_grid 8 x \<and> \<bar>x\<bar> < 10 ^ 10"

definition market_data_constraints :: "market_data_row \<Rightarrow> bool" where
  "market_data_constraints r \<longleftrightarrow>
     symbol_check r \<and> prices_positive_check r \<and> price_range_check r \<and> 0 \<le> md_volume r \<and>
     md_interval r = ''1d'' \<and>
     numeric_18_8 (md_open_price r) \<and> numeric_18_8 (md_high_price r) \<and>
     numeric_18_8 (md_low_price r) \<and> numeric_18_8 (md_close_price r) \<and>
     (case md_adjusted_close r of None \<Rightarrow> True | Some a \<Rightarrow> numeric_18_8 a)"

definition row_to_bar :: "market_data_row \<Rightarrow> market_bar" where
  "row_to_bar r =
     \<lparr>bar_timestamp = md_timestamp r, open_price = md_open_price r, high_price = md_high_price r,
      low_price = md_low_price r, close_price = md_close_price r, volume = md_volume r\<rparr>"

definition stored_bars :: "market_data_row list \<Rightarrow> string \<Rightarrow> string \<Rightarrow> market_bar list" where
  \<comment> \<open>the rows of one symbol and interval, ordered by timestamp\<close>
  "stored_bars rows symbol interval =
     map row_to_bar
       (sort_key md_timestamp (filter (\<lambda>r. md_symbol r = symbol \<and> md_interval r = interval) rows))"

definition market_data_pkey :: "market_data_row \<Rightarrow> string \<times> string \<times> timestamp" where
  "market_data_pkey r = (md_symbol r, md_interval r, md_timestamp r)"

text \<open>What the loaded bars satisfy; the engine and the metrics rely on it.\<close>

definition valid_bar :: "market_bar \<Rightarrow> bool" where
  "valid_bar b \<longleftrightarrow>
     0 < low_price b \<and> low_price b \<le> open_price b \<and> open_price b \<le> high_price b \<and>
     low_price b \<le> close_price b \<and> close_price b \<le> high_price b \<and>
     numeric_18_8 (open_price b) \<and> numeric_18_8 (high_price b) \<and>
     numeric_18_8 (low_price b) \<and> numeric_18_8 (close_price b)"

definition valid_bars :: "market_bar list \<Rightarrow> bool" where
  "valid_bars bars \<longleftrightarrow> list_all valid_bar bars"

lemma numeric_18_8_representable: "numeric_18_8 x \<Longrightarrow> representable x"
  unfolding numeric_18_8_def by (rule on_grid_representable[of 8]) auto

lemma valid_bar_pos:
  assumes "valid_bar b"
  shows "0 < open_price b" "0 < high_price b" "0 < low_price b" "0 < close_price b"
  using assms by (auto simp: valid_bar_def)

lemma valid_bar_representable:
  assumes "valid_bar b"
  shows "representable (open_price b)" "representable (close_price b)"
    "representable (low_price b)" "representable (high_price b)"
  using assms by (auto simp: valid_bar_def intro: numeric_18_8_representable)

lemma valid_bars_nth: "valid_bars bars \<Longrightarrow> i < length bars \<Longrightarrow> valid_bar (bars ! i)"
  by (auto simp: valid_bars_def list_all_iff)

lemma row_to_bar_valid: "market_data_constraints r \<Longrightarrow> valid_bar (row_to_bar r)"
  by (auto simp: market_data_constraints_def prices_positive_check_def price_range_check_def
      valid_bar_def row_to_bar_def)

lemma sorted_distinct_strict:
  fixes ts :: "'a::linorder list"
  shows "sorted ts \<Longrightarrow> distinct ts \<Longrightarrow> sorted_wrt (<) ts"
  by (simp add: strict_sorted_iff)

lemma pkey_distinct_timestamps:
  assumes "distinct (map market_data_pkey rows)"
  shows "distinct (map md_timestamp (filter (\<lambda>r. md_symbol r = s \<and> md_interval r = i) rows))"
  using assms
proof (induction rows)
  case (Cons r rows)
  then show ?case
    by (auto simp: market_data_pkey_def image_iff)
qed simp

lemma load_bars_facts:
  assumes "list_all market_data_constraints rows" "distinct (map market_data_pkey rows)"
  shows "valid_bars (stored_bars rows s i)"
    "sorted_wrt (<) (map bar_timestamp (stored_bars rows s i))"
    "set (stored_bars rows s i) = row_to_bar ` {r \<in> set rows. md_symbol r = s \<and> md_interval r = i}"
proof -
  let ?rs = "filter (\<lambda>r. md_symbol r = s \<and> md_interval r = i) rows"
  have ts: "map bar_timestamp (stored_bars rows s i) = map md_timestamp (sort_key md_timestamp ?rs)"
    by (simp add: stored_bars_def row_to_bar_def)
  have "mset (map md_timestamp (sort_key md_timestamp ?rs)) = mset (map md_timestamp ?rs)"
    by simp
  from mset_eq_imp_distinct_iff[OF this]
  have "distinct (map md_timestamp (sort_key md_timestamp ?rs))"
    using pkey_distinct_timestamps[OF assms(2)] by simp
  then show "sorted_wrt (<) (map bar_timestamp (stored_bars rows s i))"
    unfolding ts by (intro sorted_distinct_strict) simp_all
  show "valid_bars (stored_bars rows s i)"
    using assms(1) row_to_bar_valid by (auto simp: valid_bars_def list_all_iff stored_bars_def)
  show "set (stored_bars rows s i) = row_to_bar ` {r \<in> set rows. md_symbol r = s \<and> md_interval r = i}"
    by (auto simp: stored_bars_def)
qed

definition load_market_bars :: "string \<Rightarrow> string \<Rightarrow> (market_data_row, 'z, market_bar list) db" where
  "load_market_bars symbol interval = db_execute (\<lambda>rows. stored_bars rows symbol interval)"

lemma load_outcome:
  assumes "load_market_bars symbol interval s = (r, t)"
  shows "table_rows t = table_rows s"
    "r = Inr (stored_bars (table_rows s) symbol interval) \<or> (\<exists>e. r = Inl e \<and> db_error e)"
  using execute_rows[OF assms[unfolded load_market_bars_def]] by simp_all

text \<open>
  C12. What the table constraints give the backtester: from rows that satisfy the checks and the
  primary key, the loaded bars are exactly those of the symbol and interval, each with ordered
  positive prices on the eight-decimal grid, in strictly increasing time order whatever the order
  of the rows. Loading fails only with an error of the database, and never writes.
\<close>

theorem load_market_bars_ok:
  assumes "load_market_bars symbol interval s = (r, t)"
    and "list_all market_data_constraints (table_rows s)" "distinct (map market_data_pkey (table_rows s))"
  shows "table_rows t = table_rows s \<and>
    (case r of Inl e \<Rightarrow> db_error e
     | Inr bars \<Rightarrow> valid_bars bars \<and> sorted_wrt (<) (map bar_timestamp bars) \<and>
         set bars = row_to_bar ` {x \<in> set (table_rows s). md_symbol x = symbol \<and> md_interval x = interval})"
  using load_outcome[OF assms(1)] load_bars_facts[OF assms(2,3)] by auto

definition sample_row :: "string \<Rightarrow> timestamp \<Rightarrow> decimal \<Rightarrow> market_data_row" where
  "sample_row s t p =
     \<lparr>md_symbol = s, md_interval = ''1d'', md_timestamp = t, md_open_price = p, md_high_price = p + 1,
      md_low_price = p - 1, md_close_price = p, md_adjusted_close = None, md_volume = 7\<rparr>"

definition sample_rows :: "market_data_row list" where
  "sample_rows = [sample_row ''SPY'' 2 101, sample_row ''QQQ'' 1 50, sample_row ''SPY'' 1 100]"

definition market_session :: "market_data_row list \<Rightarrow> market_data_row session" where
  \<comment> \<open>a session without faults\<close>
  "market_session rows =
     \<lparr>table_rows = rows, fault_schedule = [], needs_rollback = False, attributes_expired = False\<rparr>"

lemma market_session_simps [simp]: "table_rows (market_session rows) = rows" "healthy (market_session rows)"
  by (simp_all add: market_session_def healthy_def)

theorem load_market_bars_ok_witness:
  "\<exists>bars. load_market_bars ''SPY'' ''1d'' (market_session sample_rows) = (Inr bars, market_session sample_rows) \<and>
     valid_bars bars \<and> map bar_timestamp bars = [1, 2]"
proof -
  let ?bars = "stored_bars sample_rows ''SPY'' ''1d''"
  have ok: "list_all market_data_constraints sample_rows" "distinct (map market_data_pkey sample_rows)"
    by code_simp+
  have run: "load_market_bars ''SPY'' ''1d'' (market_session sample_rows) = (Inr ?bars, market_session sample_rows)"
    by (simp add: load_market_bars_def healthy_simps)
  have "map bar_timestamp ?bars = [1, 2]"
    by code_simp
  then show ?thesis
    using load_market_bars_ok[OF run] ok run by simp
qed

end
