(* ===== verification/Engine.thy ===== *)
theory Engine
  imports Market_Models
begin

text \<open>
  The long-only execution engine (\<open>app/backtesting/engine.py\<close>). The loop variables of
  \<open>execute_long_only_signals\<close> are the record \<open>engine_state\<close>; each helper of the file is a
  definition over it, and a Python exception is the \<open>Inl\<close> branch of the result.
\<close>

record engine_state =
  cash :: decimal
  quantity :: int
  entry_price :: "decimal option"
  entry_timestamp :: "timestamp option"
  entry_signal_timestamp :: "timestamp option"
  entry_bar_index :: "nat option"
  stop_price :: "decimal option"
  take_profit_price :: "decimal option"
  completed_trades :: "completed_trade list"
  equity_curve :: "equity_point list"
  ignored_signals :: "signal list"

definition validate_risk_control :: "decimal option \<Rightarrow> string \<Rightarrow> unit result" where
  "validate_risk_control v field_name =
     (case v of None \<Rightarrow> Inr ()
      | Some x \<Rightarrow> raise_if (x \<le> 0) (ValueError (field_name @ '' must be finite and positive'')))"

definition group_signals :: "signal list \<Rightarrow> timestamp \<Rightarrow> signal list" where
  \<comment> \<open>\<open>signals_by_timestamp\<close>, a defaultdict of lists\<close>
  "group_signals signals =
     fold (\<lambda>s m. m(sig_timestamp s := m (sig_timestamp s) @ [s])) signals (\<lambda>_. [])"

definition cleared_position :: "engine_state \<Rightarrow> engine_state" where
  "cleared_position st =
     st\<lparr>entry_price := None, entry_timestamp := None, entry_signal_timestamp := None,
        entry_bar_index := None, stop_price := None, take_profit_price := None\<rparr>"

definition ignore_signal :: "signal \<Rightarrow> engine_state \<Rightarrow> engine_state" where
  "ignore_signal s st = st\<lparr>ignored_signals := ignored_signals st @ [s]\<rparr>"

definition execute_buy :: "signal \<Rightarrow> market_bar \<Rightarrow> engine_state \<Rightarrow> engine_state result" where
  "execute_buy s bar st =
     (if 0 < quantity st then Inr (ignore_signal s st)
      else res_bind (dfloordiv (cash st) (open_price bar)) (\<lambda>shares_to_buy.
        if shares_to_buy = 0 then Inr (ignore_signal s st)
        else Inr (st\<lparr>cash := dsub (cash st) (dmul (of_int shares_to_buy) (open_price bar)),
                     quantity := shares_to_buy,
                     entry_price := Some (open_price bar),
                     entry_timestamp := Some (bar_timestamp bar),
                     entry_signal_timestamp := Some (sig_timestamp s)\<rparr>)))"

definition execute_sell ::
    "signal \<Rightarrow> market_bar \<Rightarrow> engine_state \<Rightarrow> (engine_state \<times> completed_trade option) result" where
  "execute_sell s bar st =
     (if quantity st = 0 then Inr (ignore_signal s st, None)
      else
        case (entry_price st, entry_timestamp st, entry_signal_timestamp st) of
          (Some p, Some et, Some es) \<Rightarrow>
            (let q = of_int (quantity st);
                 proceeds = dmul q (open_price bar);
                 profit_loss = dsub proceeds (dmul q p)
             in res_bind (ddiv profit_loss (dmul q p)) (\<lambda>ratio.
                  Inr (st\<lparr>cash := dadd (cash st) proceeds, quantity := 0\<rparr>,
                       Some \<lparr>t_signal_timestamp = es, t_entry_timestamp = et, t_entry_price = p,
                             t_quantity = quantity st,
                             t_exit_signal_timestamp = Some (sig_timestamp s),
                             t_exit_timestamp = bar_timestamp bar, t_exit_price = open_price bar,
                             t_profit_loss = profit_loss,
                             t_return_percentage = dmul ratio 100,
                             t_exit_reason = STRATEGY_EXIT\<rparr>)))
        | _ \<Rightarrow> Inl (RuntimeError ''open position is missing entry details''))"

definition calculate_risk_levels ::
    "decimal \<Rightarrow> decimal option \<Rightarrow> decimal option \<Rightarrow> decimal option \<times> decimal option" where
  "calculate_risk_levels price stop_loss_percent take_profit_percent =
     (map_option (\<lambda>p. dmul price (dsub 1 (dec_round (p / 100)))) stop_loss_percent,
      map_option (\<lambda>p. dmul price (dadd 1 (dec_round (p / 100)))) take_profit_percent)"

definition evaluate_opening_risk_exit ::
    "market_bar \<Rightarrow> nat \<Rightarrow> engine_state \<Rightarrow> (decimal \<times> exit_reason) option" where
  "evaluate_opening_risk_exit bar current_bar_index st =
     (case entry_bar_index st of
        None \<Rightarrow> None
      | Some k \<Rightarrow>
          if quantity st = 0 \<or> current_bar_index \<le> k then None
          else if (case stop_price st of Some sp \<Rightarrow> open_price bar \<le> sp | None \<Rightarrow> False)
            then Some (open_price bar, STOP_LOSS)
          else if (case take_profit_price st of Some tp \<Rightarrow> tp \<le> open_price bar | None \<Rightarrow> False)
            then Some (open_price bar, TAKE_PROFIT)
          else None)"

definition evaluate_intraday_risk_exit ::
    "market_bar \<Rightarrow> nat \<Rightarrow> engine_state \<Rightarrow> (decimal \<times> exit_reason) option" where
  "evaluate_intraday_risk_exit bar current_bar_index st =
     (case entry_bar_index st of
        None \<Rightarrow> None
      | Some k \<Rightarrow>
          if quantity st = 0 \<or> current_bar_index \<le> k then None
          else case stop_price st of
            Some sp \<Rightarrow>
              if low_price bar \<le> sp then Some (sp, STOP_LOSS)
              else (case take_profit_price st of
                      Some tp \<Rightarrow> if tp \<le> high_price bar then Some (tp, TAKE_PROFIT) else None
                    | None \<Rightarrow> None)
          | None \<Rightarrow>
              (case take_profit_price st of
                 Some tp \<Rightarrow> if tp \<le> high_price bar then Some (tp, TAKE_PROFIT) else None
               | None \<Rightarrow> None))"

definition close_position ::
    "market_bar \<Rightarrow> decimal \<Rightarrow> exit_reason \<Rightarrow> engine_state \<Rightarrow> (decimal \<times> completed_trade) result" where
  "close_position bar exit_price reason st =
     (if quantity st \<le> 0 then Inl (RuntimeError ''cannot close a flat position'')
      else
        case (entry_price st, entry_timestamp st, entry_signal_timestamp st) of
          (Some p, Some et, Some es) \<Rightarrow>
            (let q = of_int (quantity st);
                 proceeds = dmul q exit_price;
                 cost = dmul q p;
                 profit_loss = dsub proceeds cost
             in res_bind (ddiv profit_loss cost) (\<lambda>ratio.
                  Inr (dadd (cash st) proceeds,
                       \<lparr>t_signal_timestamp = es, t_entry_timestamp = et, t_entry_price = p,
                        t_quantity = quantity st, t_exit_signal_timestamp = None,
                        t_exit_timestamp = bar_timestamp bar, t_exit_price = exit_price,
                        t_profit_loss = profit_loss, t_return_percentage = dmul ratio 100,
                        t_exit_reason = reason\<rparr>)))
        | _ \<Rightarrow> Inl (RuntimeError ''open position is missing entry details''))"

text \<open>
  The two places of the loop that close a position on a risk exit share their body: close it,
  record the trade, go flat and clear the entry.
\<close>

definition risk_close ::
    "market_bar \<Rightarrow> decimal \<times> exit_reason \<Rightarrow> engine_state \<Rightarrow> engine_state result" where
  "risk_close bar ex st =
     res_bind (close_position bar (fst ex) (snd ex) st) (\<lambda>(cash', trade).
       Inr (cleared_position
              (st\<lparr>cash := cash', completed_trades := completed_trades st @ [trade],
                  quantity := 0\<rparr>)))"

definition process_signal ::
    "decimal option \<Rightarrow> decimal option \<Rightarrow> nat \<Rightarrow> market_bar \<Rightarrow> engine_state \<times> bool \<Rightarrow> signal \<Rightarrow>
     (engine_state \<times> bool) result" where
  \<comment> \<open>one pending signal; the flag is \<open>position_closed_at_open\<close>\<close>
  "process_signal sl tp index bar acc s =
     (let (st, at_open) = acc in
      case sig_type s of
        BUY \<Rightarrow>
          res_bind (execute_buy s bar st) (\<lambda>st'.
            case entry_price st' of
              Some p \<Rightarrow>
                if quantity st = 0 \<and> 0 < quantity st'
                then (let (sp, tpp) = calculate_risk_levels p sl tp
                      in Inr (st'\<lparr>entry_bar_index := Some index, stop_price := sp,
                                  take_profit_price := tpp\<rparr>, at_open))
                else Inr (st', at_open)
            | None \<Rightarrow> Inr (st', at_open))
      | SELL \<Rightarrow>
          res_bind (execute_sell s bar st) (\<lambda>(st', trade).
            case trade of
              None \<Rightarrow> Inr (st', at_open)
            | Some t \<Rightarrow>
                Inr (cleared_position (st'\<lparr>completed_trades := completed_trades st' @ [t]\<rparr>),
                     True)))"

definition opening_phase ::
    "decimal option \<Rightarrow> decimal option \<Rightarrow> signal list \<Rightarrow> nat \<Rightarrow> market_bar \<Rightarrow> engine_state \<Rightarrow>
     (engine_state \<times> bool) result" where
  "opening_phase sl tp pending index bar st =
     (case evaluate_opening_risk_exit bar index st of
        Some ex \<Rightarrow>
          res_bind (risk_close bar ex st) (\<lambda>st'.
            Inr (st'\<lparr>ignored_signals := ignored_signals st' @ pending\<rparr>, True))
      | None \<Rightarrow> res_fold (process_signal sl tp index bar) (st, False) pending)"

definition intraday_phase :: "nat \<Rightarrow> market_bar \<Rightarrow> engine_state \<times> bool \<Rightarrow> engine_state result" where
  "intraday_phase index bar acc =
     (let (st, at_open) = acc in
      if 0 < quantity st \<and> \<not> at_open then
        (case evaluate_intraday_risk_exit bar index st of
           Some ex \<Rightarrow> risk_close bar ex st
         | None \<Rightarrow> Inr st)
      else Inr st)"

definition mark_to_close :: "market_bar \<Rightarrow> engine_state \<Rightarrow> engine_state" where
  "mark_to_close bar st =
     st\<lparr>equity_curve := equity_curve st @
          [\<lparr>ep_timestamp = bar_timestamp bar,
            equity = dadd (cash st) (dmul (of_int (quantity st)) (close_price bar))\<rparr>]\<rparr>"

definition process_bar ::
    "market_bar list \<Rightarrow> (timestamp \<Rightarrow> signal list) \<Rightarrow> decimal option \<Rightarrow> decimal option \<Rightarrow>
     engine_state \<Rightarrow> nat \<Rightarrow> engine_state result" where
  "process_bar bars by_timestamp sl tp st index =
     (let bar = bars ! index in
      res_bind
        (if 0 < index
         then opening_phase sl tp (by_timestamp (bar_timestamp (bars ! (index - 1)))) index bar st
         else Inr (st, False)) (\<lambda>acc.
      res_bind (intraday_phase index bar acc) (\<lambda>st'.
      Inr (mark_to_close bar st'))))"

definition initial_state :: "decimal \<Rightarrow> engine_state" where
  "initial_state starting_cash =
     \<lparr>cash = starting_cash, quantity = 0, entry_price = None, entry_timestamp = None,
      entry_signal_timestamp = None, entry_bar_index = None, stop_price = None,
      take_profit_price = None, completed_trades = [], equity_curve = [], ignored_signals = []\<rparr>"

definition run_bars ::
    "market_bar list \<Rightarrow> signal list \<Rightarrow> decimal \<Rightarrow> decimal option \<Rightarrow> decimal option \<Rightarrow>
     engine_state result" where
  "run_bars bars signals starting_cash sl tp =
     res_fold (process_bar bars (group_signals signals) sl tp) (initial_state starting_cash)
       [0..<length bars]"

definition final_liquidation :: "market_bar \<Rightarrow> engine_state \<Rightarrow> engine_state result" where
  "final_liquidation final_bar st =
     (if 0 < quantity st then
        res_bind (close_position final_bar (close_price final_bar) FINAL_LIQUIDATION st)
          (\<lambda>(cash', trade).
             Inr (st\<lparr>cash := cash', completed_trades := completed_trades st @ [trade]\<rparr>))
      else Inr st)"

definition execute_long_only_signals ::
    "market_bar list \<Rightarrow> signal list \<Rightarrow> decimal \<Rightarrow> decimal option \<Rightarrow> decimal option \<Rightarrow>
     execution_result result" where
  "execute_long_only_signals bars signals starting_cash stop_loss_percent take_profit_percent =
     res_bind (raise_if (starting_cash \<le> 0) (ValueError ''starting_cash must be positive'')) (\<lambda>_.
     res_bind (raise_if (bars = []) (ValueError ''at least one market bar is required'')) (\<lambda>_.
     res_bind (validate_risk_control stop_loss_percent ''stop_loss_percent'') (\<lambda>_.
     res_bind (validate_risk_control take_profit_percent ''take_profit_percent'') (\<lambda>_.
     res_bind (run_bars bars signals starting_cash stop_loss_percent take_profit_percent) (\<lambda>st.
     res_bind (final_liquidation (last bars) st) (\<lambda>st'.
     Inr \<lparr>final_portfolio_value = cash st',
          total_realized_profit_loss = dsum (map t_profit_loss (completed_trades st')),
          er_completed_trades = completed_trades st',
          er_equity_curve = equity_curve st',
          er_ignored_signals = ignored_signals st'\<rparr>))))))"

end
