(* ===== verification/Engine_Steps.thy ===== *)
theory Engine_Steps
  imports Engine
begin

text \<open>
  The engine as a state machine: inside one bar a position is opened, at_open, or a signal is
  ignored. The relation \<open>position_step\<close> states when each may happen; the refinement lemmas show
  that the loop body of \<open>execute_long_only_signals\<close> is a sequence of such steps followed by
  marking the portfolio to the close, and that the portfolio invariant holds throughout.
\<close>

datatype engine_event =
    Ignored signal
  | Opened signal
  | Closed "signal option" completed_trade

fun event_signal :: "engine_event \<Rightarrow> signal option" where
  "event_signal (Ignored s) = Some s"
| "event_signal (Opened s) = Some s"
| "event_signal (Closed sg t) = sg"

definition open_position ::
    "decimal option \<Rightarrow> decimal option \<Rightarrow> nat \<Rightarrow> market_bar \<Rightarrow> signal \<Rightarrow> int \<Rightarrow> engine_state \<Rightarrow> engine_state" where
  "open_position sl tp i bar s q st =
     st\<lparr>cash := dsub (cash st) (dmul (of_int q) (open_price bar)), quantity := q,
        entry_price := Some (open_price bar), entry_timestamp := Some (bar_timestamp bar),
        entry_signal_timestamp := Some (sig_timestamp s), entry_bar_index := Some i,
        stop_price := fst (calculate_risk_levels (open_price bar) sl tp),
        take_profit_price := snd (calculate_risk_levels (open_price bar) sl tp)\<rparr>"

definition flatten_position :: "decimal \<Rightarrow> completed_trade \<Rightarrow> engine_state \<Rightarrow> engine_state" where
  "flatten_position c t st =
     cleared_position (st\<lparr>cash := c, completed_trades := completed_trades st @ [t], quantity := 0\<rparr>)"

definition exit_justified :: "nat \<Rightarrow> market_bar \<Rightarrow> engine_state \<Rightarrow> decimal \<Rightarrow> exit_reason \<Rightarrow> bool" where
  "exit_justified i bar st price reason =
     (case reason of
        STRATEGY_EXIT \<Rightarrow> price = open_price bar
      | STOP_LOSS \<Rightarrow>
          (case (entry_bar_index st, stop_price st) of
             (Some k, Some sp) \<Rightarrow>
               k < i \<and> (price = open_price bar \<and> open_price bar \<le> sp \<or>
                        price = sp \<and> low_price bar \<le> sp)
           | _ \<Rightarrow> False)
      | TAKE_PROFIT \<Rightarrow>
          (case (entry_bar_index st, take_profit_price st) of
             (Some k, Some tp) \<Rightarrow>
               k < i \<and> (price = open_price bar \<and> tp \<le> open_price bar \<or>
                        price = tp \<and> tp \<le> high_price bar)
           | _ \<Rightarrow> False)
      | FINAL_LIQUIDATION \<Rightarrow> False)"

inductive position_step ::
    "decimal option \<Rightarrow> decimal option \<Rightarrow> nat \<Rightarrow> market_bar \<Rightarrow>
     engine_state \<Rightarrow> engine_event \<Rightarrow> engine_state \<Rightarrow> bool"
  for sl tp i bar where
  ignore: "position_step sl tp i bar st (Ignored s) (ignore_signal s st)"
| enter: "quantity st = 0 \<Longrightarrow> sig_type s = BUY \<Longrightarrow>
    dfloordiv (cash st) (open_price bar) = Inr q \<Longrightarrow> 0 < q \<Longrightarrow>
    position_step sl tp i bar st (Opened s) (open_position sl tp i bar s q st)"
| leave: "0 < quantity st \<Longrightarrow> close_position bar price reason st = Inr (c, t) \<Longrightarrow>
    exit_justified i bar st price reason \<Longrightarrow>
    (case sg of None \<Rightarrow> reason \<noteq> STRATEGY_EXIT
     | Some s \<Rightarrow> sig_type s = SELL \<and> reason = STRATEGY_EXIT) \<Longrightarrow>
    t' = t\<lparr>t_exit_signal_timestamp := map_option sig_timestamp sg\<rparr> \<Longrightarrow>
    position_step sl tp i bar st (Closed sg t') (flatten_position c t' st)"

inductive position_steps ::
    "decimal option \<Rightarrow> decimal option \<Rightarrow> nat \<Rightarrow> market_bar \<Rightarrow>
     engine_state \<Rightarrow> engine_event list \<Rightarrow> engine_state \<Rightarrow> bool"
  for sl tp i bar where
  none: "position_steps sl tp i bar st [] st"
| more: "position_step sl tp i bar st e st' \<Longrightarrow> position_steps sl tp i bar st' es st'' \<Longrightarrow>
    position_steps sl tp i bar st (e # es) st''"

inductive_cases ignored_stepE: "position_step sl tp i bar st (Ignored s) st'"
inductive_cases opened_stepE: "position_step sl tp i bar st (Opened s) st'"
inductive_cases closed_stepE: "position_step sl tp i bar st (Closed sg t) st'"
inductive_simps position_steps_Nil [simp]: "position_steps sl tp i bar st [] st'"
inductive_simps position_steps_Cons: "position_steps sl tp i bar st (e # es) st'"

subsection \<open>The portfolio invariant\<close>

definition risk_control_ok :: "decimal option \<Rightarrow> bool" where
  "risk_control_ok v \<longleftrightarrow> (case v of None \<Rightarrow> True | Some x \<Rightarrow> 0 < x)"

definition is_flat :: "engine_state \<Rightarrow> bool" where
  "is_flat st \<longleftrightarrow>
     quantity st = 0 \<and> entry_price st = None \<and> entry_timestamp st = None \<and>
     entry_signal_timestamp st = None \<and> entry_bar_index st = None \<and>
     stop_price st = None \<and> take_profit_price st = None"

definition is_long ::
    "decimal option \<Rightarrow> decimal option \<Rightarrow> nat \<Rightarrow> engine_state \<Rightarrow> bool" where
  "is_long sl tp i st \<longleftrightarrow>
     0 < quantity st \<and> entry_timestamp st \<noteq> None \<and> entry_signal_timestamp st \<noteq> None \<and>
     (case (entry_price st, entry_bar_index st) of
        (Some p, Some k) \<Rightarrow>
          0 < p \<and> representable p \<and> k < i \<and>
          (stop_price st, take_profit_price st) = calculate_risk_levels p sl tp
      | _ \<Rightarrow> False)"

definition portfolio_inv ::
    "decimal option \<Rightarrow> decimal option \<Rightarrow> nat \<Rightarrow> engine_state \<Rightarrow> bool" where
  "portfolio_inv sl tp i st \<longleftrightarrow>
     representable (cash st) \<and>
     (is_flat st \<and> 0 < cash st \<or> is_long sl tp i st \<and> 0 \<le> cash st)"

lemma validate_risk_control_iff: "validate_risk_control v nm = Inr u \<longleftrightarrow> risk_control_ok v"
  by (auto simp: validate_risk_control_def risk_control_ok_def split: option.splits)

lemma portfolio_inv_mono: "portfolio_inv sl tp i st \<Longrightarrow> i \<le> j \<Longrightarrow> portfolio_inv sl tp j st"
  by (auto simp: portfolio_inv_def is_long_def split: option.splits)

lemma portfolio_inv_quantity: "portfolio_inv sl tp i st \<Longrightarrow> 0 \<le> quantity st"
  by (auto simp: portfolio_inv_def is_flat_def is_long_def)

lemma portfolio_inv_flat: "portfolio_inv sl tp i st \<Longrightarrow> quantity st = 0 \<Longrightarrow> is_flat st \<and> 0 < cash st"
  by (auto simp: portfolio_inv_def is_long_def)

lemma portfolio_inv_long: "portfolio_inv sl tp i st \<Longrightarrow> 0 < quantity st \<Longrightarrow> is_long sl tp i st \<and> 0 \<le> cash st"
  by (auto simp: portfolio_inv_def is_flat_def)

lemma portfolio_inv_initial:
  "0 < c \<Longrightarrow> representable c \<Longrightarrow> portfolio_inv sl tp i (initial_state c)"
  by (simp add: portfolio_inv_def is_flat_def initial_state_def)

lemma portfolio_inv_ignore [simp]:
  "portfolio_inv sl tp i (ignore_signal s st) = portfolio_inv sl tp i st"
  by (simp add: portfolio_inv_def is_flat_def is_long_def ignore_signal_def cong: option.case_cong)

lemma portfolio_inv_mark [simp]:
  "portfolio_inv sl tp i (mark_to_close bar st) = portfolio_inv sl tp i st"
  by (simp add: portfolio_inv_def is_flat_def is_long_def mark_to_close_def cong: option.case_cong)

lemma portfolio_inv_open:
  assumes "portfolio_inv sl tp (Suc i) st" "valid_bar bar" "quantity st = 0"
    and "dfloordiv (cash st) (open_price bar) = Inr q" "0 < q"
  shows "portfolio_inv sl tp (Suc i) (open_position sl tp i bar s q st)"
proof -
  have c: "0 < cash st" "representable (cash st)"
    using assms by (auto simp: portfolio_inv_def is_long_def)
  then have "of_int q * open_price bar \<le> cash st"
    using dfloordiv_Inr_nonneg(2)[OF assms(4)] valid_bar_pos(1)[OF assms(2)] by simp
  from dc.rnd_diff_nonneg[OF this c(2)]
  have "0 \<le> dsub (cash st) (dmul (of_int q) (open_price bar))"
    by (simp add: dsub_def dmul_def)
  then show ?thesis
    using assms valid_bar_pos(1) valid_bar_representable(1)
    by (simp add: portfolio_inv_def is_long_def open_position_def)
qed

lemma take_profit_level_pos:
  "0 < p \<Longrightarrow> risk_control_ok tp \<Longrightarrow> snd (calculate_risk_levels p sl tp) = Some x \<Longrightarrow> 0 < x"
  by (auto simp: calculate_risk_levels_def risk_control_ok_def
      intro!: dmul_pos dadd_pos_left dc.rnd_nonneg)

lemma exit_price_pos:
  assumes "exit_justified i bar st price reason" "valid_bar bar" "is_long sl tp j st"
    and "risk_control_ok tp"
  shows "0 < price"
proof -
  obtain p where p: "0 < p" "(stop_price st, take_profit_price st) = calculate_risk_levels p sl tp"
    using assms(3) by (auto simp: is_long_def split: option.splits)
  have "0 < x" if "take_profit_price st = Some x" for x
    using take_profit_level_pos[of p tp sl x] p assms(4) that by (metis snd_conv)
  then show ?thesis
    using assms(1) valid_bar_pos[OF assms(2)]
    by (auto simp: exit_justified_def split: exit_reason.splits option.splits)
qed

lemma close_position_Inr_iff:
  "close_position bar x r st = Inr (c, t) \<longleftrightarrow>
     0 < quantity st \<and>
     (\<exists>p et es. entry_price st = Some p \<and> entry_timestamp st = Some et \<and>
        entry_signal_timestamp st = Some es \<and> dmul (of_int (quantity st)) p \<noteq> 0 \<and>
        c = dadd (cash st) (dmul (of_int (quantity st)) x) \<and>
        t = \<lparr>t_signal_timestamp = es, t_entry_timestamp = et, t_entry_price = p,
             t_quantity = quantity st, t_exit_signal_timestamp = None,
             t_exit_timestamp = bar_timestamp bar, t_exit_price = x,
             t_profit_loss = dsub (dmul (of_int (quantity st)) x) (dmul (of_int (quantity st)) p),
             t_return_percentage =
               dmul (dec_round (dsub (dmul (of_int (quantity st)) x) (dmul (of_int (quantity st)) p) /
                      dmul (of_int (quantity st)) p)) 100,
             t_exit_reason = r\<rparr>)"
  by (auto simp: close_position_def Let_def result_simps split: option.splits)

lemma portfolio_inv_flatten:
  assumes "0 < c" "representable c"
  shows "portfolio_inv sl tp i (flatten_position c t st)"
  using assms by (simp add: portfolio_inv_def is_flat_def flatten_position_def cleared_position_def)

lemma portfolio_inv_step:
  assumes "position_step sl tp i bar st e st'" "portfolio_inv sl tp (Suc i) st"
    and "valid_bar bar" "risk_control_ok tp"
  shows "portfolio_inv sl tp (Suc i) st'"
  using assms
proof (induction rule: position_step.induct)
  case (ignore st s)
  then show ?case by simp
next
  case (enter st s q)
  then show ?case by (simp add: portfolio_inv_open)
next
  case (leave st price reason c t sg t')
  then have long: "is_long sl tp (Suc i) st" "0 \<le> cash st"
    by (auto dest: portfolio_inv_long)
  have "0 < price"
    using exit_price_pos long(1) leave by blast
  then have "0 < c" "representable c"
    using leave long(2) by (auto simp: close_position_Inr_iff intro!: dec_intros)
  then show ?case by (rule portfolio_inv_flatten)
qed

lemma portfolio_inv_steps:
  assumes "position_steps sl tp i bar st es st'" "portfolio_inv sl tp (Suc i) st"
    and "valid_bar bar" "risk_control_ok tp"
  shows "portfolio_inv sl tp (Suc i) st'"
  using assms by (induction rule: position_steps.induct) (auto intro: portfolio_inv_step)

subsection \<open>The loop body refines the step relation\<close>

lemma execute_sell_close:
  "0 < quantity st \<Longrightarrow>
   execute_sell s bar st =
     res_bind (close_position bar (open_price bar) STRATEGY_EXIT st) (\<lambda>(c, t).
       Inr (st\<lparr>cash := c, quantity := 0\<rparr>,
            Some (t\<lparr>t_exit_signal_timestamp := Some (sig_timestamp s)\<rparr>)))"
  by (auto simp: execute_sell_def close_position_def Let_def res_bind_assoc split: option.splits)

lemma risk_close_flatten:
  "risk_close bar ex st =
     res_bind (close_position bar (fst ex) (snd ex) st) (\<lambda>(c, t). Inr (flatten_position c t st))"
  by (simp add: risk_close_def flatten_position_def)

lemma process_sell:
  assumes "0 < quantity st" "sig_type s = SELL"
  shows "process_signal sl tp i bar (st, at_open) s =
     res_bind (close_position bar (open_price bar) STRATEGY_EXIT st) (\<lambda>(c, t).
       Inr (flatten_position c (t\<lparr>t_exit_signal_timestamp := Some (sig_timestamp s)\<rparr>) st, True))"
  using assms
  by (cases "close_position bar (open_price bar) STRATEGY_EXIT st")
    (auto simp: process_signal_def execute_sell_close flatten_position_def cleared_position_def)

lemma process_buy:
  assumes "quantity st = 0" "sig_type s = BUY" "is_flat st" "0 \<le> cash st" "valid_bar bar"
  shows "process_signal sl tp i bar (st, at_open) s =
     res_bind (dfloordiv (cash st) (open_price bar)) (\<lambda>q.
       Inr (if q = 0 then ignore_signal s st else open_position sl tp i bar s q st, at_open))"
proof (cases "dfloordiv (cash st) (open_price bar)")
  case (Inl e)
  then show ?thesis
    using assms by (simp add: process_signal_def execute_buy_def)
next
  case (Inr q)
  then have "0 \<le> q"
    using dfloordiv_Inr_nonneg(1) assms valid_bar_pos(1) by blast
  then show ?thesis
    using assms Inr
    by (auto simp: process_signal_def execute_buy_def ignore_signal_def is_flat_def
        open_position_def Let_def split: prod.splits)
qed

lemma process_ignored:
  assumes "0 < quantity st \<and> sig_type s = BUY \<or> quantity st = 0 \<and> sig_type s = SELL"
  shows "process_signal sl tp i bar (st, at_open) s = Inr (ignore_signal s st, at_open)"
  using assms
  by (auto simp: process_signal_def execute_buy_def execute_sell_def ignore_signal_def
      split: option.splits)

lemma process_signal_step:
  assumes run: "process_signal sl tp i bar (st, at_open) s = Inr (st', at_open')"
    and inv: "portfolio_inv sl tp (Suc i) st" and bar: "valid_bar bar"
  shows "\<exists>e. position_step sl tp i bar st e st' \<and> event_signal e = Some s"
proof (cases "0 < quantity st")
  case True
  show ?thesis
  proof (cases "sig_type s")
    case BUY
    then show ?thesis
      using run True by (auto simp: process_ignored intro: position_step.ignore)
  next
    case SELL
    then obtain c t where ct: "close_position bar (open_price bar) STRATEGY_EXIT st = Inr (c, t)"
      and st': "st' = flatten_position c (t\<lparr>t_exit_signal_timestamp := Some (sig_timestamp s)\<rparr>) st"
      using run True by (auto simp: process_sell result_simps)
    have "position_step sl tp i bar st
        (Closed (Some s) (t\<lparr>t_exit_signal_timestamp := Some (sig_timestamp s)\<rparr>)) st'"
      unfolding st' using True SELL
      by (intro position_step.leave[OF _ ct]) (simp_all add: exit_justified_def)
    then show ?thesis
      by (intro exI[of _ "Closed (Some s) (t\<lparr>t_exit_signal_timestamp := Some (sig_timestamp s)\<rparr>)"]) simp
  qed
next
  case False
  then have q0: "quantity st = 0" and flat: "is_flat st" "0 < cash st"
    using inv portfolio_inv_quantity portfolio_inv_flat by (fastforce, fastforce, fastforce)
  show ?thesis
  proof (cases "sig_type s")
    case SELL
    then show ?thesis
      using run q0 by (auto simp: process_ignored intro: position_step.ignore)
  next
    case BUY
    then obtain q where q: "dfloordiv (cash st) (open_price bar) = Inr q"
      and st': "st' = (if q = 0 then ignore_signal s st else open_position sl tp i bar s q st)"
      using run flat q0 bar by (auto simp: process_buy result_simps)
    have "0 \<le> q"
      using dfloordiv_Inr_nonneg(1)[OF q] flat valid_bar_pos(1)[OF bar] by simp
    then consider "q = 0" | "0 < q"
      by linarith
    then show ?thesis
    proof cases
      case 1
      then show ?thesis
        using st' by (auto intro: position_step.ignore)
    next
      case 2
      then have "position_step sl tp i bar st (Opened s) st'"
        using st' q q0 BUY by (auto intro: position_step.enter)
      then show ?thesis
        by (intro exI[of _ "Opened s"]) simp
    qed
  qed
qed

lemma position_steps_append:
  "position_steps sl tp i bar st es st' \<Longrightarrow> position_steps sl tp i bar st' es' st'' \<Longrightarrow>
   position_steps sl tp i bar st (es @ es') st''"
  by (induction rule: position_steps.induct) (auto intro: position_steps.more)

lemma process_signals_steps:
  assumes "res_fold (process_signal sl tp i bar) (st, at_open) pending = Inr (st', at_open')"
    and "portfolio_inv sl tp (Suc i) st" "valid_bar bar" "risk_control_ok tp"
  shows "\<exists>es. position_steps sl tp i bar st es st' \<and> map event_signal es = map Some pending"
  using assms
proof (induction pending arbitrary: st at_open)
  case Nil
  then show ?case by (auto intro!: exI[of _ "[]"] position_steps.none)
next
  case (Cons s pending)
  then obtain st1 c1 where s1: "process_signal sl tp i bar (st, at_open) s = Inr (st1, c1)"
    and rest: "res_fold (process_signal sl tp i bar) (st1, c1) pending = Inr (st', at_open')"
    by (auto simp: result_simps)
  obtain e where e: "position_step sl tp i bar st e st1" "event_signal e = Some s"
    using process_signal_step[OF s1] Cons.prems by blast
  have "portfolio_inv sl tp (Suc i) st1"
    using portfolio_inv_step[OF e(1)] Cons.prems by blast
  then obtain es where es: "position_steps sl tp i bar st1 es st'" "map event_signal es = map Some pending"
    using Cons.IH[OF rest] Cons.prems by blast
  then show ?case
    using e by (intro exI[of _ "e # es"]) (auto intro: position_steps.more)
qed

lemma ignore_all_steps:
  "position_steps sl tp i bar st (map Ignored pending)
     (st\<lparr>ignored_signals := ignored_signals st @ pending\<rparr>)"
proof (induction pending arbitrary: st)
  case Nil
  then show ?case by (simp add: position_steps.none)
next
  case (Cons s pending)
  have "position_steps sl tp i bar (ignore_signal s st) (map Ignored pending)
      (st\<lparr>ignored_signals := ignored_signals st @ s # pending\<rparr>)"
    using Cons.IH[of "ignore_signal s st"] by (simp add: ignore_signal_def)
  then show ?case
    by (auto intro: position_steps.more position_step.ignore)
qed

lemma opening_exit_justified:
  "evaluate_opening_risk_exit bar i st = Some (x, r) \<Longrightarrow>
   exit_justified i bar st x r \<and> r \<noteq> STRATEGY_EXIT \<and> quantity st \<noteq> 0"
  by (auto simp: evaluate_opening_risk_exit_def exit_justified_def split: option.splits if_splits)

lemma intraday_exit_justified:
  "evaluate_intraday_risk_exit bar i st = Some (x, r) \<Longrightarrow>
   exit_justified i bar st x r \<and> r \<noteq> STRATEGY_EXIT \<and> quantity st \<noteq> 0"
  by (auto simp: evaluate_intraday_risk_exit_def exit_justified_def split: option.splits if_splits)

lemma risk_close_step:
  assumes "risk_close bar (x, r) st = Inr st'" "exit_justified i bar st x r" "r \<noteq> STRATEGY_EXIT"
  shows "\<exists>t. position_step sl tp i bar st (Closed None t) st'"
proof -
  obtain c t where ct: "close_position bar x r st = Inr (c, t)" "st' = flatten_position c t st"
    using assms by (auto simp: risk_close_flatten result_simps)
  have "t_exit_signal_timestamp t = None" "0 < quantity st"
    using ct by (auto simp: close_position_Inr_iff)
  then have "t = t\<lparr>t_exit_signal_timestamp := map_option sig_timestamp None\<rparr>"
    by simp
  then show ?thesis
    using position_step.leave[OF \<open>0 < quantity st\<close> ct(1) assms(2), of None t] assms(3) ct(2) by auto
qed

lemma opening_phase_steps:
  assumes run: "opening_phase sl tp pending i bar st = Inr (st', at_open)"
    and inv: "portfolio_inv sl tp (Suc i) st" "valid_bar bar" "risk_control_ok tp"
  shows "\<exists>es. position_steps sl tp i bar st es st' \<and> List.map_filter event_signal es = pending"
proof (cases "evaluate_opening_risk_exit bar i st")
  case None
  then obtain es where "position_steps sl tp i bar st es st'" "map event_signal es = map Some pending"
    using run inv process_signals_steps[of sl tp i bar st False pending st' at_open]
    by (auto simp: opening_phase_def)
  moreover from this(2) have "List.map_filter event_signal es = pending"
    by (induction es arbitrary: pending) (auto simp: List.map_filter_simps)
  ultimately show ?thesis by blast
next
  case (Some ex)
  obtain x r where ex: "ex = (x, r)"
    by (cases ex)
  obtain st1 where st1: "risk_close bar (x, r) st = Inr st1"
    and st': "st' = st1\<lparr>ignored_signals := ignored_signals st1 @ pending\<rparr>"
    using run Some ex by (auto simp: opening_phase_def result_simps)
  obtain t where "position_step sl tp i bar st (Closed None t) st1"
    using risk_close_step[OF st1] opening_exit_justified Some ex by blast
  then have "position_steps sl tp i bar st (Closed None t # map Ignored pending) st'"
    unfolding st' by (rule position_steps.more) (rule ignore_all_steps)
  moreover have "List.map_filter event_signal (Closed None t # map Ignored pending) = pending"
    by (induction pending) (simp_all add: List.map_filter_simps)
  ultimately show ?thesis by blast
qed

lemma intraday_phase_steps:
  assumes "intraday_phase i bar (st, at_open) = Inr st'"
  shows "\<exists>es. position_steps sl tp i bar st es st' \<and> List.map_filter event_signal es = []"
proof (cases "0 < quantity st \<and> \<not> at_open \<and> evaluate_intraday_risk_exit bar i st \<noteq> None")
  case True
  then obtain x r where ex: "evaluate_intraday_risk_exit bar i st = Some (x, r)"
    by auto
  then have "risk_close bar (x, r) st = Inr st'"
    using assms True by (simp add: intraday_phase_def)
  then obtain t where "position_step sl tp i bar st (Closed None t) st'"
    using risk_close_step intraday_exit_justified[OF ex] by blast
  then show ?thesis
    by (intro exI[of _ "[Closed None t]"])
      (auto simp: List.map_filter_simps position_steps_Cons)
next
  case False
  then have "st' = st"
    using assms by (auto simp: intraday_phase_def split: if_splits option.splits)
  then show ?thesis
    by (auto intro!: exI[of _ "[]"] simp: List.map_filter_simps)
qed

definition pending_signals :: "market_bar list \<Rightarrow> (timestamp \<Rightarrow> signal list) \<Rightarrow> nat \<Rightarrow> signal list" where
  "pending_signals bars g i = (if 0 < i then g (bar_timestamp (bars ! (i - 1))) else [])"

lemma process_bar_steps:
  assumes run: "process_bar bars g sl tp st i = Inr st'"
    and inv: "portfolio_inv sl tp i st" "valid_bar (bars ! i)" "risk_control_ok tp"
  shows "\<exists>es st''. position_steps sl tp i (bars ! i) st es st'' \<and>
           st' = mark_to_close (bars ! i) st'' \<and>
           List.map_filter event_signal es = pending_signals bars g i"
proof -
  let ?bar = "bars ! i"
  have inv': "portfolio_inv sl tp (Suc i) st"
    using inv(1) by (rule portfolio_inv_mono) simp
  obtain st1 c st2 where
    st1: "(if 0 < i then opening_phase sl tp (g (bar_timestamp (bars ! (i - 1)))) i ?bar st
           else Inr (st, False)) = Inr (st1, c)"
    and st2: "intraday_phase i ?bar (st1, c) = Inr st2" and st': "st' = mark_to_close ?bar st2"
    using run by (auto simp: process_bar_def Let_def result_simps)
  obtain es1 where es1: "position_steps sl tp i ?bar st es1 st1"
    "List.map_filter event_signal es1 = pending_signals bars g i"
  proof (cases "0 < i")
    case True
    then show thesis
      using opening_phase_steps[of sl tp _ i ?bar st st1 c] st1 inv inv' that
      by (auto simp: pending_signals_def)
  next
    case False
    then show thesis
      using st1 that[of "[]"] by (auto simp: pending_signals_def List.map_filter_simps)
  qed
  obtain es2 where "position_steps sl tp i ?bar st1 es2 st2" "List.map_filter event_signal es2 = []"
    using intraday_phase_steps[OF st2] by blast
  then show ?thesis
    using es1 st' position_steps_append
    by (intro exI[of _ "es1 @ es2"] exI[of _ st2]) (auto simp: List.map_filter_def)
qed

end
