(* ===== verification/Engine_Sample.thy ===== *)
theory Engine_Sample
  imports Engine
begin

text \<open>
  A concrete backtest: six daily bars on which the engine completes one trade by a strategy
  exit, one by the stop loss and one by the final liquidation, and ignores one signal. It is the
  input at which the theorems on the engine are applied.
\<close>

definition sample_bar :: "timestamp \<Rightarrow> decimal \<Rightarrow> decimal \<Rightarrow> decimal \<Rightarrow> decimal \<Rightarrow> market_bar" where
  "sample_bar t op hi lo cl =
     \<lparr>bar_timestamp = t, open_price = op, high_price = hi, low_price = lo, close_price = cl, volume = 1\<rparr>"

definition sample_bars :: "market_bar list" where
  "sample_bars =
     [sample_bar 1 100 101 99 100, sample_bar 2 101 104 100 103, sample_bar 3 103 104 101 102,
      sample_bar 4 100 102 98 99, sample_bar 5 99 100 90 92, sample_bar 6 92 95 91 94]"

definition sample_signals :: "signal list" where
  "sample_signals =
     [\<lparr>sig_timestamp = 1, sig_type = BUY\<rparr>, \<lparr>sig_timestamp = 2, sig_type = SELL\<rparr>,
      \<lparr>sig_timestamp = 2, sig_type = SELL\<rparr>, \<lparr>sig_timestamp = 3, sig_type = BUY\<rparr>,
      \<lparr>sig_timestamp = 5, sig_type = BUY\<rparr>]"

definition sample_stop_trade :: completed_trade where
  "sample_stop_trade =
     \<lparr>t_signal_timestamp = 3, t_entry_timestamp = 4, t_entry_price = 100, t_quantity = 101,
      t_exit_signal_timestamp = None, t_exit_timestamp = 5, t_exit_price = 95,
      t_profit_loss = - 505, t_return_percentage = - 5, t_exit_reason = STOP_LOSS\<rparr>"

definition sample_trades :: "completed_trade list" where
  "sample_trades =
     [\<lparr>t_signal_timestamp = 1, t_entry_timestamp = 2, t_entry_price = 101, t_quantity = 99,
       t_exit_signal_timestamp = Some 2, t_exit_timestamp = 3, t_exit_price = 103,
       t_profit_loss = 198,
       t_return_percentage = 99009900990099009900990099 / 50000000000000000000000000,
       t_exit_reason = STRATEGY_EXIT\<rparr>,
      sample_stop_trade,
      \<lparr>t_signal_timestamp = 5, t_entry_timestamp = 6, t_entry_price = 92, t_quantity = 105,
       t_exit_signal_timestamp = None, t_exit_timestamp = 6, t_exit_price = 94,
       t_profit_loss = 210,
       t_return_percentage = 2173913043478260869565217391 / 1000000000000000000000000000,
       t_exit_reason = FINAL_LIQUIDATION\<rparr>]"

definition sample_result :: execution_result where
  "sample_result =
     \<lparr>final_portfolio_value = 9903, total_realized_profit_loss = - 97,
      er_completed_trades = sample_trades,
      er_equity_curve =
        [\<lparr>ep_timestamp = 1, equity = 10000\<rparr>, \<lparr>ep_timestamp = 2, equity = 10198\<rparr>,
         \<lparr>ep_timestamp = 3, equity = 10198\<rparr>, \<lparr>ep_timestamp = 4, equity = 10097\<rparr>,
         \<lparr>ep_timestamp = 5, equity = 9693\<rparr>, \<lparr>ep_timestamp = 6, equity = 9903\<rparr>],
      er_ignored_signals = [\<lparr>sig_timestamp = 2, sig_type = SELL\<rparr>]\<rparr>"

lemma sample_run:
  "execute_long_only_signals sample_bars sample_signals 10000 (Some 5) (Some 20) = Inr sample_result"
  by code_simp

lemma sample_bars_valid: "valid_bars sample_bars"
  by code_simp

lemma sample_cash_representable: "representable 10000"
  by code_simp

lemma sample_bars_distinct: "distinct (map bar_timestamp sample_bars)"
  by code_simp

text \<open>A run over two bars exactly one year of 365.25 days apart.\<close>

definition yearly_bars :: "market_bar list" where
  "yearly_bars =
     [sample_bar 0 100 101 99 100, sample_bar 31557600000000 100 120 90 110]"

definition yearly_result :: execution_result where
  "yearly_result =
     \<lparr>final_portfolio_value = 1100, total_realized_profit_loss = 100,
      er_completed_trades =
        [\<lparr>t_signal_timestamp = 0, t_entry_timestamp = 31557600000000, t_entry_price = 100,
          t_quantity = 10, t_exit_signal_timestamp = None, t_exit_timestamp = 31557600000000,
          t_exit_price = 110, t_profit_loss = 100, t_return_percentage = 10,
          t_exit_reason = FINAL_LIQUIDATION\<rparr>],
      er_equity_curve = [\<lparr>ep_timestamp = 0, equity = 1000\<rparr>,
                         \<lparr>ep_timestamp = 31557600000000, equity = 1100\<rparr>],
      er_ignored_signals = []\<rparr>"

lemma yearly_run:
  "execute_long_only_signals yearly_bars [\<lparr>sig_timestamp = 0, sig_type = BUY\<rparr>] 1000 None None =
     Inr yearly_result"
  by code_simp

lemma yearly_bars_valid: "valid_bars yearly_bars"
  by code_simp

lemma yearly_cash_representable: "representable 1000"
  by code_simp

text \<open>A position too large for the precision: the share count needs more than 28 digits.\<close>

definition overflow_bars :: "market_bar list" where
  "overflow_bars = [sample_bar 1 2 2 2 2, sample_bar 2 2 2 2 2]"

definition overflow_signals :: "signal list" where
  "overflow_signals = [\<lparr>sig_timestamp = 1, sig_type = BUY\<rparr>]"

lemma overflow_run:
  "execute_long_only_signals overflow_bars overflow_signals (10 ^ 40) None None = Inl InvalidOperation"
  by code_simp

lemma overflow_bars_valid: "valid_bars overflow_bars"
  by code_simp

lemma overflow_cash_representable: "representable (10 ^ 40)"
  by code_simp

end
