(* ===== verification/Engine_Safety.thy ===== *)
theory Engine_Safety
  imports Engine_Steps Engine_Sample
begin

text \<open>
  Safety of the execution engine: the exceptions it can raise, the portfolio invariant over the
  whole loop (no leverage, positive equity), the shape of the equity curve, and the facts every
  completed trade satisfies.
\<close>

subsection \<open>The internal consistency checks never fire\<close>

definition consistent :: "engine_state \<Rightarrow> bool" where
  "consistent st \<longleftrightarrow>
     (quantity st \<noteq> 0 \<longrightarrow>
        entry_price st \<noteq> None \<and> entry_timestamp st \<noteq> None \<and> entry_signal_timestamp st \<noteq> None) \<and>
     (entry_bar_index st \<noteq> None \<longrightarrow> 0 < quantity st)"

fun is_runtime_error :: "py_error \<Rightarrow> bool" where
  "is_runtime_error (RuntimeError m) = True"
| "is_runtime_error _ = False"

lemma consistent_initial: "consistent (initial_state c)"
  by (simp add: consistent_def initial_state_def)

lemma consistent_frame [simp]:
  "consistent (ignore_signal s st) = consistent st"
  "consistent (mark_to_close bar st) = consistent st"
  "consistent (st\<lparr>ignored_signals := xs\<rparr>) = consistent st"
  by (simp_all add: consistent_def ignore_signal_def mark_to_close_def)

lemma consistent_flatten [simp]: "consistent (flatten_position c t st)"
  by (simp add: consistent_def flatten_position_def cleared_position_def)

lemma dfloordiv_not_runtime: "dfloordiv a b = Inl e \<Longrightarrow> \<not> is_runtime_error e"
  using dfloordiv_error by fastforce

lemma ddiv_not_runtime: "ddiv a b = Inl e \<Longrightarrow> \<not> is_runtime_error e"
  by (auto simp: ddiv_def split: if_splits)

lemma close_position_error:
  "consistent st \<Longrightarrow> 0 < quantity st \<Longrightarrow> close_position bar x r st = Inl e \<Longrightarrow> \<not> is_runtime_error e"
  by (auto simp: close_position_def consistent_def Let_def result_simps split: option.splits if_splits)

lemma execute_sell_error:
  "consistent st \<Longrightarrow> execute_sell s bar st = Inl e \<Longrightarrow> \<not> is_runtime_error e"
  by (auto simp: execute_sell_def consistent_def Let_def result_simps split: option.splits if_splits)

lemma execute_buy_cases:
  assumes "execute_buy s bar st = Inr st'"
  shows "st' = ignore_signal s st \<or>
    quantity st \<le> 0 \<and> quantity st' \<noteq> 0 \<and> entry_price st' = Some (open_price bar) \<and>
    entry_timestamp st' = Some (bar_timestamp bar) \<and>
    entry_signal_timestamp st' = Some (sig_timestamp s) \<and> entry_bar_index st' = entry_bar_index st"
  using assms by (auto simp: execute_buy_def result_simps split: if_splits)

lemma process_buy_cases:
  assumes "process_signal sl tp i bar (st, at_open) s = Inr (st', at_open')" "sig_type s = BUY"
  shows "\<exists>st1. execute_buy s bar st = Inr st1 \<and>
    (st' = st1 \<or> 0 < quantity st1 \<and>
       (\<exists>sp tpp. st' = st1\<lparr>entry_bar_index := Some i, stop_price := sp, take_profit_price := tpp\<rparr>))"
proof -
  obtain st1 where st1: "execute_buy s bar st = Inr st1"
    using assms by (auto simp: process_signal_def result_simps)
  then show ?thesis
    using assms
    by (intro exI[of _ st1])
      (auto simp: process_signal_def case_prod_beta Let_def split: option.splits if_splits)
qed

lemma execute_sell_cases:
  assumes "execute_sell s bar st = Inr (st', trade)"
  shows "st' = ignore_signal s st \<and> trade = None \<or> quantity st' = 0 \<and> trade \<noteq> None"
  using assms by (auto simp: execute_sell_def Let_def result_simps split: option.splits if_splits)

lemma consistent_process_signal:
  assumes "consistent st" "process_signal sl tp i bar (st, at_open) s = Inr (st', at_open')"
  shows "consistent st'"
proof (cases "sig_type s")
  case BUY
  then obtain st1 where st1: "execute_buy s bar st = Inr st1"
    and st': "st' = st1 \<or> 0 < quantity st1 \<and> (\<exists>sp tpp. st' = st1\<lparr>entry_bar_index := Some i,
      stop_price := sp, take_profit_price := tpp\<rparr>)"
    using process_buy_cases assms by blast
  have "consistent st1"
    using execute_buy_cases[OF st1] assms(1) by (auto simp: consistent_def ignore_signal_def)
  then show ?thesis
    using st' by (auto simp: consistent_def)
next
  case SELL
  then obtain st1 trade where st1: "execute_sell s bar st = Inr (st1, trade)"
    using assms by (auto simp: process_signal_def result_simps)
  then have "st' = (case trade of None \<Rightarrow> st1
      | Some t \<Rightarrow> cleared_position (st1\<lparr>completed_trades := completed_trades st1 @ [t]\<rparr>))"
    using assms SELL by (auto simp: process_signal_def split: option.splits)
  then show ?thesis
    using execute_sell_cases[OF st1] assms(1) by (auto simp: consistent_def cleared_position_def ignore_signal_def)
qed

lemma process_signal_not_runtime:
  assumes "consistent st" "process_signal sl tp i bar (st, at_open) s = Inl e"
  shows "\<not> is_runtime_error e"
proof (cases "sig_type s")
  case BUY
  then have "execute_buy s bar st = Inl e"
    using assms by (auto simp: process_signal_def result_simps Let_def split: option.splits if_splits prod.splits)
  then show ?thesis
    by (auto simp: execute_buy_def result_simps dest: dfloordiv_not_runtime split: if_splits)
next
  case SELL
  then have "execute_sell s bar st = Inl e"
    using assms by (auto simp: process_signal_def result_simps split: option.splits prod.splits)
  then show ?thesis
    using assms execute_sell_error by blast
qed

lemma consistent_signals:
  assumes "consistent st" "res_fold (process_signal sl tp i bar) (st, at_open) pending = Inr (st', at_open')"
  shows "consistent st'"
  using res_fold_invariant[OF assms(2), of "\<lambda>(st, _). consistent st"] assms(1)
    consistent_process_signal by fastforce

lemma signals_not_runtime:
  assumes "consistent st" "res_fold (process_signal sl tp i bar) (st, at_open) pending = Inl e"
  shows "\<not> is_runtime_error e"
proof -
  have "\<exists>t x. x \<in> set pending \<and> (\<lambda>(st, _). consistent st) t \<and> process_signal sl tp i bar t x = Inl e"
    using assms by (intro res_fold_no_error[OF assms(2)]) (auto intro: consistent_process_signal)
  then show ?thesis
    using process_signal_not_runtime by fastforce
qed

lemma consistent_risk_close: "risk_close bar ex st = Inr st' \<Longrightarrow> consistent st'"
  by (auto simp: risk_close_flatten result_simps)

lemma risk_close_not_runtime:
  "consistent st \<Longrightarrow> 0 < quantity st \<Longrightarrow> risk_close bar ex st = Inl e \<Longrightarrow> \<not> is_runtime_error e"
  by (auto simp: risk_close_flatten result_simps dest: close_position_error)

lemma opening_exit_long:
  "consistent st \<Longrightarrow> evaluate_opening_risk_exit bar i st = Some ex \<Longrightarrow> 0 < quantity st"
  by (auto simp: evaluate_opening_risk_exit_def consistent_def split: option.splits)

lemma consistent_process_bar:
  assumes "consistent st" "process_bar bars g sl tp st i = Inr st'"
  shows "consistent st'"
proof -
  have phase: "consistent st1" if "opening_phase sl tp pending i bar st = Inr (st1, c)" for pending bar st1 c
    using that assms(1)
    by (auto simp: opening_phase_def result_simps split: option.splits
        intro: consistent_signals consistent_risk_close)
  have intra: "consistent st2" if "intraday_phase i bar (st1, c) = Inr st2" "consistent st1" for bar st1 c st2
    using that by (auto simp: intraday_phase_def split: option.splits if_splits intro: consistent_risk_close)
  obtain st1 c st2 where "(if 0 < i then opening_phase sl tp (g (bar_timestamp (bars ! (i - 1)))) i (bars ! i) st
      else Inr (st, False)) = Inr (st1, c)" "intraday_phase i (bars ! i) (st1, c) = Inr st2"
    "st' = mark_to_close (bars ! i) st2"
    using assms by (auto simp: process_bar_def Let_def result_simps)
  then show ?thesis
    using phase intra assms(1) by (auto split: if_splits)
qed

lemma process_bar_not_runtime:
  assumes "consistent st" "process_bar bars g sl tp st i = Inl e"
  shows "\<not> is_runtime_error e"
proof -
  have phase: "\<not> is_runtime_error e" if "opening_phase sl tp pending i bar st = Inl e" for pending bar
  proof (cases "evaluate_opening_risk_exit bar i st")
    case None
    then show ?thesis
      using that assms(1) signals_not_runtime by (auto simp: opening_phase_def)
  next
    case (Some ex)
    then show ?thesis
      using that assms(1) risk_close_not_runtime opening_exit_long
      by (auto simp: opening_phase_def result_simps)
  qed
  have intra: "\<not> is_runtime_error e" if "intraday_phase i bar (st1, c) = Inl e" "consistent st1" for bar st1 c
    using that risk_close_not_runtime by (auto simp: intraday_phase_def split: if_splits option.splits)
  have step: "consistent st1" if "opening_phase sl tp pending i bar st = Inr (st1, c)" for pending bar st1 c
    using that assms(1)
    by (auto simp: opening_phase_def result_simps split: option.splits
        intro: consistent_signals consistent_risk_close)
  consider pending where "opening_phase sl tp pending i (bars ! i) st = Inl e"
    | pending st1 c where "opening_phase sl tp pending i (bars ! i) st = Inr (st1, c)"
        "intraday_phase i (bars ! i) (st1, c) = Inl e"
    | "intraday_phase i (bars ! i) (st, False) = Inl e"
    using assms(2) by (auto simp: process_bar_def Let_def result_simps split: if_splits)
  then show ?thesis
    by cases (use assms(1) phase intra step in blast)+
qed

interpretation consistent_loop:
  indexed_loop "process_bar bars g sl tp" "\<lambda>_. consistent" "length bars" for bars g sl tp
  by unfold_locales (rule consistent_process_bar)

lemma run_bars_consistent: "run_bars bars signals c sl tp = Inr st \<Longrightarrow> consistent st"
  unfolding run_bars_def using consistent_loop.loop_inv[OF order_refl consistent_initial] .

lemma run_bars_not_runtime: "run_bars bars signals c sl tp = Inl e \<Longrightarrow> \<not> is_runtime_error e"
  unfolding run_bars_def
  using consistent_loop.loop_error[OF order_refl consistent_initial] process_bar_not_runtime by metis

lemma final_liquidation_not_runtime:
  "consistent st \<Longrightarrow> final_liquidation bar st = Inl e \<Longrightarrow> \<not> is_runtime_error e"
  by (auto simp: final_liquidation_def result_simps dest: close_position_error split: if_splits)

text \<open>
  For every input whatsoever, the engine never reaches its internal consistency errors
  "open position is missing entry details" and "cannot close a flat position": no call returns a
  \<open>RuntimeError\<close>.
\<close>

lemma engine_no_internal_error:
  "execute_long_only_signals bars signals starting_cash sl tp \<noteq> Inl (RuntimeError m)"
proof
  assume "execute_long_only_signals bars signals starting_cash sl tp = Inl (RuntimeError m)"
  then consider "run_bars bars signals starting_cash sl tp = Inl (RuntimeError m)"
    | st where "run_bars bars signals starting_cash sl tp = Inr st"
        "final_liquidation (last bars) st = Inl (RuntimeError m)"
    by (auto simp: execute_long_only_signals_def validate_risk_control_def result_simps
        split: option.splits)
  then show False
    using run_bars_not_runtime final_liquidation_not_runtime run_bars_consistent
    by cases fastforce+
qed

subsection \<open>No leverage, positive equity, and the only possible exception\<close>

definition run_inv ::
    "market_bar list \<Rightarrow> decimal option \<Rightarrow> decimal option \<Rightarrow> nat \<Rightarrow> engine_state \<Rightarrow> bool" where
  "run_inv bars sl tp i st \<longleftrightarrow>
     valid_bars bars \<and> risk_control_ok tp \<and> portfolio_inv sl tp i st \<and>
     map ep_timestamp (equity_curve st) = map bar_timestamp (take i bars) \<and>
     list_all (\<lambda>p. 0 < equity p) (equity_curve st)"

lemma steps_equity_curve:
  "position_steps sl tp i bar st es st' \<Longrightarrow> equity_curve st' = equity_curve st"
proof (induction rule: position_steps.induct)
  case (more st e st' es st'')
  then show ?case
    by (auto elim!: position_step.cases
        simp: ignore_signal_def open_position_def flatten_position_def cleared_position_def)
qed simp

lemma mark_to_close_fields [engine_simps]:
  "equity_curve (mark_to_close bar st) =
     equity_curve st @ [\<lparr>ep_timestamp = bar_timestamp bar,
        equity = dadd (cash st) (dmul (of_int (quantity st)) (close_price bar))\<rparr>]"
  "cash (mark_to_close bar st) = cash st"
  "quantity (mark_to_close bar st) = quantity st"
  "completed_trades (mark_to_close bar st) = completed_trades st"
  "ignored_signals (mark_to_close bar st) = ignored_signals st"
  by (simp_all add: mark_to_close_def)

lemma marked_equity_pos:
  assumes "portfolio_inv sl tp i st" "valid_bar bar"
  shows "0 < dadd (cash st) (dmul (of_int (quantity st)) (close_price bar))"
proof (cases "quantity st = 0")
  case True
  then show ?thesis
    using portfolio_inv_flat[OF assms(1)] by (auto intro: dadd_pos_left dmul_nonneg simp: dmul_def)
next
  case False
  then have "0 < quantity st"
    using portfolio_inv_quantity[OF assms(1)] by simp
  then show ?thesis
    using portfolio_inv_long[OF assms(1)] valid_bar_pos[OF assms(2)]
    by (intro dadd_pos_right dmul_pos) simp_all
qed

lemma run_inv_process_bar:
  assumes "i < length bars" "run_inv bars sl tp i st" "process_bar bars g sl tp st i = Inr st'"
  shows "run_inv bars sl tp (Suc i) st'"
proof -
  have vb: "valid_bar (bars ! i)"
    using assms valid_bars_nth by (auto simp: run_inv_def)
  obtain es st2 where st2: "position_steps sl tp i (bars ! i) st es st2"
    "st' = mark_to_close (bars ! i) st2"
    using process_bar_steps[OF assms(3)] assms(2) vb by (auto simp: run_inv_def)
  have "portfolio_inv sl tp (Suc i) st"
    using assms(2) portfolio_inv_mono[of sl tp i st "Suc i"] by (simp add: run_inv_def)
  then have inv2: "portfolio_inv sl tp (Suc i) st2"
    using portfolio_inv_steps[OF st2(1)] assms(2) vb by (simp add: run_inv_def)
  then have "0 < dadd (cash st2) (dmul (of_int (quantity st2)) (close_price (bars ! i)))"
    using vb by (rule marked_equity_pos)
  then show ?thesis
    using assms(1,2) inv2 st2 steps_equity_curve[OF st2(1)]
    by (auto simp: run_inv_def mark_to_close_fields take_Suc_conv_app_nth)
qed

interpretation portfolio_loop:
  indexed_loop "process_bar bars g sl tp" "run_inv bars sl tp" "length bars" for bars g sl tp
  by unfold_locales (rule run_inv_process_bar)

lemma run_inv_initial:
  "valid_bars bars \<Longrightarrow> risk_control_ok tp \<Longrightarrow> 0 < c \<Longrightarrow> representable c \<Longrightarrow>
   run_inv bars sl tp 0 (initial_state c)"
  by (simp add: run_inv_def portfolio_inv_initial) (simp add: initial_state_def)

lemma run_bars_inv:
  assumes "run_bars bars signals c sl tp = Inr st" "valid_bars bars" "risk_control_ok tp"
    and "0 < c" "representable c"
  shows "run_inv bars sl tp (length bars) st"
  using portfolio_loop.loop_inv[OF order_refl run_inv_initial] assms unfolding run_bars_def by blast

lemma close_position_total:
  assumes "is_long sl tp i st"
  shows "\<exists>c t. close_position bar x r st = Inr (c, t)"
proof -
  obtain p et es where "entry_price st = Some p" "0 < p" "entry_timestamp st = Some et"
    "entry_signal_timestamp st = Some es" "0 < quantity st"
    using assms by (auto simp: is_long_def split: option.splits)
  moreover from this have "0 < dmul (of_int (quantity st)) p"
    by (intro dmul_pos) simp_all
  ultimately show ?thesis
    by (simp add: close_position_Inr_iff)
qed

lemma risk_close_total: "is_long sl tp i st \<Longrightarrow> \<exists>st'. risk_close bar ex st = Inr st'"
  using close_position_total[of sl tp i st bar "fst ex" "snd ex"] by (auto simp: risk_close_flatten)

lemma process_signal_error:
  assumes "process_signal sl tp i bar (st, at_open) s = Inl e"
    and inv: "portfolio_inv sl tp (Suc i) st" and bar: "valid_bar bar"
  shows "e = InvalidOperation"
proof -
  have "open_price bar \<noteq> 0"
    using valid_bar_pos(1)[OF bar] by simp
  show ?thesis
  proof (cases "0 < quantity st")
    case True
    have "is_long sl tp (Suc i) st"
      using portfolio_inv_long[OF inv True] by simp
    then obtain c t where "close_position bar (open_price bar) STRATEGY_EXIT st = Inr (c, t)"
      using close_position_total by blast
    then show ?thesis
      using assms(1) True by (cases "sig_type s") (auto simp: process_ignored process_sell)
  next
    case False
    then have "quantity st = 0"
      using portfolio_inv_quantity[OF inv] by simp
    then show ?thesis
      using assms(1) portfolio_inv_flat[OF inv] bar dfloordiv_error \<open>open_price bar \<noteq> 0\<close>
      by (cases "sig_type s") (auto simp: process_ignored process_buy result_simps)
  qed
qed

lemma process_signals_error:
  assumes "res_fold (process_signal sl tp i bar) (st, at_open) pending = Inl e"
    and inv: "portfolio_inv sl tp (Suc i) st" "valid_bar bar" "risk_control_ok tp"
  shows "e = InvalidOperation"
proof -
  let ?P = "\<lambda>(st, _). portfolio_inv sl tp (Suc i) st"
  have step: "?P t'" if p: "?P t" "process_signal sl tp i bar t x = Inr t'" for t x t'
  proof -
    obtain st1 a1 st2 a2 where t: "t = (st1, a1)" "t' = (st2, a2)"
      by (cases t; cases t')
    then have "\<exists>e. position_step sl tp i bar st1 e st2"
      using process_signal_step[of sl tp i bar st1 a1 x st2 a2] p inv(2) by auto
    then show ?thesis
      using portfolio_inv_step p t inv by auto
  qed
  obtain t x where "?P t" "process_signal sl tp i bar t x = Inl e"
    using res_fold_no_error[OF assms(1), of ?P] inv(1) step by auto
  then show ?thesis
    using process_signal_error inv(2) by (cases t) auto
qed

lemma opening_phase_error:
  assumes "opening_phase sl tp pending i bar st = Inl e"
    and inv: "portfolio_inv sl tp (Suc i) st" "valid_bar bar" "risk_control_ok tp"
  shows "e = InvalidOperation"
proof (cases "evaluate_opening_risk_exit bar i st")
  case None
  then show ?thesis
    using assms process_signals_error by (auto simp: opening_phase_def)
next
  case (Some ex)
  then have "0 < quantity st"
    using opening_exit_justified[of bar i st "fst ex" "snd ex"] portfolio_inv_quantity[OF inv(1)] by auto
  then have "is_long sl tp (Suc i) st"
    using portfolio_inv_long[OF inv(1)] by simp
  then obtain st' where "risk_close bar ex st = Inr st'"
    using risk_close_total by blast
  then show ?thesis
    using assms(1) Some by (simp add: opening_phase_def)
qed

lemma intraday_phase_total:
  assumes "portfolio_inv sl tp (Suc i) st"
  shows "\<exists>st'. intraday_phase i bar (st, at_open) = Inr st'"
  using risk_close_total portfolio_inv_long[OF assms]
  by (auto simp: intraday_phase_def split: option.splits)

lemma process_bar_error:
  assumes run: "process_bar bars g sl tp st i = Inl e"
    and inv: "run_inv bars sl tp i st" and i: "i < length bars"
  shows "e = InvalidOperation"
proof -
  have vb: "valid_bar (bars ! i)" and tp: "risk_control_ok tp"
    and inv': "portfolio_inv sl tp (Suc i) st"
    using inv i valid_bars_nth by (auto simp: run_inv_def intro: portfolio_inv_mono)
  show ?thesis
  proof (cases "\<exists>pending. opening_phase sl tp pending i (bars ! i) st = Inl e")
    case True
    then show ?thesis
      using opening_phase_error inv' vb tp by blast
  next
    case False
    then obtain st1 c where "intraday_phase i (bars ! i) (st1, c) = Inl e"
      and "st1 = st \<or> (\<exists>pending. opening_phase sl tp pending i (bars ! i) st = Inr (st1, c))"
      using run by (auto simp: process_bar_def Let_def result_simps split: if_splits)
    moreover from this(2) have "portfolio_inv sl tp (Suc i) st1"
      using inv' opening_phase_steps portfolio_inv_steps vb tp by metis
    ultimately show ?thesis
      using intraday_phase_total[of sl tp i st1 "bars ! i" c] by auto
  qed
qed

lemma run_bars_error:
  assumes "run_bars bars signals c sl tp = Inl e" "valid_bars bars" "risk_control_ok tp"
    and "0 < c" "representable c"
  shows "e = InvalidOperation"
  using portfolio_loop.loop_error[OF order_refl run_inv_initial] process_bar_error assms
  unfolding run_bars_def by metis

lemma final_liquidation_total:
  assumes "portfolio_inv sl tp i st"
  shows "\<exists>st'. final_liquidation bar st = Inr st'"
proof (cases "0 < quantity st")
  case True
  then have "is_long sl tp i st"
    using portfolio_inv_long[OF assms] by simp
  then show ?thesis
    using close_position_total[of sl tp i st bar "close_price bar" FINAL_LIQUIDATION]
    by (auto simp: final_liquidation_def)
qed (simp add: final_liquidation_def)

lemma execute_Inr_iff [result_simps]:
  "execute_long_only_signals bars signals c sl tp = Inr r \<longleftrightarrow>
     0 < c \<and> bars \<noteq> [] \<and> risk_control_ok sl \<and> risk_control_ok tp \<and>
     (\<exists>st st'. run_bars bars signals c sl tp = Inr st \<and>
        final_liquidation (last bars) st = Inr st' \<and>
        r = \<lparr>final_portfolio_value = cash st',
             total_realized_profit_loss = dsum (map t_profit_loss (completed_trades st')),
             er_completed_trades = completed_trades st', er_equity_curve = equity_curve st',
             er_ignored_signals = ignored_signals st'\<rparr>)"
  by (auto simp: execute_long_only_signals_def result_simps validate_risk_control_iff not_le)

lemma final_liquidation_frame:
  "final_liquidation bar st = Inr st' \<Longrightarrow>
   equity_curve st' = equity_curve st \<and> ignored_signals st' = ignored_signals st"
  by (auto simp: final_liquidation_def result_simps split: if_splits)

lemma final_liquidation_cash_pos:
  assumes "portfolio_inv sl tp i st" "valid_bar bar" "final_liquidation bar st = Inr st'"
  shows "0 < cash st'"
proof (cases "0 < quantity st")
  case True
  then have "cash st' = dadd (cash st) (dmul (of_int (quantity st)) (close_price bar))"
    using assms(3) by (auto simp: final_liquidation_def result_simps close_position_Inr_iff)
  then show ?thesis
    using marked_equity_pos[OF assms(1,2)] by simp
next
  case False
  then show ?thesis
    using assms portfolio_inv_flat[OF assms(1)] portfolio_inv_quantity[OF assms(1)]
    by (auto simp: final_liquidation_def)
qed

lemma execute_positive:
  assumes "execute_long_only_signals bars signals c sl tp = Inr r"
    and "valid_bars bars" "representable c"
  shows "0 < final_portfolio_value r \<and> (\<forall>p \<in> set (er_equity_curve r). 0 < equity p) \<and>
         map ep_timestamp (er_equity_curve r) = map bar_timestamp bars"
proof -
  obtain st st' where run: "run_bars bars signals c sl tp = Inr st"
    and fin: "final_liquidation (last bars) st = Inr st'" and c: "0 < c" "risk_control_ok tp" "bars \<noteq> []"
    and r: "er_equity_curve r = equity_curve st'" "final_portfolio_value r = cash st'"
    using assms(1) by (auto simp: result_simps)
  have inv: "run_inv bars sl tp (length bars) st"
    using run_bars_inv[OF run] assms c by blast
  have "0 < cash st'"
    using final_liquidation_cash_pos[OF _ _ fin] inv assms(2) c(3)
    by (auto simp: run_inv_def valid_bars_def list_all_iff)
  then show ?thesis
    using inv r final_liquidation_frame[OF fin] by (auto simp: run_inv_def list_all_iff)
qed

text \<open>
  C1. On stored bars, with a positive starting cash that fits the decimal context, the engine
  never goes into debt: whatever the signals and risk controls are, the portfolio is worth more
  than zero at every bar and at the end, and the equity curve has exactly one point per bar,
  stamped with the bar's timestamp, in order. This holds for the rounded decimal arithmetic.
\<close>

theorem engine_equity_positive:
  assumes "execute_long_only_signals bars signals c sl tp = Inr r"
    and "valid_bars bars" "representable c"
  shows "0 < final_portfolio_value r \<and> (\<forall>p \<in> set (er_equity_curve r). 0 < equity p) \<and>
         map ep_timestamp (er_equity_curve r) = map bar_timestamp bars"
  using execute_positive[OF assms] .

theorem engine_equity_positive_witness:
  "execute_long_only_signals sample_bars sample_signals 10000 (Some 5) (Some 20) = Inr sample_result \<and>
   0 < final_portfolio_value sample_result \<and> list_all (\<lambda>p. 0 < equity p) (er_equity_curve sample_result) \<and>
   map ep_timestamp (er_equity_curve sample_result) = map bar_timestamp sample_bars"
  using engine_equity_positive[OF sample_run sample_bars_valid sample_cash_representable] sample_run
  unfolding list_all_iff by blast

lemma execute_error:
  assumes "execute_long_only_signals bars signals c sl tp = Inl e"
    and "valid_bars bars" "representable c"
  shows "(\<exists>m. e = ValueError m \<and> (c \<le> 0 \<or> bars = [] \<or> \<not> risk_control_ok sl \<or> \<not> risk_control_ok tp))
         \<or> e = InvalidOperation"
proof (cases "c \<le> 0 \<or> bars = [] \<or> \<not> risk_control_ok sl \<or> \<not> risk_control_ok tp")
  case True
  then show ?thesis
    using assms(1)
    by (auto simp: execute_long_only_signals_def validate_risk_control_def risk_control_ok_def
        result_simps not_le not_less split: option.splits)
next
  case False
  then consider "run_bars bars signals c sl tp = Inl e"
    | st where "run_bars bars signals c sl tp = Inr st" "final_liquidation (last bars) st = Inl e"
    using assms(1)
    by (auto simp: execute_long_only_signals_def result_simps validate_risk_control_def
        risk_control_ok_def split: option.splits)
  then show ?thesis
  proof cases
    case 1
    then show ?thesis
      using run_bars_error assms False by auto
  next
    case 2
    then have "portfolio_inv sl tp (length bars) st"
      using run_bars_inv assms False by (auto simp: run_inv_def)
    then show ?thesis
      using final_liquidation_total[of sl tp "length bars" st "last bars"] 2(2) by auto
  qed
qed

text \<open>
  The engine's failures are exactly the documented ones: the four argument checks raise a
  \<open>ValueError\<close>, and on stored bars with a representable starting cash the only other exception
  is the decimal \<open>InvalidOperation\<close> of a share count that does not fit into the precision.
\<close>

lemma engine_errors:
  assumes "execute_long_only_signals bars signals c sl tp = Inl e"
    and "valid_bars bars" "representable c"
  shows "(\<exists>m. e = ValueError m \<and> (c \<le> 0 \<or> bars = [] \<or> \<not> risk_control_ok sl \<or> \<not> risk_control_ok tp))
         \<or> e = InvalidOperation"
  using execute_error[OF assms] .

lemma engine_errors_witness:
  "execute_long_only_signals overflow_bars overflow_signals (10 ^ 40) None None = Inl InvalidOperation \<and>
   ((\<exists>m. InvalidOperation = ValueError m \<and>
       ((10 ^ 40 :: decimal) \<le> 0 \<or> overflow_bars = [] \<or> \<not> risk_control_ok None \<or> \<not> risk_control_ok None))
    \<or> InvalidOperation = InvalidOperation)"
  using engine_errors[OF overflow_run overflow_bars_valid overflow_cash_representable] overflow_run
  by blast

end
