(* ===== verification/Engine_Trades.thy ===== *)
theory Engine_Trades
  imports Engine_Safety
begin

text \<open>
  What the engine promises about its completed trades: every trade is filled at the next bar's
  open after a buy signal, leaves through one of the four exits under that exit's own condition,
  and every pending signal is accounted for exactly once.
\<close>

subsection \<open>The contract of a completed trade\<close>

definition signal_at :: "signal list \<Rightarrow> signal_type \<Rightarrow> timestamp \<Rightarrow> bool" where
  "signal_at signals ty t \<longleftrightarrow> (\<exists>s \<in> set signals. sig_type s = ty \<and> sig_timestamp s = t)"

definition stop_level :: "decimal \<Rightarrow> decimal \<Rightarrow> decimal" where
  "stop_level p x = dmul p (dsub 1 (dec_round (x / 100)))"

definition take_profit_level :: "decimal \<Rightarrow> decimal \<Rightarrow> decimal" where
  "take_profit_level p x = dmul p (dadd 1 (dec_round (x / 100)))"

definition exit_ok ::
    "market_bar list \<Rightarrow> signal list \<Rightarrow> decimal option \<Rightarrow> decimal option \<Rightarrow> nat \<Rightarrow> nat \<Rightarrow>
     completed_trade \<Rightarrow> bool" where
  \<comment> \<open>the exit rule of a trade entered at bar \<open>i\<close> and left at bar \<open>j\<close>\<close>
  "exit_ok bars signals sl tp i j t =
     (case t_exit_reason t of
        STRATEGY_EXIT \<Rightarrow>
          0 < j \<and> t_exit_price t = open_price (bars ! j) \<and>
          t_exit_signal_timestamp t = Some (bar_timestamp (bars ! (j - 1))) \<and>
          signal_at signals SELL (bar_timestamp (bars ! (j - 1)))
      | STOP_LOSS \<Rightarrow>
          i < j \<and> t_exit_signal_timestamp t = None \<and>
          (case sl of None \<Rightarrow> False
           | Some x \<Rightarrow>
               t_exit_price t \<le> stop_level (t_entry_price t) x \<and>
               low_price (bars ! j) \<le> stop_level (t_entry_price t) x \<and>
               (t_exit_price t = open_price (bars ! j) \<or>
                t_exit_price t = stop_level (t_entry_price t) x))
      | TAKE_PROFIT \<Rightarrow>
          i < j \<and> t_exit_signal_timestamp t = None \<and>
          (case tp of None \<Rightarrow> False
           | Some x \<Rightarrow>
               take_profit_level (t_entry_price t) x \<le> t_exit_price t \<and>
               take_profit_level (t_entry_price t) x \<le> high_price (bars ! j) \<and>
               (t_exit_price t = open_price (bars ! j) \<or>
                t_exit_price t = take_profit_level (t_entry_price t) x))
      | FINAL_LIQUIDATION \<Rightarrow>
          Suc j = length bars \<and> t_exit_signal_timestamp t = None \<and>
          t_exit_price t = close_price (bars ! j))"

definition entry_ok :: "market_bar list \<Rightarrow> signal list \<Rightarrow> nat \<Rightarrow> timestamp \<Rightarrow> timestamp \<Rightarrow> decimal \<Rightarrow> bool" where
  \<comment> \<open>a position entered at the open of bar \<open>i\<close> on a buy signal of the bar before\<close>
  "entry_ok bars signals i sig_ts ts p \<longleftrightarrow>
     0 < i \<and> i < length bars \<and> ts = bar_timestamp (bars ! i) \<and> p = open_price (bars ! i) \<and>
     sig_ts = bar_timestamp (bars ! (i - 1)) \<and> signal_at signals BUY sig_ts"

definition trade_ok ::
    "market_bar list \<Rightarrow> signal list \<Rightarrow> decimal option \<Rightarrow> decimal option \<Rightarrow> completed_trade \<Rightarrow> bool" where
  "trade_ok bars signals sl tp t \<longleftrightarrow>
     0 < t_quantity t \<and>
     t_profit_loss t = dsub (dmul (of_int (t_quantity t)) (t_exit_price t))
                            (dmul (of_int (t_quantity t)) (t_entry_price t)) \<and>
     (\<exists>i < length bars. \<exists>j < length bars. i \<le> j \<and>
        entry_ok bars signals i (t_signal_timestamp t) (t_entry_timestamp t) (t_entry_price t) \<and>
        t_exit_timestamp t = bar_timestamp (bars ! j) \<and> exit_ok bars signals sl tp i j t)"

definition open_entry_ok :: "market_bar list \<Rightarrow> signal list \<Rightarrow> engine_state \<Rightarrow> bool" where
  "open_entry_ok bars signals st \<longleftrightarrow>
     (0 < quantity st \<longrightarrow>
        (case (entry_bar_index st, entry_signal_timestamp st, entry_timestamp st, entry_price st) of
           (Some k, Some es, Some et, Some p) \<Rightarrow> entry_ok bars signals k es et p
         | _ \<Rightarrow> False))"

definition trades_inv ::
    "market_bar list \<Rightarrow> signal list \<Rightarrow> decimal option \<Rightarrow> decimal option \<Rightarrow> engine_state \<Rightarrow> bool" where
  "trades_inv bars signals sl tp st \<longleftrightarrow>
     open_entry_ok bars signals st \<and> list_all (trade_ok bars signals sl tp) (completed_trades st)"

lemma group_signals_fold:
  "fold (\<lambda>s m. m(sig_timestamp s := m (sig_timestamp s) @ [s])) signals m t =
     m t @ filter (\<lambda>s. sig_timestamp s = t) signals"
  by (induction signals arbitrary: m) auto

lemma group_signals_eq: "group_signals signals t = filter (\<lambda>s. sig_timestamp s = t) signals"
  by (simp add: group_signals_def group_signals_fold)

definition event_timely :: "market_bar list \<Rightarrow> signal list \<Rightarrow> nat \<Rightarrow> engine_event \<Rightarrow> bool" where
  "event_timely bars signals i e \<longleftrightarrow>
     (case event_signal e of None \<Rightarrow> True
      | Some s \<Rightarrow> 0 < i \<and> s \<in> set signals \<and> sig_timestamp s = bar_timestamp (bars ! (i - 1)))"

lemma map_filter_pending_timely:
  assumes "List.map_filter event_signal es = pending_signals bars (group_signals signals) i" "e \<in> set es"
  shows "event_timely bars signals i e"
proof (cases "event_signal e")
  case (Some s)
  then have "s \<in> set (List.map_filter event_signal es)"
    using assms(2) by (force simp: List.map_filter_def)
  then show ?thesis
    using Some assms(1)
    by (auto simp: event_timely_def pending_signals_def group_signals_eq split: if_splits)
qed (simp add: event_timely_def)

lemma close_position_trade_ok:
  assumes close: "close_position (bars ! j) x r st = Inr (c, t)"
    and j: "j < length bars" and entry: "open_entry_ok bars signals st"
    and k: "\<And>k. entry_bar_index st = Some k \<Longrightarrow> k \<le> j"
    and "t' = t\<lparr>t_exit_signal_timestamp := es\<rparr>"
    and exit: "\<And>k p. entry_bar_index st = Some k \<Longrightarrow> entry_price st = Some p \<Longrightarrow>
       t_exit_reason t' = r \<Longrightarrow> t_exit_price t' = x \<Longrightarrow> t_entry_price t' = p \<Longrightarrow>
       t_exit_signal_timestamp t' = es \<Longrightarrow> exit_ok bars signals sl tp k j t'"
  shows "trade_ok bars signals sl tp t'"
proof -
  obtain p et es' where f: "0 < quantity st" "entry_price st = Some p" "entry_timestamp st = Some et"
    "entry_signal_timestamp st = Some es'" and t: "t_signal_timestamp t = es'" "t_entry_timestamp t = et"
    "t_entry_price t = p" "t_quantity t = quantity st" "t_exit_timestamp t = bar_timestamp (bars ! j)"
    "t_exit_price t = x" "t_exit_reason t = r"
    "t_profit_loss t = dsub (dmul (of_int (quantity st)) x) (dmul (of_int (quantity st)) p)"
    using close by (auto simp: close_position_Inr_iff)
  then obtain k' where k': "entry_bar_index st = Some k'" "entry_ok bars signals k' es' et p"
    using entry by (auto simp: open_entry_ok_def split: option.splits)
  moreover have "exit_ok bars signals sl tp k' j t'"
    using exit[OF k'(1) f(2)] t assms(5) by simp
  moreover have "k' < length bars"
    using k'(2) by (simp add: entry_ok_def)
  ultimately have "\<exists>i < length bars. \<exists>j < length bars. i \<le> j \<and>
      entry_ok bars signals i (t_signal_timestamp t') (t_entry_timestamp t') (t_entry_price t') \<and>
      t_exit_timestamp t' = bar_timestamp (bars ! j) \<and> exit_ok bars signals sl tp i j t'"
    using t j k[OF k'(1)] assms(5) by (intro exI[of _ k'] conjI exI[of _ j]) simp_all
  then show ?thesis
    using f t assms(5) by (simp add: trade_ok_def)
qed

lemma levels_of_long:
  assumes "is_long sl tp i st" "entry_price st = Some p"
  shows "stop_price st = map_option (stop_level p) sl"
    "take_profit_price st = map_option (take_profit_level p) tp"
  using assms
  by (auto simp: is_long_def calculate_risk_levels_def stop_level_def [abs_def]
      take_profit_level_def [abs_def] split: option.splits)

lemma justified_exit_ok:
  assumes just: "exit_justified j (bars ! j) st x r" and bar: "valid_bar (bars ! j)"
    and long: "is_long sl tp (Suc j) st" and k: "entry_bar_index st = Some k"
    and p: "entry_price st = Some p"
    and sg: "case sg of None \<Rightarrow> r \<noteq> STRATEGY_EXIT
             | Some s \<Rightarrow> sig_type s = SELL \<and> r = STRATEGY_EXIT"
    and timely: "case sg of None \<Rightarrow> True
       | Some s \<Rightarrow> 0 < j \<and> s \<in> set signals \<and> sig_timestamp s = bar_timestamp (bars ! (j - 1))"
    and t: "t_exit_reason t = r" "t_exit_price t = x" "t_entry_price t = p"
      "t_exit_signal_timestamp t = map_option sig_timestamp sg"
  shows "exit_ok bars signals sl tp k j t"
proof -
  note lv = levels_of_long[OF long p]
  show ?thesis
  proof (cases r)
    case STRATEGY_EXIT
    then show ?thesis
      using just sg timely t
      by (auto simp: exit_ok_def exit_justified_def signal_at_def split: option.splits)
  next
    case STOP_LOSS
    then show ?thesis
      using just sg t lv k bar
      by (auto simp: exit_ok_def exit_justified_def valid_bar_def split: option.splits)
  next
    case TAKE_PROFIT
    then show ?thesis
      using just sg t lv k bar
      by (auto simp: exit_ok_def exit_justified_def valid_bar_def split: option.splits)
  next
    case FINAL_LIQUIDATION
    then show ?thesis
      using just by (simp add: exit_justified_def)
  qed
qed

lemma trades_inv_step:
  assumes step: "position_step sl tp i (bars ! i) st e st'" and i: "i < length bars"
    and timely: "event_timely bars signals i e"
    and inv: "portfolio_inv sl tp (Suc i) st" "valid_bar (bars ! i)" "trades_inv bars signals sl tp st"
  shows "trades_inv bars signals sl tp st'"
  using step
proof cases
  case (ignore s)
  then show ?thesis
    using inv(3) by (simp add: trades_inv_def open_entry_ok_def ignore_signal_def cong: option.case_cong)
next
  case (enter s q)
  then show ?thesis
    using inv(3) timely i
    by (auto simp: trades_inv_def open_entry_ok_def open_position_def entry_ok_def event_timely_def
        signal_at_def)
next
  case (leave x r c t sg t')
  have long: "is_long sl tp (Suc i) st"
    using portfolio_inv_long[OF inv(1) leave(3)] by simp
  have "trade_ok bars signals sl tp t'"
  proof (rule close_position_trade_ok[OF leave(4) i, where es = "map_option sig_timestamp sg"])
    show "open_entry_ok bars signals st"
      using inv(3) by (simp add: trades_inv_def)
    show "k \<le> i" if "entry_bar_index st = Some k" for k
      using long that by (auto simp: is_long_def split: option.splits)
    show "t' = t\<lparr>t_exit_signal_timestamp := map_option sig_timestamp sg\<rparr>"
      by (rule leave(7))
  next
    fix k p
    assume "entry_bar_index st = Some k" "entry_price st = Some p" "t_exit_reason t' = r"
      "t_exit_price t' = x" "t_entry_price t' = p"
      "t_exit_signal_timestamp t' = map_option sig_timestamp sg"
    then show "exit_ok bars signals sl tp k i t'"
      using timely leave(1)
      by (intro justified_exit_ok[OF leave(5) inv(2) long _ _ leave(6)])
        (auto simp: event_timely_def)
  qed
  then show ?thesis
    using inv(3) leave
    by (simp add: trades_inv_def open_entry_ok_def flatten_position_def cleared_position_def)
qed

lemma trades_inv_steps:
  assumes "position_steps sl tp i (bars ! i) st es st'" "i < length bars"
    and "\<forall>e \<in> set es. event_timely bars signals i e"
    and "portfolio_inv sl tp (Suc i) st" "valid_bar (bars ! i)" "risk_control_ok tp"
    and "trades_inv bars signals sl tp st"
  shows "trades_inv bars signals sl tp st'"
  using assms
proof (induction rule: position_steps.induct)
  case (more st e st' es st'')
  then show ?case
    using trades_inv_step[OF more.hyps(1)] portfolio_inv_step[OF more.hyps(1)] by auto
qed simp

subsection \<open>Every pending signal is accounted for\<close>

definition signal_uses :: "completed_trade \<Rightarrow> signal list" where
  \<comment> \<open>the buy signal of a trade, and the sell signal of a trade that a signal closed\<close>
  "signal_uses t =
     \<lparr>sig_timestamp = t_signal_timestamp t, sig_type = BUY\<rparr> #
     (case t_exit_signal_timestamp t of None \<Rightarrow> [] | Some u \<Rightarrow> [\<lparr>sig_timestamp = u, sig_type = SELL\<rparr>])"

definition accounted :: "engine_state \<Rightarrow> signal multiset" where
  "accounted st =
     mset (ignored_signals st) + mset (concat (map signal_uses (completed_trades st))) +
     (if 0 < quantity st
      then (case entry_signal_timestamp st of None \<Rightarrow> {#} | Some u \<Rightarrow> {#\<lparr>sig_timestamp = u, sig_type = BUY\<rparr>#})
      else {#})"

lemma signal_eqI: "sig_type s = ty \<Longrightarrow> \<lparr>sig_timestamp = sig_timestamp s, sig_type = ty\<rparr> = (s :: signal)"
  by (cases s) simp

lemma accounted_step:
  assumes "position_step sl tp i bar st e st'"
  shows "accounted st' = accounted st + (case event_signal e of None \<Rightarrow> {#} | Some s \<Rightarrow> {#s#})"
  using assms
proof cases
  case (leave x r c t sg t')
  then obtain es where es: "entry_signal_timestamp st = Some es" "t_signal_timestamp t' = es"
    by (auto simp: close_position_Inr_iff)
  have "t_exit_signal_timestamp t' = map_option sig_timestamp sg"
    using leave by simp
  then show ?thesis
    using leave es signal_eqI[of _ SELL]
    by (auto simp: accounted_def signal_uses_def flatten_position_def cleared_position_def split: option.splits)
next
  case (enter s q)
  then show ?thesis
    by (simp add: accounted_def open_position_def signal_eqI)
qed (simp add: accounted_def ignore_signal_def)

lemma accounted_mark [simp]: "accounted (mark_to_close bar st) = accounted st"
  by (simp add: accounted_def mark_to_close_def cong: option.case_cong)

lemma accounted_steps:
  "position_steps sl tp i bar st es st' \<Longrightarrow>
   accounted st' = accounted st + mset (List.map_filter event_signal es)"
proof (induction rule: position_steps.induct)
  case (more st e st' es st'')
  then show ?case
    using accounted_step[OF more.hyps(1)] by (auto simp: List.map_filter_simps split: option.splits)
qed (simp add: List.map_filter_simps)

definition trade_loop_inv ::
    "market_bar list \<Rightarrow> signal list \<Rightarrow> decimal option \<Rightarrow> decimal option \<Rightarrow> nat \<Rightarrow> engine_state \<Rightarrow> bool" where
  "trade_loop_inv bars signals sl tp i st \<longleftrightarrow>
     run_inv bars sl tp i st \<and> trades_inv bars signals sl tp st \<and>
     accounted st = mset (concat (map (pending_signals bars (group_signals signals)) [0..<i]))"

lemma trade_loop_inv_process_bar:
  assumes i: "i < length bars" and inv: "trade_loop_inv bars signals sl tp i st"
    and run: "process_bar bars (group_signals signals) sl tp st i = Inr st'"
  shows "trade_loop_inv bars signals sl tp (Suc i) st'"
proof -
  have r: "run_inv bars sl tp i st"
    using inv by (simp add: trade_loop_inv_def)
  then have vb: "valid_bar (bars ! i)" and tp: "risk_control_ok tp"
    and p: "portfolio_inv sl tp i st" and p': "portfolio_inv sl tp (Suc i) st"
    using i valid_bars_nth portfolio_inv_mono[of sl tp i st "Suc i"] by (auto simp: run_inv_def)
  obtain es st2 where es: "position_steps sl tp i (bars ! i) st es st2"
    "st' = mark_to_close (bars ! i) st2"
    "List.map_filter event_signal es = pending_signals bars (group_signals signals) i"
    using process_bar_steps[OF run p vb tp] by blast
  have "trades_inv bars signals sl tp st2"
    using trades_inv_steps[OF es(1) i _ p' vb tp] map_filter_pending_timely[OF es(3)] inv
    by (simp add: trade_loop_inv_def)
  then have "trades_inv bars signals sl tp st'"
    by (simp add: es(2) trades_inv_def open_entry_ok_def mark_to_close_def cong: option.case_cong)
  moreover have "accounted st' = accounted st + mset (pending_signals bars (group_signals signals) i)"
    using accounted_steps[OF es(1)] es(3) by (simp add: es(2))
  ultimately show ?thesis
    using inv run_inv_process_bar[OF i r run] by (simp add: trade_loop_inv_def)
qed

interpretation trade_loop:
  indexed_loop "process_bar bars (group_signals signals) sl tp" "trade_loop_inv bars signals sl tp"
    "length bars" for bars signals sl tp
  by unfold_locales (rule trade_loop_inv_process_bar)

lemma run_bars_trade_inv:
  assumes "run_bars bars signals c sl tp = Inr st" "valid_bars bars" "risk_control_ok tp"
    and "0 < c" "representable c"
  shows "trade_loop_inv bars signals sl tp (length bars) st"
proof -
  have "trade_loop_inv bars signals sl tp 0 (initial_state c)"
    using run_inv_initial[of bars tp c sl] assms
    by (simp add: trade_loop_inv_def trades_inv_def open_entry_ok_def accounted_def initial_state_def)
  then show ?thesis
    using trade_loop.loop_inv[OF order_refl] assms(1) unfolding run_bars_def by blast
qed

lemma final_liquidation_trades:
  assumes fin: "final_liquidation (last bars) st = Inr st'" and bars: "bars \<noteq> []"
    and inv: "trade_loop_inv bars signals sl tp (length bars) st"
  shows "list_all (trade_ok bars signals sl tp) (completed_trades st')"
    and "mset (ignored_signals st') + mset (concat (map signal_uses (completed_trades st'))) = accounted st"
proof -
  let ?j = "length bars - 1"
  have j: "?j < length bars" "last bars = bars ! ?j"
    using bars by (simp_all add: last_conv_nth)
  have p: "portfolio_inv sl tp (length bars) st" and t: "trades_inv bars signals sl tp st"
    using inv by (simp_all add: trade_loop_inv_def run_inv_def)
  have "(list_all (trade_ok bars signals sl tp) (completed_trades st')) \<and>
    mset (ignored_signals st') + mset (concat (map signal_uses (completed_trades st'))) = accounted st"
  proof (cases "0 < quantity st")
    case False
    then have "st' = st"
      using fin by (simp add: final_liquidation_def)
    then show ?thesis
      using t False by (simp add: trades_inv_def accounted_def)
  next
    case True
    then obtain c tr where cl: "close_position (bars ! ?j) (close_price (bars ! ?j)) FINAL_LIQUIDATION st = Inr (c, tr)"
      and st': "st' = st\<lparr>cash := c, completed_trades := completed_trades st @ [tr]\<rparr>"
      using fin unfolding j(2) by (auto simp: final_liquidation_def result_simps)
    have tr: "t_exit_reason tr = FINAL_LIQUIDATION" "t_exit_signal_timestamp tr = None"
      "entry_signal_timestamp st = Some (t_signal_timestamp tr)"
      using cl by (auto simp: close_position_Inr_iff)
    have long: "is_long sl tp (length bars) st"
      using portfolio_inv_long[OF p True] by simp
    have "trade_ok bars signals sl tp tr"
    proof (rule close_position_trade_ok[OF cl j(1), where es = None])
      show "open_entry_ok bars signals st"
        using t by (simp add: trades_inv_def)
      show "k \<le> ?j" if "entry_bar_index st = Some k" for k
        using long that by (auto simp: is_long_def split: option.splits)
      show "tr = tr\<lparr>t_exit_signal_timestamp := None\<rparr>"
        using tr by simp
      show "exit_ok bars signals sl tp k ?j tr"
        if "t_exit_reason tr = FINAL_LIQUIDATION" "t_exit_price tr = close_price (bars ! ?j)"
          "t_exit_signal_timestamp tr = None" for k
        using that bars by (simp add: exit_ok_def)
    qed
    then show ?thesis
      using t True tr by (simp add: st' trades_inv_def accounted_def signal_uses_def)
  qed
  then show "list_all (trade_ok bars signals sl tp) (completed_trades st')"
    "mset (ignored_signals st') + mset (concat (map signal_uses (completed_trades st'))) = accounted st"
    by simp_all
qed

lemma execute_trade_facts:
  assumes "execute_long_only_signals bars signals c sl tp = Inr r" "valid_bars bars" "representable c"
  shows "list_all (trade_ok bars signals sl tp) (er_completed_trades r)"
    and "mset (er_ignored_signals r) + mset (concat (map signal_uses (er_completed_trades r))) =
         mset (concat (map (pending_signals bars (group_signals signals)) [0..<length bars]))"
proof -
  obtain st st' where run: "run_bars bars signals c sl tp = Inr st"
    and fin: "final_liquidation (last bars) st = Inr st'" and c: "0 < c" "risk_control_ok tp" "bars \<noteq> []"
    and r: "er_completed_trades r = completed_trades st'" "er_ignored_signals r = ignored_signals st'"
    using assms(1) by (auto simp: result_simps)
  have inv: "trade_loop_inv bars signals sl tp (length bars) st"
    using run_bars_trade_inv[OF run] assms c by blast
  show "list_all (trade_ok bars signals sl tp) (er_completed_trades r)"
    "mset (er_ignored_signals r) + mset (concat (map signal_uses (er_completed_trades r))) =
         mset (concat (map (pending_signals bars (group_signals signals)) [0..<length bars]))"
    using final_liquidation_trades[OF fin c(3) inv] inv by (simp_all add: r trade_loop_inv_def)
qed

lemma mset_grouped:
  "distinct ts \<Longrightarrow> mset (concat (map (\<lambda>t. filter (\<lambda>s. f s = t) xs) ts)) = mset (filter (\<lambda>s. f s \<in> set ts) xs)"
proof (induction ts)
  case (Cons t ts)
  have "mset (filter (\<lambda>s. f s = t \<or> f s \<in> set ts) xs) =
      mset (filter (\<lambda>s. f s = t) xs) + mset (filter (\<lambda>s. f s \<in> set ts) xs)"
    using Cons.prems by (induction xs) auto
  then show ?case
    using Cons by simp
qed simp

definition actionable :: "market_bar list \<Rightarrow> signal \<Rightarrow> bool" where
  \<comment> \<open>a signal is acted on at the bar after its own, so it needs one\<close>
  "actionable bars s \<longleftrightarrow> sig_timestamp s \<in> set (map bar_timestamp (butlast bars))"

lemma pending_actionable:
  assumes "distinct (map bar_timestamp bars)"
  shows "mset (concat (map (pending_signals bars (group_signals signals)) [0..<length bars])) =
         mset (filter (actionable bars) signals)"
proof (cases bars)
  case (Cons b bs)
  let ?ts = "map bar_timestamp (butlast bars)"
  have "map (pending_signals bars (group_signals signals)) [0..<length bars] =
      [] # map (\<lambda>j. group_signals signals (bar_timestamp (bars ! j))) [0..<length bars - 1]"
    using Cons by (simp add: upt_conv_Cons pending_signals_def map_Suc_upt [symmetric] del: upt_Suc)
  also have "map (\<lambda>j. group_signals signals (bar_timestamp (bars ! j))) [0..<length bars - 1] =
      map (\<lambda>t. filter (\<lambda>s. sig_timestamp s = t) signals) ?ts"
    by (intro nth_equalityI) (auto simp: group_signals_eq nth_butlast)
  finally show ?thesis
    using mset_grouped[of ?ts sig_timestamp signals] assms
    by (simp add: map_butlast distinct_butlast actionable_def [abs_def])
qed (simp add: actionable_def)

lemma res_fold_cong:
  "(\<And>x s. x \<in> set xs \<Longrightarrow> f s x = g s x) \<Longrightarrow> res_fold f s xs = res_fold g s xs"
proof (induction xs arbitrary: s)
  case (Cons x xs)
  then show ?case
    by (cases "g s x") auto
qed simp

lemma process_bar_past:
  assumes "i < length past"
    and "\<And>t. t \<in> set (map bar_timestamp (butlast past)) \<Longrightarrow> g t = g' t"
  shows "process_bar (past @ future) g sl tp st i = process_bar past g' sl tp st i"
proof (cases "0 < i")
  case True
  then have "butlast past ! (i - 1) = past ! (i - 1)" "i - 1 < length (butlast past)"
    using assms(1) by (auto simp: nth_butlast)
  then have "bar_timestamp (past ! (i - 1)) \<in> set (map bar_timestamp (butlast past))"
    using nth_mem[of "i - 1" "butlast past"] by auto
  moreover have "(past @ future) ! (i - 1) = past ! (i - 1)" "(past @ future) ! i = past ! i"
    using assms(1) by (simp_all add: nth_append)
  ultimately show ?thesis
    using assms(2) True by (simp add: process_bar_def)
next
  case False
  then show ?thesis
    using assms(1) by (simp add: process_bar_def nth_append)
qed

lemma run_bars_actionable: "run_bars bars (filter (actionable bars) signals) c sl tp = run_bars bars signals c sl tp"
  unfolding run_bars_def
proof (rule res_fold_cong)
  fix i st
  assume "i \<in> set [0..<length bars]"
  moreover have "group_signals (filter (actionable bars) signals) t = group_signals signals t"
    if "t \<in> set (map bar_timestamp (butlast bars))" for t
    using that by (simp add: group_signals_eq actionable_def) (intro filter_cong, auto)
  ultimately show "process_bar bars (group_signals (filter (actionable bars) signals)) sl tp st i =
      process_bar bars (group_signals signals) sl tp st i"
    using process_bar_past[of i bars "group_signals (filter (actionable bars) signals)" "group_signals signals" "[]"] by simp
qed

lemma stop_level_le:
  assumes "0 < x" "0 < p" "representable p"
  shows "stop_level p x \<le> p"
proof -
  have "dsub 1 (dec_round (x / 100)) \<le> 1"
    using dc.rnd_nonneg[of "x / 100"] assms(1) representable_scaled[of 1 0]
    by (simp add: dsub_def dc.rnd_le_fits)
  then have "p * dsub 1 (dec_round (x / 100)) \<le> p"
    using assms(2) by (simp add: mult_le_cancel_left1)
  then show ?thesis
    unfolding stop_level_def dmul_def using assms(3) by (rule dc.rnd_le_fits)
qed

lemma take_profit_level_ge:
  assumes "0 < x" "0 < p" "representable p"
  shows "p \<le> take_profit_level p x"
proof -
  have "1 \<le> dadd 1 (dec_round (x / 100))"
    using dc.rnd_nonneg[of "x / 100"] assms(1) representable_scaled[of 1 0]
    by (simp add: dadd_def dc.rnd_ge_fits)
  then have "p \<le> p * dadd 1 (dec_round (x / 100))"
    using assms(2) by (simp add: mult_le_cancel_left1)
  then show ?thesis
    unfolding take_profit_level_def dmul_def using assms(3) by (rule dc.rnd_ge_fits)
qed

text \<open>
  C2. Every completed trade is genuine: it was entered at the open of some bar \<open>i > 0\<close> because of
  a buy signal stamped with the bar before it, and left at a bar \<open>j\<close> not before \<open>i\<close>: at the open
  after a sell signal, or strictly after the entry bar at a breached stop-loss or take-profit
  level (the bar's open if it already gapped through, else the level itself), or at the close of
  the last bar. Its profit is proceeds minus cost.
\<close>

theorem engine_trades_genuine:
  assumes "execute_long_only_signals bars signals c sl tp = Inr r"
    and "valid_bars bars" "representable c" "t \<in> set (er_completed_trades r)"
  shows "trade_ok bars signals sl tp t"
  using execute_trade_facts(1)[OF assms(1-3)] assms(4) by (simp add: list_all_iff)

theorem engine_trades_genuine_witness:
  "sample_stop_trade \<in> set (er_completed_trades sample_result) \<and>
   trade_ok sample_bars sample_signals (Some 5) (Some 20) sample_stop_trade"
  using engine_trades_genuine[OF sample_run sample_bars_valid sample_cash_representable,
      of sample_stop_trade]
  by (simp add: sample_result_def sample_trades_def)

text \<open>
  C3. No signal that can be acted on is lost or used twice. With distinct bar timestamps, the signals
  stamped with a bar other than the last are, as a multiset of timestamps and sides, exactly the
  ignored ones, the buy signal of every completed trade, and the sell signal of every trade that a
  signal closed. Any other signal, of the last bar or of no bar, has no next open to be filled at: without
  these signals the run is the same.
\<close>

theorem engine_signal_accounting:
  assumes "execute_long_only_signals bars signals c sl tp = Inr r"
    and "valid_bars bars" "representable c" "distinct (map bar_timestamp bars)"
  shows "mset (filter (actionable bars) signals) =
      mset (er_ignored_signals r) + mset (concat (map signal_uses (er_completed_trades r))) \<and>
    execute_long_only_signals bars (filter (actionable bars) signals) c sl tp = Inr r"
  using execute_trade_facts(2)[OF assms(1-3)] pending_actionable[OF assms(4), of signals] assms(1)
  by (simp add: execute_long_only_signals_def run_bars_actionable)

theorem engine_signal_accounting_witness:
  "mset (filter (actionable sample_bars) sample_signals) =
     mset (er_ignored_signals sample_result) + mset (concat (map signal_uses (er_completed_trades sample_result))) \<and>
   er_completed_trades sample_result \<noteq> []"
  using engine_signal_accounting[OF sample_run sample_bars_valid sample_cash_representable sample_bars_distinct]
  by (simp add: sample_result_def sample_trades_def)

text \<open>
  C4. Risk controls do what their names say, rounding included: a stop-loss exit never books a
  profit and a take-profit exit never books a loss, and neither happens unless that control was
  configured.
\<close>

theorem engine_risk_exits:
  assumes "execute_long_only_signals bars signals c sl tp = Inr r"
    and "valid_bars bars" "representable c" "t \<in> set (er_completed_trades r)"
  shows "(t_exit_reason t = STOP_LOSS \<longrightarrow> sl \<noteq> None \<and> t_profit_loss t \<le> 0) \<and>
         (t_exit_reason t = TAKE_PROFIT \<longrightarrow> tp \<noteq> None \<and> 0 \<le> t_profit_loss t)"
proof -
  have ok: "trade_ok bars signals sl tp t"
    using execute_trade_facts(1)[OF assms(1-3)] assms(4) by (simp add: list_all_iff)
  then obtain i j where ij: "i < length bars" "j < length bars" "t_entry_price t = open_price (bars ! i)"
    and ex: "exit_ok bars signals sl tp i j t"
    by (auto simp: trade_ok_def entry_ok_def)
  have p: "0 < t_entry_price t" "representable (t_entry_price t)"
    using ij valid_bars_nth[OF assms(2) ij(1)] valid_bar_pos valid_bar_representable by simp_all
  have rc: "risk_control_ok sl" "risk_control_ok tp"
    using assms(1) by (auto simp: result_simps)
  have q: "0 \<le> (of_int (t_quantity t) :: rat)"
    and pl: "t_profit_loss t = dsub (dmul (of_int (t_quantity t)) (t_exit_price t))
                            (dmul (of_int (t_quantity t)) (t_entry_price t))"
    using ok by (simp_all add: trade_ok_def)
  have "sl \<noteq> None \<and> t_exit_price t \<le> t_entry_price t" if "t_exit_reason t = STOP_LOSS"
    using that ex rc(1) stop_level_le[OF _ p]
    by (auto simp: exit_ok_def risk_control_ok_def split: option.splits intro: order_trans)
  moreover have "tp \<noteq> None \<and> t_entry_price t \<le> t_exit_price t" if "t_exit_reason t = TAKE_PROFIT"
    using that ex rc(2) take_profit_level_ge[OF _ p]
    by (auto simp: exit_ok_def risk_control_ok_def split: option.splits intro: order_trans)
  ultimately show ?thesis
    using dmul_mono_right[OF q] by (auto simp: pl intro: dsub_nonpos dsub_nonneg)
qed

theorem engine_risk_exits_witness:
  "sample_stop_trade \<in> set (er_completed_trades sample_result) \<and>
   t_exit_reason sample_stop_trade = STOP_LOSS \<and> t_profit_loss sample_stop_trade \<le> 0"
  using engine_risk_exits[OF sample_run sample_bars_valid sample_cash_representable,
      of sample_stop_trade]
  by (simp add: sample_result_def sample_trades_def sample_stop_trade_def)

end
