(* ===== verification/Engine_Exactness.thy ===== *)
theory Engine_Exactness
  imports Engine_Trades
begin

text \<open>
  When the decimal arithmetic is exact: on bars with at most eight decimals and with trades
  that stay below the precision, no operation of a run rounds, and the books balance to the last
  digit.
\<close>

definition money_ok :: "rat \<Rightarrow> bool" where
  \<comment> \<open>an amount the eight-decimal grid holds exactly within 28 digits\<close>
  "money_ok x \<longleftrightarrow> on_grid 8 x \<and> \<bar>x\<bar> < 10 ^ 20"

definition trade_exact :: "completed_trade \<Rightarrow> bool" where
  "trade_exact t \<longleftrightarrow>
     on_grid 8 (t_exit_price t) \<and> of_int (t_quantity t) * t_exit_price t \<le> 10 ^ 19"

definition exact_profit :: "completed_trade \<Rightarrow> rat" where
  "exact_profit t = of_int (t_quantity t) * (t_exit_price t - t_entry_price t)"

definition books :: "decimal \<Rightarrow> engine_state \<Rightarrow> bool" where
  \<comment> \<open>cash is the starting cash plus all profits minus the cost of the open position\<close>
  "books c st \<longleftrightarrow>
     on_grid 8 (cash st) \<and> cash st \<le> (if 0 < quantity st then 10 ^ 10 else 2 * 10 ^ 19) \<and>
     map t_profit_loss (completed_trades st) = map exact_profit (completed_trades st) \<and>
     dsum (map t_profit_loss (completed_trades st)) = sum_list (map exact_profit (completed_trades st)) \<and>
     (case entry_price st of
        None \<Rightarrow> cash st = c + sum_list (map exact_profit (completed_trades st))
      | Some p \<Rightarrow>
          on_grid 8 p \<and> of_int (quantity st) * p \<le> 2 * 10 ^ 19 \<and>
          cash st = c + sum_list (map exact_profit (completed_trades st)) - of_int (quantity st) * p)"

lemma money_ok_round: "money_ok x \<Longrightarrow> dec_round x = x"
  unfolding money_ok_def by (rule dc.rnd_id, rule on_grid_representable[of 8]) auto

lemma dsum_snoc: "dsum (xs @ [x]) = dadd (dsum xs) x"
  by (simp add: dsum_def)

lemma books_flat:
  "books c st \<Longrightarrow> entry_price st = None \<Longrightarrow>
   cash st = c + dsum (map t_profit_loss (completed_trades st))"
  by (simp add: books_def)

lemma books_open:
  assumes b: "books c st" and inv: "portfolio_inv sl tp j st" and q0: "quantity st = 0"
    and q: "dfloordiv (cash st) (open_price bar) = Inr q" "0 < q" and bar: "valid_bar bar"
  shows "books c (open_position sl tp i bar s q st)"
proof -
  have flat: "entry_price st = None" "0 < cash st"
    using portfolio_inv_flat[OF inv q0] by (auto simp: is_flat_def)
  have op: "0 < open_price bar" "on_grid 8 (open_price bar)" "open_price bar < 10 ^ 10"
    using bar by (auto simp: valid_bar_def numeric_18_8_def abs_if split: if_splits)
  note d = dfloordiv_Inr_nonneg[OF q(1) less_imp_le[OF flat(2)] op(1)]
  have cost: "0 \<le> of_int q * open_price bar" "of_int q * open_price bar \<le> cash st"
    "cash st - of_int q * open_price bar < open_price bar"
    using d op q(2) by (auto simp: algebra_simps)
  have bd: "cash st \<le> 2 * 10 ^ 19" "on_grid 8 (cash st)"
    using b q0 by (simp_all add: books_def)
  have gc: "on_grid 8 (of_int q * open_price bar)"
    using op(2) by (rule on_grid_mult_int)
  then have "money_ok (of_int q * open_price bar)"
    using cost bd by (auto simp: money_ok_def)
  then have m: "dmul (of_int q) (open_price bar) = of_int q * open_price bar"
    by (simp add: dmul_def money_ok_round)
  have "money_ok (cash st - of_int q * open_price bar)"
    using on_grid_diff[OF bd(2) gc] cost op(3) by (auto simp: money_ok_def)
  then have s: "dsub (cash st) (of_int q * open_price bar) = cash st - of_int q * open_price bar"
    by (simp add: dsub_def money_ok_round)
  have b': "map t_profit_loss (completed_trades st) = map exact_profit (completed_trades st)"
    "dsum (map t_profit_loss (completed_trades st)) = sum_list (map exact_profit (completed_trades st))"
    "c + sum_list (map exact_profit (completed_trades st)) = cash st"
    using b unfolding books_def flat(1) option.case by metis+
  have "of_int q * open_price bar \<le> 2 * 10 ^ 19" "cash st - of_int q * open_price bar \<le> 10 ^ 10"
    using cost bd op by simp_all
  then show ?thesis
    using b' q(2) op(2) on_grid_diff[OF bd(2) gc]
    by (simp add: books_def open_position_def m s)
qed

lemma books_close:
  assumes b: "books c st" and inv: "portfolio_inv sl tp j st" and q0: "0 < quantity st"
    and cl: "close_position bar x r st = Inr (c', t)" and x: "0 < x"
    and ex: "trade_exact t" and c: "0 < c" "c \<le> 10 ^ 19" "on_grid 8 c"
    and t': "t' = t\<lparr>t_exit_signal_timestamp := es\<rparr>"
  shows "books c (flatten_position c' t' st)"
proof -
  let ?q = "of_int (quantity st) :: rat"
  obtain p where p: "entry_price st = Some p" "t_entry_price t = p" "t_quantity t = quantity st"
    "t_exit_price t = x" "c' = dadd (cash st) (dmul ?q x)"
    "t_profit_loss t = dsub (dmul ?q x) (dmul ?q p)"
    using cl by (auto simp: close_position_Inr_iff)
  have cash0: "0 \<le> cash st"
    using portfolio_inv_long[OF inv q0] by simp
  have p0: "0 < p"
    using portfolio_inv_long[OF inv q0] p(1) by (auto simp: is_long_def split: option.splits)
  let ?S = "sum_list (map exact_profit (completed_trades st))"
  have g: "on_grid 8 p" "?q * p \<le> 2 * 10 ^ 19" "cash st = c + ?S - ?q * p" "on_grid 8 (cash st)"
    "cash st \<le> 10 ^ 10" "dsum (map t_profit_loss (completed_trades st)) = ?S"
    using b unfolding books_def p(1) option.case if_P[OF q0] by blast+
  have bt: "map t_profit_loss (completed_trades st) = map exact_profit (completed_trades st)"
    using b by (simp add: books_def)
  have e: "on_grid 8 x" "?q * x \<le> 10 ^ 19"
    using ex p by (simp_all add: trade_exact_def)
  have pos: "0 < ?q * p" "0 < ?q * x"
    using q0 p0 x by simp_all
  have gp: "on_grid 8 (?q * p)" "on_grid 8 (?q * x)"
    using g(1) e(1) by (simp_all add: on_grid_mult_int)
  have "money_ok (?q * p)" "money_ok (?q * x)" "money_ok (?q * x - ?q * p)" "money_ok (cash st + ?q * x)"
    using gp pos g e cash0 on_grid_diff[OF gp(2,1)] on_grid_add[OF g(4) gp(2)]
    by (auto simp: money_ok_def)
  then have m: "dmul ?q p = ?q * p" "dmul ?q x = ?q * x" "dsub (?q * x) (?q * p) = ?q * x - ?q * p"
    "dadd (cash st) (?q * x) = cash st + ?q * x"
    by (simp_all add: dmul_def dsub_def dadd_def money_ok_round)
  have pl: "t_profit_loss t = exact_profit t"
    using p m by (simp add: exact_profit_def right_diff_distrib)
  have S: "?S + exact_profit t = cash st + ?q * x - c"
    using g(3) p by (simp add: exact_profit_def algebra_simps)
  have "money_ok (?S + exact_profit t)"
    unfolding S using on_grid_diff[OF on_grid_add[OF g(4) gp(2)] c(3)] g(5) e(2) c cash0 pos(2)
    by (auto simp: money_ok_def abs_if)
  then have "dadd ?S (exact_profit t) = ?S + exact_profit t"
    by (simp add: dadd_def money_ok_round)
  then have sum: "dsum (map t_profit_loss (completed_trades st @ [t'])) = ?S + exact_profit t"
    using g(6) pl t' by (simp add: dsum_snoc)
  have "exact_profit t' = exact_profit t" "t_profit_loss t' = t_profit_loss t"
    by (simp_all add: t' exact_profit_def)
  moreover have "cash st + ?q * x \<le> 2 * 10 ^ 19"
    using g(5) e(2) by simp
  moreover have "c + (?S + exact_profit t) = cash st + ?q * x"
    using S by linarith
  ultimately show ?thesis
    using bt sum pl p(5) m(2,4) on_grid_add[OF g(4) gp(2)]
    by (simp add: books_def flatten_position_def cleared_position_def)
qed

definition trades_exact :: "engine_state \<Rightarrow> bool" where
  "trades_exact st \<longleftrightarrow> list_all trade_exact (completed_trades st)"

lemma books_step:
  assumes step: "position_step sl tp i bar st e st'"
    and inv: "portfolio_inv sl tp (Suc i) st" "valid_bar bar" "risk_control_ok tp"
    and b: "trades_exact st \<longrightarrow> books c st" and ex: "trades_exact st'"
    and c: "0 < c" "c \<le> 10 ^ 19" "on_grid 8 c"
  shows "books c st'"
  using step
proof cases
  case (ignore s)
  then show ?thesis
    using b ex by (simp add: trades_exact_def books_def ignore_signal_def cong: option.case_cong)
next
  case (enter s q)
  then have "trades_exact st"
    using ex by (simp add: trades_exact_def open_position_def)
  then show ?thesis
    using b books_open[OF _ inv(1)] enter inv(2) by blast
next
  case (leave x r c' t sg t')
  then have "trades_exact st" "trade_exact t"
    using ex by (simp_all add: trades_exact_def flatten_position_def cleared_position_def trade_exact_def)
  moreover have "0 < x"
    using exit_price_pos leave inv portfolio_inv_long by blast
  ultimately show ?thesis
    using b books_close[OF _ inv(1) leave(3,4) _ _ c leave(7)] leave by simp
qed

lemma trades_grow:
  "position_steps sl tp i bar st es st' \<Longrightarrow> \<exists>ts. completed_trades st' = completed_trades st @ ts"
proof (induction rule: position_steps.induct)
  case (more st e st' es st'')
  from more.hyps(1) have "\<exists>ts. completed_trades st' = completed_trades st @ ts"
    by cases (auto simp: ignore_signal_def open_position_def flatten_position_def cleared_position_def)
  then show ?case
    using more.IH by auto
qed simp

lemma books_steps:
  assumes "position_steps sl tp i bar st es st'"
    and "portfolio_inv sl tp (Suc i) st" "valid_bar bar" "risk_control_ok tp"
    and "trades_exact st \<longrightarrow> books c st" "trades_exact st'"
    and "0 < c" "c \<le> 10 ^ 19" "on_grid 8 c"
  shows "books c st'"
  using assms
proof (induction rule: position_steps.induct)
  case (more st e st' es st'')
  have "trades_exact st'"
    using trades_grow[OF more.hyps(2)] more.prems by (auto simp: trades_exact_def)
  then have "books c st'"
    using books_step[OF more.hyps(1)] more.prems by blast
  then show ?case
    using more portfolio_inv_step[OF more.hyps(1)] by blast
qed simp

definition books_inv ::
    "market_bar list \<Rightarrow> decimal option \<Rightarrow> decimal option \<Rightarrow> decimal \<Rightarrow> nat \<Rightarrow> engine_state \<Rightarrow> bool" where
  "books_inv bars sl tp c i st \<longleftrightarrow>
     run_inv bars sl tp i st \<and> 0 < c \<and> c \<le> 10 ^ 19 \<and> on_grid 8 c \<and> (trades_exact st \<longrightarrow> books c st)"

lemma books_inv_process_bar:
  assumes i: "i < length bars" and inv: "books_inv bars sl tp c i st"
    and run: "process_bar bars g sl tp st i = Inr st'"
  shows "books_inv bars sl tp c (Suc i) st'"
proof -
  have r: "run_inv bars sl tp i st"
    using inv by (simp add: books_inv_def)
  then have vb: "valid_bar (bars ! i)" and tp: "risk_control_ok tp"
    and p: "portfolio_inv sl tp i st" and p': "portfolio_inv sl tp (Suc i) st"
    using i valid_bars_nth portfolio_inv_mono[of sl tp i st "Suc i"] by (auto simp: run_inv_def)
  obtain es st2 where es: "position_steps sl tp i (bars ! i) st es st2"
    "st' = mark_to_close (bars ! i) st2"
    using process_bar_steps[OF run p vb tp] by blast
  have "books c st2" if "trades_exact st2"
    using books_steps[OF es(1) p' vb tp _ that] inv by (simp add: books_inv_def)
  then have "trades_exact st' \<longrightarrow> books c st'"
    by (simp add: es(2) trades_exact_def books_def mark_to_close_def cong: option.case_cong)
  then show ?thesis
    using inv run_inv_process_bar[OF i r run] by (simp add: books_inv_def)
qed

interpretation books_loop:
  indexed_loop "process_bar bars g sl tp" "books_inv bars sl tp c" "length bars" for bars g sl tp c
  by unfold_locales (rule books_inv_process_bar)

lemma run_bars_books:
  assumes "run_bars bars signals c sl tp = Inr st" "valid_bars bars" "risk_control_ok tp"
    and "0 < c" "c \<le> 10 ^ 19" "on_grid 8 c"
  shows "books_inv bars sl tp c (length bars) st"
proof -
  have "money_ok c"
    using assms by (simp add: money_ok_def)
  then have "representable c"
    using money_ok_round by (simp add: representable_def)
  then have "books_inv bars sl tp c 0 (initial_state c)"
    using run_inv_initial[of bars tp c sl] assms
    by (simp add: books_inv_def books_def dsum_def initial_state_def)
  then show ?thesis
    using books_loop.loop_inv[OF order_refl] assms(1) unfolding run_bars_def by blast
qed

text \<open>
  C6. The books balance exactly: on stored bars, from a starting cash of at most eight decimals
  and \<open>10^19\<close>, if every completed trade left at a price with at most eight decimals and for
  proceeds of at most \<open>10^19\<close>, then the final portfolio value is the starting cash plus the
  reported total of realized profits and losses, with no rounding error anywhere in between.
\<close>

theorem engine_books_balance:
  assumes "execute_long_only_signals bars signals c sl tp = Inr r"
    and "valid_bars bars" "on_grid 8 c" "c \<le> 10 ^ 19"
    and "list_all trade_exact (er_completed_trades r)"
  shows "final_portfolio_value r = c + total_realized_profit_loss r"
proof -
  obtain st st' where run: "run_bars bars signals c sl tp = Inr st"
    and fin: "final_liquidation (last bars) st = Inr st'" and c: "0 < c" "risk_control_ok tp" "bars \<noteq> []"
    and r: "final_portfolio_value r = cash st'" "er_completed_trades r = completed_trades st'"
      "total_realized_profit_loss r = dsum (map t_profit_loss (completed_trades st'))"
    using assms(1) by (auto simp: result_simps)
  have inv: "books_inv bars sl tp c (length bars) st"
    using run_bars_books[OF run] assms c by blast
  then have p: "portfolio_inv sl tp (length bars) st"
    by (simp add: books_inv_def run_inv_def)
  show ?thesis
  proof (cases "0 < quantity st")
    case False
    then have "st' = st" "entry_price st = None"
      using fin portfolio_inv_flat[OF p] portfolio_inv_quantity[OF p]
      by (auto simp: final_liquidation_def is_flat_def)
    then show ?thesis
      using inv assms(5) r books_flat by (simp add: books_inv_def trades_exact_def)
  next
    case True
    then obtain c' t where cl: "close_position (last bars) (close_price (last bars)) FINAL_LIQUIDATION st = Inr (c', t)"
      and st': "st' = st\<lparr>cash := c', completed_trades := completed_trades st @ [t]\<rparr>"
      using fin by (auto simp: final_liquidation_def result_simps)
    then have ex: "trades_exact st" "trade_exact t"
      using assms(5) r by (simp_all add: trades_exact_def)
    have t: "t = t\<lparr>t_exit_signal_timestamp := None\<rparr>"
      using cl by (auto simp: close_position_Inr_iff)
    have "0 < close_price (last bars)"
      using assms(2) c(3) valid_bar_pos by (simp add: valid_bars_def list_all_iff)
    then have "books c (flatten_position c' t st)"
      using books_close[OF _ p True cl _ ex(2) c(1) assms(4,3) t] inv ex(1) by (simp add: books_inv_def)
    from books_flat[OF this] show ?thesis
      using r by (simp add: st' flatten_position_def cleared_position_def)
  qed
qed

lemma sample_trades_exact: "list_all trade_exact (er_completed_trades sample_result)"
  by code_simp

theorem engine_books_balance_witness:
  "list_all trade_exact (er_completed_trades sample_result) \<and>
   final_portfolio_value sample_result = 10000 + total_realized_profit_loss sample_result"
proof -
  have "on_grid 8 10000" "(10000 :: decimal) \<le> 10 ^ 19"
    by code_simp+
  then show ?thesis
    using engine_books_balance[OF sample_run sample_bars_valid _ _ sample_trades_exact]
      sample_trades_exact by blast
qed

end
