(* ===== verification/Engine_Causality.thy ===== *)
theory Engine_Causality
  imports Engine_Trades "HOL-Library.Sublist"
begin

text \<open>
  No look-ahead: what the engine reports up to a bar is determined by the bars up to that one and
  by the signals stamped before it. The history of a run only ever grows, and every prefix of the
  loop is the loop over the prefix of the bars.
\<close>

definition extends :: "engine_state \<Rightarrow> engine_state \<Rightarrow> bool" where
  \<comment> \<open>the second state's history continues the first one's\<close>
  "extends st st' \<longleftrightarrow>
     prefix (equity_curve st) (equity_curve st') \<and> prefix (completed_trades st) (completed_trades st') \<and>
     prefix (ignored_signals st) (ignored_signals st')"

lemma extends_refl [simp]: "extends st st"
  by (simp add: extends_def)

lemma extends_trans: "extends a b \<Longrightarrow> extends b c \<Longrightarrow> extends a c"
  by (auto simp: extends_def)

lemma extends_mark [simp]: "extends st (mark_to_close bar st)"
  by (simp add: extends_def mark_to_close_fields)

lemma extends_step: "position_step sl tp i bar st e st' \<Longrightarrow> extends st st'"
  by (erule position_step.cases)
    (auto simp: extends_def ignore_signal_def open_position_def flatten_position_def cleared_position_def)

lemma extends_steps: "position_steps sl tp i bar st es st' \<Longrightarrow> extends st st'"
  by (induction rule: position_steps.induct) (auto intro: extends_trans extends_step)

lemma extends_process_bar:
  assumes "i < length bars" "run_inv bars sl tp i st" "process_bar bars g sl tp st i = Inr st'"
  shows "extends st st'"
proof -
  obtain es st2 where "position_steps sl tp i (bars ! i) st es st2" "st' = mark_to_close (bars ! i) st2"
    using process_bar_steps[OF assms(3)] assms(1,2) valid_bars_nth by (auto simp: run_inv_def)
  then show ?thesis
    using extends_trans[OF extends_steps extends_mark] by blast
qed

definition history_inv ::
    "market_bar list \<Rightarrow> (timestamp \<Rightarrow> signal list) \<Rightarrow> decimal option \<Rightarrow> decimal option \<Rightarrow> engine_state \<Rightarrow>
     nat \<Rightarrow> engine_state \<Rightarrow> bool" where
  "history_inv bars g sl tp st0 i st \<longleftrightarrow>
     run_inv bars sl tp i st \<and> res_fold (process_bar bars g sl tp) st0 [0..<i] = Inr st \<and>
     (\<forall>m \<le> i. \<exists>t. res_fold (process_bar bars g sl tp) st0 [0..<m] = Inr t \<and> extends t st)"

lemma history_inv_process_bar:
  assumes "i < length bars" "history_inv bars g sl tp st0 i st" "process_bar bars g sl tp st i = Inr st'"
  shows "history_inv bars g sl tp st0 (Suc i) st'"
proof -
  have inv: "run_inv bars sl tp i st"
    and fold: "res_fold (process_bar bars g sl tp) st0 [0..<i] = Inr st"
    and past: "\<And>m. m \<le> i \<Longrightarrow> \<exists>t. res_fold (process_bar bars g sl tp) st0 [0..<m] = Inr t \<and> extends t st"
    using assms(2) by (auto simp: history_inv_def)
  have fold': "res_fold (process_bar bars g sl tp) st0 [0..<Suc i] = Inr st'"
    using fold assms(3) by (simp add: res_fold_append)
  have "\<exists>t. res_fold (process_bar bars g sl tp) st0 [0..<m] = Inr t \<and> extends t st'" if "m \<le> Suc i" for m
    using that past[of m] extends_trans[OF _ extends_process_bar[OF assms(1) inv assms(3)]] fold'
    by (cases "m = Suc i") (auto simp del: upt_Suc)
  then show ?thesis
    using run_inv_process_bar[OF assms(1) inv assms(3)] fold' by (simp add: history_inv_def del: upt_Suc)
qed

interpretation history_loop:
  indexed_loop "process_bar bars g sl tp" "history_inv bars g sl tp st0" "length bars"
  for bars g sl tp st0
  by unfold_locales (rule history_inv_process_bar)

lemma run_bars_past:
  assumes agree: "filter (\<lambda>s. sig_timestamp s \<in> set (map bar_timestamp (butlast past))) signals =
      filter (\<lambda>s. sig_timestamp s \<in> set (map bar_timestamp (butlast past))) signals'"
  shows "run_bars past signals' c sl tp =
    res_fold (process_bar (past @ future) (group_signals signals) sl tp) (initial_state c)
      [0..<length past]"
proof -
  let ?T = "set (map bar_timestamp (butlast past))"
  have "group_signals signals t = group_signals signals' t" if "t \<in> ?T" for t
  proof -
    have "filter (\<lambda>s. sig_timestamp s = t) (filter (\<lambda>s. sig_timestamp s \<in> ?T) xs) =
        filter (\<lambda>s. sig_timestamp s = t) xs" for xs :: "signal list"
      using that by (simp only: filter_filter) (intro filter_cong, auto)
    then show ?thesis
      using agree unfolding group_signals_eq by metis
  qed
  then show ?thesis
    unfolding run_bars_def by (intro res_fold_cong process_bar_past[symmetric]) auto
qed

lemma final_liquidation_trade_suffix:
  "final_liquidation bar st = Inr st' \<Longrightarrow>
   \<exists>fin. completed_trades st' = completed_trades st @ fin \<and> length fin \<le> 1 \<and>
     (\<forall>t \<in> set fin. t_exit_reason t = FINAL_LIQUIDATION)"
  by (auto simp: final_liquidation_def result_simps close_position_Inr_iff split: if_splits)

lemma lookahead_free:
  assumes run: "execute_long_only_signals (past @ future) signals c sl tp = Inr r"
    and ok: "valid_bars (past @ future)" "representable c" "past \<noteq> []"
    and agree: "filter (\<lambda>s. sig_timestamp s \<in> set (map bar_timestamp (butlast past))) signals =
      filter (\<lambda>s. sig_timestamp s \<in> set (map bar_timestamp (butlast past))) signals'"
  shows "\<exists>r'. execute_long_only_signals past signals' c sl tp = Inr r' \<and>
    er_equity_curve r' = take (length past) (er_equity_curve r) \<and>
    (\<exists>ts fin. er_completed_trades r' = ts @ fin \<and> prefix ts (er_completed_trades r) \<and>
       length fin \<le> 1 \<and> (\<forall>t \<in> set fin. t_exit_reason t = FINAL_LIQUIDATION))"
proof -
  let ?f = "process_bar (past @ future) (group_signals signals) sl tp"
  obtain st st' where full: "run_bars (past @ future) signals c sl tp = Inr st"
    and fin: "final_liquidation (last (past @ future)) st = Inr st'"
    and c: "0 < c" "risk_control_ok sl" "risk_control_ok tp"
    and r: "er_equity_curve r = equity_curve st'" "er_completed_trades r = completed_trades st'"
    using run by (auto simp: result_simps)
  have "history_inv (past @ future) (group_signals signals) sl tp (initial_state c) 0 (initial_state c)"
    using run_inv_initial[OF ok(1) c(3,1) ok(2)] by (simp add: history_inv_def)
  then have "history_inv (past @ future) (group_signals signals) sl tp (initial_state c)
      (length (past @ future)) st"
    using history_loop.loop_inv[OF order_refl _ full[unfolded run_bars_def]] by blast
  then have "\<exists>t. res_fold ?f (initial_state c) [0..<length past] = Inr t \<and> extends t st"
    unfolding history_inv_def by (metis length_append le_add1)
  then obtain t where t: "res_fold ?f (initial_state c) [0..<length past] = Inr t" "extends t st"
    by blast
  then have past: "run_bars past signals' c sl tp = Inr t"
    using run_bars_past[OF agree] by simp
  have vp: "valid_bars past"
    using ok(1) by (simp add: valid_bars_def)
  have inv: "run_inv past sl tp (length past) t"
    using run_bars_inv[OF past vp c(3,1) ok(2)] .
  then have "portfolio_inv sl tp (length past) t"
    by (simp add: run_inv_def)
  then obtain t' where t': "final_liquidation (last past) t = Inr t'"
    using final_liquidation_total by blast
  have len: "length (equity_curve t) = length past"
    using inv by (auto simp: run_inv_def dest: map_eq_imp_length_eq)
  have "prefix (equity_curve t) (equity_curve st')" "prefix (completed_trades t) (completed_trades st')"
    using t(2) final_liquidation_frame[OF fin] final_liquidation_trade_suffix[OF fin]
    by (auto simp: extends_def)
  then have "equity_curve t' = take (length past) (equity_curve st')"
    using final_liquidation_frame[OF t'] len by (auto simp: prefix_def)
  then show ?thesis
    using past t' c ok(3) r final_liquidation_trade_suffix[OF t']
      \<open>prefix (completed_trades t) (completed_trades st')\<close>
    by (auto simp: result_simps)
qed

text \<open>
  C5. No look-ahead bias. Take a run over \<open>past @ future\<close> and change anything that comes after
  the past: drop the later bars, and replace the signals by any that agree on those stamped
  before the last past bar. The run over the past alone then succeeds with the same equity curve
  up to that bar, and with the same completed trades up to that bar; the only additional trade it
  may have is the final liquidation of a position still open there.
\<close>

theorem engine_no_lookahead:
  assumes run: "execute_long_only_signals (past @ future) signals c sl tp = Inr r"
    and ok: "valid_bars (past @ future)" "representable c" "past \<noteq> []"
    and agree: "filter (\<lambda>s. sig_timestamp s \<in> set (map bar_timestamp (butlast past))) signals =
      filter (\<lambda>s. sig_timestamp s \<in> set (map bar_timestamp (butlast past))) signals'"
  shows "\<exists>r'. execute_long_only_signals past signals' c sl tp = Inr r' \<and>
    er_equity_curve r' = take (length past) (er_equity_curve r) \<and>
    (\<exists>ts fin. er_completed_trades r' = ts @ fin \<and> prefix ts (er_completed_trades r) \<and>
       length fin \<le> 1 \<and> (\<forall>t \<in> set fin. t_exit_reason t = FINAL_LIQUIDATION))"
  using lookahead_free[OF assms] .

theorem engine_no_lookahead_witness:
  "\<exists>r'. execute_long_only_signals (take 3 sample_bars) [\<lparr>sig_timestamp = 9, sig_type = BUY\<rparr>,
       \<lparr>sig_timestamp = 1, sig_type = BUY\<rparr>, \<lparr>sig_timestamp = 2, sig_type = SELL\<rparr>,
       \<lparr>sig_timestamp = 2, sig_type = SELL\<rparr>] 10000 (Some 5) (Some 20) = Inr r' \<and>
     er_equity_curve r' = take 3 (er_equity_curve sample_result)"
proof -
  have len: "length (take 3 sample_bars) = 3" "take 3 sample_bars \<noteq> []"
    by (simp_all add: sample_bars_def)
  have agree: "filter (\<lambda>s. sig_timestamp s \<in> set (map bar_timestamp (butlast (take 3 sample_bars)))) sample_signals =
      filter (\<lambda>s. sig_timestamp s \<in> set (map bar_timestamp (butlast (take 3 sample_bars))))
        [\<lparr>sig_timestamp = 9, sig_type = BUY\<rparr>, \<lparr>sig_timestamp = 1, sig_type = BUY\<rparr>,
         \<lparr>sig_timestamp = 2, sig_type = SELL\<rparr>, \<lparr>sig_timestamp = 2, sig_type = SELL\<rparr>]"
    by code_simp
  show ?thesis
    using engine_no_lookahead[of "take 3 sample_bars" "drop 3 sample_bars", unfolded append_take_drop_id,
        OF sample_run sample_bars_valid sample_cash_representable len(2) agree] len(1) by auto
qed

end
