(* ===== verification/Regex_Text.thy ===== *)
theory Regex_Text
  imports Trading_Prelude
begin

text \<open>
  The part of Python's \<open>re\<close> module that the text analysis uses, as an executable backtracking
  matcher: literals, character classes with greedy repetition, alternatives, optional parts, word
  boundaries and capture groups. A position is the character before it, if any, and the text
  after it; the matcher lists the end positions in the order in which \<open>re\<close> tries them, so the head
  of the list is the match \<open>re\<close> reports. Texts are ASCII.
\<close>

datatype char_class = Digit | Space | OneOf string

datatype regex =
    REps
  | RChar char
  | RClass char_class
  | RPlus char_class
  | RStar char_class
  | RSeq regex regex
  | RAlt regex regex
  | ROpt regex
  | RWordB
  | RGroup nat regex

type_synonym text_pos = "char option \<times> string"
type_synonym captures = "(nat \<times> string) list"

definition is_digit :: "char \<Rightarrow> bool" where
  "is_digit c \<longleftrightarrow> (let k = (of_char c :: nat) in 48 \<le> k \<and> k \<le> 57)"

definition is_space :: "char \<Rightarrow> bool" where
  \<comment> \<open>the ASCII characters of \<open>\s\<close> in a Unicode pattern\<close>
  "is_space c \<longleftrightarrow> (let k = (of_char c :: nat) in k = 32 \<or> 9 \<le> k \<and> k \<le> 13 \<or> 28 \<le> k \<and> k \<le> 31)"

definition is_word_char :: "char \<Rightarrow> bool" where
  "is_word_char c \<longleftrightarrow>
     (let k = (of_char c :: nat) in
      48 \<le> k \<and> k \<le> 57 \<or> 65 \<le> k \<and> k \<le> 90 \<or> 97 \<le> k \<and> k \<le> 122 \<or> k = 95)"

fun class_matches :: "char_class \<Rightarrow> char \<Rightarrow> bool" where
  "class_matches Digit c = is_digit c"
| "class_matches Space c = is_space c"
| "class_matches (OneOf cs) c = (c \<in> set cs)"

definition char_matches :: "bool \<Rightarrow> char \<Rightarrow> char \<Rightarrow> bool" where
  \<comment> \<open>the flag is \<open>re.IGNORECASE\<close>\<close>
  "char_matches icase p c = (if icase then char_lower p = char_lower c else p = c)"

definition word_boundary :: "text_pos \<Rightarrow> bool" where
  "word_boundary pos =
     ((case fst pos of None \<Rightarrow> False | Some c \<Rightarrow> is_word_char c) \<noteq>
      (case snd pos of [] \<Rightarrow> False | c # _ \<Rightarrow> is_word_char c))"

fun greedy :: "char_class \<Rightarrow> char option \<Rightarrow> string \<Rightarrow> text_pos list" where
  \<comment> \<open>the positions after zero or more characters of the class, longest first\<close>
  "greedy k prev [] = [(prev, [])]"
| "greedy k prev (c # cs) = (if class_matches k c then greedy k (Some c) cs else []) @ [(prev, c # cs)]"

fun regex_match :: "bool \<Rightarrow> regex \<Rightarrow> text_pos \<Rightarrow> captures \<Rightarrow> (text_pos \<times> captures) list" where
  "regex_match ic REps pos caps = [(pos, caps)]"
| "regex_match ic (RChar p) (prev, []) caps = []"
| "regex_match ic (RChar p) (prev, c # cs) caps = (if char_matches ic p c then [((Some c, cs), caps)] else [])"
| "regex_match ic (RClass k) (prev, []) caps = []"
| "regex_match ic (RClass k) (prev, c # cs) caps = (if class_matches k c then [((Some c, cs), caps)] else [])"
| "regex_match ic (RPlus k) (prev, []) caps = []"
| "regex_match ic (RPlus k) (prev, c # cs) caps =
     (if class_matches k c then map (\<lambda>p. (p, caps)) (greedy k (Some c) cs) else [])"
| "regex_match ic (RStar k) (prev, t) caps = map (\<lambda>p. (p, caps)) (greedy k prev t)"
| "regex_match ic (RSeq a b) pos caps =
     concat (map (\<lambda>(pos', caps'). regex_match ic b pos' caps') (regex_match ic a pos caps))"
| "regex_match ic (RAlt a b) pos caps = regex_match ic a pos caps @ regex_match ic b pos caps"
| "regex_match ic (ROpt a) pos caps = regex_match ic a pos caps @ [(pos, caps)]"
| "regex_match ic RWordB pos caps = (if word_boundary pos then [(pos, caps)] else [])"
| "regex_match ic (RGroup g a) pos caps =
     map (\<lambda>(pos', caps'). (pos', (g, take (length (snd pos) - length (snd pos')) (snd pos)) # caps'))
       (regex_match ic a pos caps)"

definition match_at :: "bool \<Rightarrow> regex \<Rightarrow> text_pos \<Rightarrow> (text_pos \<times> captures) option" where
  "match_at ic r pos = (case regex_match ic r pos [] of [] \<Rightarrow> None | m # _ \<Rightarrow> Some m)"

fun search_from :: "bool \<Rightarrow> regex \<Rightarrow> char option \<Rightarrow> string \<Rightarrow> captures option" where
  "search_from ic r prev [] = map_option snd (match_at ic r (prev, []))"
| "search_from ic r prev (c # cs) =
     (case match_at ic r (prev, c # cs) of
        Some m \<Rightarrow> Some (snd m)
      | None \<Rightarrow> search_from ic r (Some c) cs)"

definition re_search :: "bool \<Rightarrow> regex \<Rightarrow> string \<Rightarrow> captures option" where
  "re_search ic r t = search_from ic r None t"

text \<open>
  \<open>finditer\<close>: the leftmost matches, each search continuing where the previous match ended. The
  patterns of the program never match the empty text; for one that did, the scan moves on by a
  character.
\<close>

function finditer_from :: "bool \<Rightarrow> regex \<Rightarrow> char option \<Rightarrow> string \<Rightarrow> captures list" where
  "finditer_from ic r prev [] = (case match_at ic r (prev, []) of None \<Rightarrow> [] | Some m \<Rightarrow> [snd m])"
| "finditer_from ic r prev (c # cs) =
     (case match_at ic r (prev, c # cs) of
        None \<Rightarrow> finditer_from ic r (Some c) cs
      | Some ((prev', rest), caps) \<Rightarrow>
          caps # (if length rest < length (c # cs) then finditer_from ic r prev' rest
                  else finditer_from ic r (Some c) cs))"
  by pat_completeness auto
termination
  by (relation "measure (\<lambda>(_, _, _, t). length t)") auto

definition re_finditer :: "bool \<Rightarrow> regex \<Rightarrow> string \<Rightarrow> captures list" where
  "re_finditer ic r t = finditer_from ic r None t"

definition capture :: "nat \<Rightarrow> captures \<Rightarrow> string" where
  "capture g caps = (case map_of caps g of None \<Rightarrow> [] | Some t \<Rightarrow> t)"

definition RText :: "string \<Rightarrow> regex" where
  \<comment> \<open>a literal text\<close>
  "RText t = foldr (\<lambda>c r. RSeq (RChar c) r) t REps"

definition RSeqs :: "regex list \<Rightarrow> regex" where
  "RSeqs rs = foldr RSeq rs REps"

fun contains_text :: "string \<Rightarrow> string \<Rightarrow> bool" where
  \<comment> \<open>\<open>needle in haystack\<close>\<close>
  "contains_text needle [] = (needle = [])"
| "contains_text needle (c # cs) = (take (length needle) (c # cs) = needle \<or> contains_text needle cs)"

end
