(* ===== verification/Strategy_Spec.thy ===== *)
theory Strategy_Spec
  imports Decimal_Context
begin

text \<open>
  The strategy specification of \<open>app/schemas/strategy_spec.py\<close> with the checks of
  \<open>validate_strategy_semantics\<close> (\<open>app/services/strategy_semantics.py\<close>). A field that the schema
  restricts to a literal keeps its underlying type here; \<open>spec_schema\<close> is what constructing the
  model checks.
\<close>

datatype indicator_name = SMA | EMA

datatype operator =
    CROSSES_ABOVE | CROSSES_BELOW | GREATER_THAN | LESS_THAN
  | GREATER_THAN_OR_EQUAL | LESS_THAN_OR_EQUAL

datatype operand =
    IndicatorOperand (op_name: indicator_name) (op_source: string) (op_period: int)
  | PriceOperand (op_source: string)
  | ConstantOperand (op_value: decimal)

record condition =
  cond_left :: operand
  cond_operator :: operator
  cond_right :: operand

record execution_settings =
  direction :: string
  position_size_percent :: int
  signal_execution :: string

record strategy_specification =
  spec_version :: string
  spec_symbol :: string
  spec_interval :: string
  spec_entry :: condition
  spec_exit :: condition
  spec_execution :: execution_settings
  spec_stop_loss_percent :: "decimal option"
  spec_take_profit_percent :: "decimal option"

definition MAX_RISK_PERCENT :: decimal where
  "MAX_RISK_PERCENT = 50"

definition percent_field_schema :: "decimal option \<Rightarrow> bool" where
  \<comment> \<open>\<open>Field(default=None, gt=0, le=MAX_RISK_PERCENT)\<close>\<close>
  "percent_field_schema v \<longleftrightarrow> (case v of None \<Rightarrow> True | Some x \<Rightarrow> 0 < x \<and> x \<le> MAX_RISK_PERCENT)"

definition operand_schema :: "operand \<Rightarrow> bool" where
  "operand_schema opnd \<longleftrightarrow>
     (case opnd of IndicatorOperand _ src _ \<Rightarrow> src = ''close''
      | PriceOperand src \<Rightarrow> src = ''close'' | ConstantOperand _ \<Rightarrow> True)"

definition condition_schema :: "condition \<Rightarrow> bool" where
  "condition_schema c \<longleftrightarrow> operand_schema (cond_left c) \<and> operand_schema (cond_right c)"

definition execution_schema :: "execution_settings \<Rightarrow> bool" where
  "execution_schema e \<longleftrightarrow>
     direction e = ''long'' \<and> position_size_percent e = 100 \<and> signal_execution e = ''next_bar_open''"

definition spec_schema :: "strategy_specification \<Rightarrow> bool" where
  "spec_schema s \<longleftrightarrow>
     spec_version s = ''1.0'' \<and> spec_symbol s = ''SPY'' \<and> spec_interval s = ''1d'' \<and>
     condition_schema (spec_entry s) \<and> condition_schema (spec_exit s) \<and>
     execution_schema (spec_execution s) \<and>
     percent_field_schema (spec_stop_loss_percent s) \<and>
     percent_field_schema (spec_take_profit_percent s)"

subsection \<open>Semantic validation\<close>

definition validate_risk_percent :: "decimal option \<Rightarrow> string \<Rightarrow> unit result" where
  "validate_risk_percent v label =
     (case v of None \<Rightarrow> Inr ()
      | Some x \<Rightarrow>
          raise_if (x \<le> 0 \<or> MAX_RISK_PERCENT < x)
            (StrategyValidationError (label @ '' must be greater than 0% and no greater than 50%.'')))"

definition validate_operand :: "operand \<Rightarrow> string \<Rightarrow> unit result" where
  "validate_operand opnd field_name =
     (case opnd of
        IndicatorOperand nm src period \<Rightarrow>
          res_bind (raise_if (src \<noteq> ''close'')
                     (StrategyValidationError ''Only raw close price is currently supported.'')) (\<lambda>_.
          raise_if (\<not> (1 \<le> period \<and> period \<le> 1000))
            (StrategyValidationError ''Indicator periods must be positive integers no greater than 1,000.''))
      | PriceOperand src \<Rightarrow>
          raise_if (src \<noteq> ''close'')
            (StrategyValidationError ''Only raw close price is currently supported.'')
      | ConstantOperand _ \<Rightarrow> Inr ())"

definition validate_condition :: "condition \<Rightarrow> string \<Rightarrow> unit result" where
  "validate_condition c field_name =
     res_bind (validate_operand (cond_left c) field_name) (\<lambda>_.
     validate_operand (cond_right c) field_name)"

definition validate_strategy_semantics :: "strategy_specification \<Rightarrow> unit result" where
  "validate_strategy_semantics s =
     res_bind (raise_if (spec_symbol s \<noteq> ''SPY'')
                (StrategyValidationError ''Only SPY is supported in version 1.'')) (\<lambda>_.
     res_bind (raise_if (spec_interval s \<noteq> ''1d'')
                (StrategyValidationError ''Only daily (1d) bars are supported in version 1.'')) (\<lambda>_.
     res_bind (raise_if (direction (spec_execution s) \<noteq> ''long'')
                (StrategyValidationError ''Only long-only strategies are supported in version 1.'')) (\<lambda>_.
     res_bind (raise_if (position_size_percent (spec_execution s) \<noteq> 100)
                (StrategyValidationError ''Position size must be exactly 100% in version 1.'')) (\<lambda>_.
     res_bind (raise_if (signal_execution (spec_execution s) \<noteq> ''next_bar_open'')
                (StrategyValidationError ''Signals must execute at the next available bar open.'')) (\<lambda>_.
     res_bind (validate_condition (spec_entry s) ''entry'') (\<lambda>_.
     res_bind (validate_condition (spec_exit s) ''exit'') (\<lambda>_.
     res_bind (validate_risk_percent (spec_stop_loss_percent s) ''Stop-loss'') (\<lambda>_.
     validate_risk_percent (spec_take_profit_percent s) ''Take-profit''))))))))"

subsection \<open>What passes\<close>

definition operand_ok :: "operand \<Rightarrow> bool" where
  "operand_ok opnd \<longleftrightarrow> operand_schema opnd \<and>
     (case opnd of IndicatorOperand _ _ period \<Rightarrow> 1 \<le> period \<and> period \<le> 1000 | _ \<Rightarrow> True)"

definition condition_ok :: "condition \<Rightarrow> bool" where
  "condition_ok c \<longleftrightarrow> operand_ok (cond_left c) \<and> operand_ok (cond_right c)"

lemma validate_operand_iff [result_simps]: "validate_operand opnd nm = Inr u \<longleftrightarrow> operand_ok opnd"
  by (auto simp: validate_operand_def operand_ok_def operand_schema_def result_simps split: operand.splits)

lemma validate_condition_iff [result_simps]: "validate_condition c nm = Inr u \<longleftrightarrow> condition_ok c"
  by (auto simp: validate_condition_def condition_ok_def result_simps)

lemma validate_risk_percent_iff [result_simps]:
  "validate_risk_percent v nm = Inr u \<longleftrightarrow> percent_field_schema v"
  by (auto simp: validate_risk_percent_def percent_field_schema_def split: option.splits)

lemma validate_semantics_iff [result_simps]:
  "validate_strategy_semantics s = Inr u \<longleftrightarrow>
     spec_symbol s = ''SPY'' \<and> spec_interval s = ''1d'' \<and> execution_schema (spec_execution s) \<and>
     condition_ok (spec_entry s) \<and> condition_ok (spec_exit s) \<and>
     percent_field_schema (spec_stop_loss_percent s) \<and>
     percent_field_schema (spec_take_profit_percent s)"
  by (auto simp: validate_strategy_semantics_def execution_schema_def result_simps)

lemma validate_operand_error: "validate_operand opnd nm = Inl e \<Longrightarrow> \<exists>m. e = StrategyValidationError m"
  by (auto simp: validate_operand_def result_simps split: operand.splits)

lemma validate_condition_error: "validate_condition c nm = Inl e \<Longrightarrow> \<exists>m. e = StrategyValidationError m"
  by (auto simp: validate_condition_def result_simps dest: validate_operand_error)

lemma validate_risk_percent_error:
  "validate_risk_percent v nm = Inl e \<Longrightarrow> \<exists>m. e = StrategyValidationError m"
  by (auto simp: validate_risk_percent_def split: option.splits)

lemma validate_semantics_error:
  "validate_strategy_semantics s = Inl e \<Longrightarrow> \<exists>m. e = StrategyValidationError m"
  by (auto simp: validate_strategy_semantics_def result_simps
      dest: validate_condition_error validate_risk_percent_error)

end
