(* ===== verification/Strategy_Semantics.thy ===== *)
theory Strategy_Semantics
  imports Regex_Text Strategy_Spec
begin

text \<open>
  Analysis of the user's text (\<open>app/services/strategy_semantics.py\<close>): the rejected vocabulary, the
  extraction of explicit stop-loss and take-profit percentages, and the shorthand hints. The
  rendering of a decimal in the message on conflicting values is the parameter \<open>str_decimal\<close>.
\<close>

definition UNSUPPORTED_LANGUAGE :: "(string \<times> string) list" where
  "UNSUPPORTED_LANGUAGE =
     [(''rsi'', ''RSI is not supported in version 1.''),
      (''macd'', ''MACD is not supported in version 1.''),
      (''bollinger'', ''Bollinger Bands are not supported in version 1.''),
      (''volume'', ''Volume rules and volume indicators are not supported in version 1.''),
      (''trailing stop'', ''Trailing stops are not supported in version 1.''),
      (''short '', ''Short selling is not supported in version 1.''),
      (''leverage'', ''Leverage is not supported in version 1.''),
      (''option'', ''Options are not supported in version 1.''),
      (''news'', ''News-based rules are not supported in version 1.''),
      (''sentiment'', ''Sentiment-based rules are not supported in version 1.''),
      (''fundamental'', ''Fundamental-based rules are not supported in version 1.''),
      (''earnings'', ''Earnings-based rules are not supported in version 1.''),
      (''analyst'', ''Analyst-rating rules are not supported in version 1.''),
      (''python code'', ''Code generation is not supported for strategies.''),
      (''sql query'', ''SQL generation is not supported for strategies.''),
      (''select *'', ''SQL generation is not supported for strategies.'')]"

definition quote_char :: string where
  "quote_char = [CHR 0x27]"

definition AMBIGUOUS_LANGUAGE :: "(string \<times> string) list" where
  "AMBIGUOUS_LANGUAGE =
     [(''looks strong'',
       ''Specify a supported price or moving-average condition instead of '' @ quote_char @
       ''looks strong'' @ quote_char @ ''.''),
      (''momentum'',
       ''Momentum is undefined here. Specify a supported price or moving-average condition.''),
      (''risk increases'',
       ''Risk is undefined here. Specify a supported price or moving-average condition.''),
      (''conditions are favorable'', ''Specify a supported price or moving-average condition.''),
      (''good moving average'', ''Specify explicit moving-average periods.''),
      (''tight stop'', ''Specify an explicit stop-loss percentage.''),
      (''take profit when appropriate'', ''Specify an explicit take-profit percentage.''),
      (''control my downside'', ''Specify an explicit stop-loss percentage.''),
      (''good risk management'', ''Specify an explicit stop-loss or take-profit percentage.'')]"

subsection \<open>Patterns\<close>

definition PERCENT_VALUE :: regex where
  \<comment> \<open>group 0 is \<open>value\<close>\<close>
  "PERCENT_VALUE =
     RSeqs [RGroup 0 (RSeq (ROpt (RClass (OneOf ''+-'')))
              (RAlt (RSeq (RPlus Digit) (ROpt (RSeq (RChar (CHR ''.'')) (RPlus Digit))))
                    (RSeq (RChar (CHR ''.'')) (RPlus Digit)))),
            RStar Space,
            RAlt (RChar (CHR ''%'')) (RSeq (RText ''percent'') RWordB)]"

definition dashed :: "string \<Rightarrow> string \<Rightarrow> regex" where
  "dashed a b = RSeqs [RText a, RClass (OneOf ''- ''), RText b]"

definition of_or_at :: regex where
  "of_or_at = ROpt (RSeq (RPlus Space) (RAlt (RText ''of'') (RText ''at'')))"

definition lose_forms :: regex where
  "lose_forms = RSeq (RText ''los'') (RAlt (RText ''e'') (RAlt (RText ''es'') (RText ''ing'')))"

definition gain_forms :: regex where
  "gain_forms = RSeq (RText ''gain'') (ROpt (RAlt (RText ''s'') (RText ''ing'')))"

definition STOP_LOSS_PATTERNS :: "regex list" where
  "STOP_LOSS_PATTERNS =
     [RSeqs [PERCENT_VALUE, RPlus Space, dashed ''stop'' ''loss'', RWordB],
      RSeqs [RWordB, dashed ''stop'' ''loss'', of_or_at, RPlus Space, PERCENT_VALUE],
      RSeqs [RWordB, ROpt (RSeq (RText ''the'') (RPlus Space)), RText ''position'', RPlus Space,
             lose_forms, RPlus Space, PERCENT_VALUE]]"

definition TAKE_PROFIT_PATTERNS :: "regex list" where
  "TAKE_PROFIT_PATTERNS =
     [RSeqs [PERCENT_VALUE, RPlus Space, dashed ''take'' ''profit'', RWordB],
      RSeqs [RWordB, dashed ''take'' ''profit'', of_or_at, RPlus Space, PERCENT_VALUE],
      RSeqs [RWordB, gain_forms, RPlus Space, PERCENT_VALUE]]"

definition STOP_LOSS_PHRASE :: regex where
  "STOP_LOSS_PHRASE =
     RAlt (RSeqs [RWordB, dashed ''stop'' ''loss'', RWordB])
    (RAlt (RSeqs [RWordB, RText ''position'', RPlus Space, lose_forms, RWordB])
          (RSeqs [RWordB, RText ''tight'', RPlus Space, RText ''stop'', RWordB]))"

definition TAKE_PROFIT_PHRASE :: regex where
  "TAKE_PROFIT_PHRASE =
     RAlt (RSeqs [RWordB, dashed ''take'' ''profit'', RWordB]) (RSeqs [RWordB, gain_forms, RWordB])"

definition MOVING_AVERAGE_PERIOD :: regex where
  "MOVING_AVERAGE_PERIOD =
     RSeqs [RWordB, RPlus Digit, RStar Space,
            RAlt (RSeqs [ROpt (RChar (CHR ''-'')), RText ''day'', RWordB]) (RChar (CHR ''/'')),
            RStar Space, RStar Digit]"

definition CROSSOVER_SHORTHAND :: regex where
  "CROSSOVER_SHORTHAND =
     RSeqs [RWordB, RGroup 1 (RPlus Digit), RStar Space, RChar (CHR ''/''), RStar Space,
            RGroup 2 (RPlus Digit), RStar Space, ROpt (RSeq (RText ''day'') (RStar Space)),
            RText ''crossover'', RWordB]"

subsection \<open>Numerals\<close>

definition digit_value :: "char \<Rightarrow> int" where
  "digit_value c = int (of_char c) - 48"

definition int_of_digits :: "string \<Rightarrow> int" where
  "int_of_digits ds = foldl (\<lambda>n c. 10 * n + digit_value c) 0 ds"

definition unsigned_decimal :: "string \<Rightarrow> decimal option" where
  "unsigned_decimal t =
     (let whole = takeWhile is_digit t; rest = dropWhile is_digit t in
      case rest of
        [] \<Rightarrow> if whole = [] then None else Some (of_int (int_of_digits whole))
      | c # fraction \<Rightarrow>
          if c = CHR ''.'' \<and> list_all is_digit fraction \<and> whole @ fraction \<noteq> []
          then Some (of_int (int_of_digits (whole @ fraction)) / 10 ^ length fraction)
          else None)"

definition decimal_of_text :: "string \<Rightarrow> decimal option" where
  \<comment> \<open>\<open>Decimal(text)\<close> for a numeral without exponent; \<open>None\<close> is \<open>InvalidOperation\<close>\<close>
  "decimal_of_text t =
     (case t of
        [] \<Rightarrow> None
      | c # cs \<Rightarrow> if c = CHR ''+'' then unsigned_decimal cs
                  else if c = CHR ''-'' then map_option uminus (unsigned_decimal cs)
                  else unsigned_decimal t)"

subsection \<open>Operations\<close>

record risk_controls =
  rc_stop_loss_percent :: "decimal option"
  rc_take_profit_percent :: "decimal option"

definition add_value :: "string \<Rightarrow> decimal list \<Rightarrow> captures \<Rightarrow> decimal list result" where
  "add_value label vs caps =
     (case decimal_of_text (capture 0 caps) of
        None \<Rightarrow> Inl (StrategyValidationError (label @ '' must be an explicit percentage.''))
      | Some v \<Rightarrow> Inr (if v \<in> set vs then vs else vs @ [v]))"

definition join :: "string \<Rightarrow> string list \<Rightarrow> string" where
  "join sep ts = (case ts of [] \<Rightarrow> [] | t # rest \<Rightarrow> t @ concat (map (\<lambda>u. sep @ u) rest))"

definition extract_control_percent ::
    "(decimal \<Rightarrow> string) \<Rightarrow> string \<Rightarrow> regex list \<Rightarrow> regex \<Rightarrow> string \<Rightarrow> decimal option result" where
  "extract_control_percent str_decimal text patterns phrase_pattern label =
     res_bind (res_fold (add_value label) []
                 (concat (map (\<lambda>pattern. re_finditer True pattern text) patterns))) (\<lambda>vs.
     if 1 < length vs then
       Inl (StrategyValidationError (''Conflicting '' @ str_lower label @ '' percentages were provided: '' @
              join '', '' (map (\<lambda>v. str_decimal v @ ''%'') (sort vs)) @ ''.''))
     else case vs of
       v # _ \<Rightarrow> res_bind (validate_risk_percent (Some v) label) (\<lambda>_. Inr (Some v))
     | [] \<Rightarrow>
         if re_search True phrase_pattern text \<noteq> None then
           Inl (StrategyValidationError (label @
                  '' must be an explicit percentage greater than 0% and no greater than 50%.''))
         else Inr None)"

definition extract_risk_controls :: "(decimal \<Rightarrow> string) \<Rightarrow> string \<Rightarrow> risk_controls result" where
  "extract_risk_controls str_decimal text =
     res_bind (extract_control_percent str_decimal text STOP_LOSS_PATTERNS STOP_LOSS_PHRASE ''Stop-loss'') (\<lambda>sl.
     res_bind (extract_control_percent str_decimal text TAKE_PROFIT_PATTERNS TAKE_PROFIT_PHRASE ''Take-profit'') (\<lambda>tp.
     Inr \<lparr>rc_stop_loss_percent = sl, rc_take_profit_percent = tp\<rparr>))"

definition has_resolvable_moving_average :: "string \<Rightarrow> bool" where
  "has_resolvable_moving_average text \<longleftrightarrow>
     re_search False MOVING_AVERAGE_PERIOD text \<noteq> None \<or>
     contains_text ''golden cross'' text \<or> contains_text ''death cross'' text"

definition reject_phrases :: "(string \<times> string) list \<Rightarrow> string \<Rightarrow> unit result" where
  "reject_phrases phrases text =
     (case List.find (\<lambda>(phrase, _). contains_text phrase text) phrases of
        None \<Rightarrow> Inr ()
      | Some (_, message) \<Rightarrow> Inl (StrategyValidationError message))"

definition validate_strategy_text :: "(decimal \<Rightarrow> string) \<Rightarrow> string \<Rightarrow> unit result" where
  "validate_strategy_text str_decimal text =
     (let normalized_text = str_lower text in
      res_bind (reject_phrases UNSUPPORTED_LANGUAGE normalized_text) (\<lambda>_.
      res_bind (reject_phrases AMBIGUOUS_LANGUAGE normalized_text) (\<lambda>_.
      res_bind (extract_risk_controls str_decimal text) (\<lambda>_.
      raise_if (contains_text ''moving average'' normalized_text \<and>
                \<not> has_resolvable_moving_average normalized_text)
        (StrategyValidationError (''Specify moving-average periods, such as '' @ quote_char @ ''50-day SMA'' @
           quote_char @ '' or '' @ quote_char @ ''50/200 crossover'' @ quote_char @ ''.''))))))"

record normalization_hint =
  hint_name :: string
  hint_short_period :: int
  hint_long_period :: int
  hint_bullish_entry :: bool

definition find_normalization_hint :: "string \<Rightarrow> normalization_hint option" where
  "find_normalization_hint text =
     (let normalized_text = str_lower text in
      if contains_text ''golden cross'' normalized_text then
        Some \<lparr>hint_name = ''golden cross'', hint_short_period = 50, hint_long_period = 200, hint_bullish_entry = True\<rparr>
      else if contains_text ''death cross'' normalized_text then
        Some \<lparr>hint_name = ''death cross'', hint_short_period = 50, hint_long_period = 200, hint_bullish_entry = False\<rparr>
      else map_option (\<lambda>caps.
        \<lparr>hint_name = ''crossover shorthand'', hint_short_period = int_of_digits (capture 1 caps),
         hint_long_period = int_of_digits (capture 2 caps), hint_bullish_entry = True\<rparr>)
        (re_search False CROSSOVER_SHORTHAND normalized_text))"

end
