(* ===== verification/Strategy_Text.thy ===== *)
theory Strategy_Text
  imports Strategy_Semantics
begin

text \<open>
  Properties of the text analysis: it does not depend on the case of the text, what it extracts
  passes validation, and an accepted text contains none of the rejected phrases.
\<close>

subsection \<open>Case does not matter\<close>

definition low_pos :: "text_pos \<Rightarrow> text_pos" where
  "low_pos pos = (map_option char_lower (fst pos), str_lower (snd pos))"

definition low_caps :: "captures \<Rightarrow> captures" where
  "low_caps caps = map (\<lambda>(g, t). (g, str_lower t)) caps"

fun class_case_blind :: "char_class \<Rightarrow> bool" where
  "class_case_blind (OneOf cs) = list_all (\<lambda>c. (of_char c :: nat) < 65) cs"
| "class_case_blind _ = True"

fun case_blind :: "regex \<Rightarrow> bool" where
  "case_blind (RClass k) = class_case_blind k"
| "case_blind (RPlus k) = class_case_blind k"
| "case_blind (RStar k) = class_case_blind k"
| "case_blind (RSeq a b) = (case_blind a \<and> case_blind b)"
| "case_blind (RAlt a b) = (case_blind a \<and> case_blind b)"
| "case_blind (ROpt a) = case_blind a"
| "case_blind (RGroup _ a) = case_blind a"
| "case_blind _ = True"

lemma char_lower_code:
  "(of_char (char_lower c) :: nat) =
     (if 65 \<le> (of_char c :: nat) \<and> (of_char c :: nat) \<le> 90 then of_char c + 32 else of_char c)"
  by (simp add: char_lower_def Let_def of_char_of)

lemma char_lower_below: "(of_char d :: nat) < 65 \<Longrightarrow> char_lower c = d \<longleftrightarrow> c = d"
proof -
  assume d: "(of_char d :: nat) < 65"
  have "char_lower c = d \<longleftrightarrow> (of_char (char_lower c) :: nat) = of_char d"
    by simp
  also have "\<dots> \<longleftrightarrow> (of_char c :: nat) = of_char d"
    using d by (auto simp: char_lower_code)
  finally show ?thesis
    by simp
qed

lemma is_digit_lower [simp]: "is_digit (char_lower c) = is_digit c"
  by (auto simp: is_digit_def char_lower_code Let_def)

lemma is_space_lower [simp]: "is_space (char_lower c) = is_space c"
  by (auto simp: is_space_def char_lower_code Let_def)

lemma is_word_lower [simp]: "is_word_char (char_lower c) = is_word_char c"
  by (auto simp: is_word_char_def char_lower_code Let_def)

lemma class_matches_lower:
  "class_case_blind k \<Longrightarrow> class_matches k (char_lower c) = class_matches k c"
proof (cases k)
  case (OneOf cs)
  assume "class_case_blind k"
  then have "\<forall>d \<in> set cs. char_lower c = d \<longleftrightarrow> c = d"
    using OneOf char_lower_below by (simp add: list_all_iff)
  then show ?thesis
    using OneOf by (metis class_matches.simps(3))
qed simp_all

lemma greedy_lower:
  "class_case_blind k \<Longrightarrow>
   greedy k (map_option char_lower prev) (str_lower t) = map low_pos (greedy k prev t)"
proof (induction t arbitrary: prev)
  case (Cons c t)
  then show ?case
    using Cons.IH[of "Some c"] by (simp add: str_lower_def low_pos_def class_matches_lower)
qed (simp add: str_lower_def low_pos_def)

lemma word_boundary_lower [simp]: "word_boundary (low_pos pos) = word_boundary pos"
  by (auto simp: word_boundary_def low_pos_def str_lower_def split: option.splits list.splits)

lemma regex_match_lower:
  "case_blind r \<Longrightarrow>
   regex_match True r (low_pos pos) (low_caps caps) =
     map (\<lambda>(p, c). (low_pos p, low_caps c)) (regex_match True r pos caps)"
proof (induction True r pos caps rule: regex_match.induct)
  case (7 k prev c cs caps)
  then show ?case
    using greedy_lower[of k "Some c" cs]
    by (simp add: low_pos_def str_lower_def class_matches_lower comp_def)
next
  case (9 a b pos caps)
  then show ?case
    by (auto simp: map_concat comp_def case_prod_beta intro!: arg_cong[where f = concat])
next
  case (12 pos caps)
  then show ?case
    by (simp add: word_boundary_lower)
next
  case (13 g a pos caps)
  then show ?case
    by (auto simp: low_caps_def low_pos_def str_lower_def take_map)
qed (auto simp: low_pos_def str_lower_def class_matches_lower char_matches_def comp_def
    greedy_lower[unfolded str_lower_def])

lemma match_at_lower:
  "case_blind r \<Longrightarrow>
   match_at True r (low_pos pos) = map_option (\<lambda>(p, c). (low_pos p, low_caps c)) (match_at True r pos)"
  using regex_match_lower[of r pos "[]"]
  by (cases "regex_match True r pos []") (auto simp: match_at_def low_caps_def)

lemma low_pos_pair: "low_pos (prev, t) = (map_option char_lower prev, str_lower t)"
  by (simp add: low_pos_def)

lemma str_lower_Cons [simp]: "str_lower (c # cs) = char_lower c # str_lower cs"
  by (simp add: str_lower_def)

lemma str_lower_Nil [simp]: "str_lower [] = []"
  by (simp add: str_lower_def)

lemma search_from_lower:
  assumes "case_blind r"
  shows "search_from True r (map_option char_lower prev) (str_lower t) =
    map_option low_caps (search_from True r prev t)"
proof (induction t arbitrary: prev)
  case Nil
  show ?case
    using match_at_lower[OF assms, of "(prev, [])"]
    by (cases "match_at True r (prev, [])") (auto simp: low_pos_pair)
next
  case (Cons c t)
  show ?case
    using match_at_lower[OF assms, of "(prev, c # t)"] Cons.IH[of "Some c"]
    by (cases "match_at True r (prev, c # t)") (auto simp: low_pos_pair)
qed

lemma finditer_from_lower:
  assumes "case_blind r"
  shows "finditer_from True r (map_option char_lower prev) (str_lower t) =
    map low_caps (finditer_from True r prev t)"
  using assms
proof (induction True r prev t rule: finditer_from.induct)
  case (1 r prev)
  show ?case
    using match_at_lower[OF 1, of "(prev, [])"]
    by (cases "match_at True r (prev, [])") (auto simp: low_pos_pair)
next
  case (2 r prev c cs)
  show ?case
  proof (cases "match_at True r (prev, c # cs)")
    case None
    then show ?thesis
      using match_at_lower[OF 2(4), of "(prev, c # cs)"] 2 by (simp add: low_pos_pair)
  next
    case (Some m)
    obtain prev' rest caps where m: "m = ((prev', rest), caps)"
      by (metis prod.exhaust)
    show ?thesis
      using match_at_lower[OF 2(4), of "(prev, c # cs)"] 2 Some m by (simp add: low_pos_pair)
  qed
qed

subsection \<open>Numerals do not depend on case\<close>

lemma digit_lower_id: "is_digit c \<Longrightarrow> char_lower c = c"
  by (auto simp: is_digit_def char_lower_def Let_def)

lemma digits_lower_id: "list_all is_digit t \<Longrightarrow> str_lower t = t"
  by (induction t) (simp_all add: digit_lower_id)

lemma takeWhile_digit_lower: "takeWhile is_digit (str_lower t) = takeWhile is_digit t"
  by (induction t) (simp_all add: digit_lower_id)

lemma dropWhile_digit_lower: "dropWhile is_digit (str_lower t) = str_lower (dropWhile is_digit t)"
  by (induction t) simp_all

lemma list_all_digit_lower: "list_all is_digit (str_lower t) = list_all is_digit t"
  by (induction t) simp_all

lemma punctuation_lower [simp]:
  "char_lower c = CHR ''.'' \<longleftrightarrow> c = CHR ''.''"
  "char_lower c = CHR ''+'' \<longleftrightarrow> c = CHR ''+''"
  "char_lower c = CHR ''-'' \<longleftrightarrow> c = CHR ''-''"
  by (simp_all add: char_lower_below)

lemma unsigned_decimal_lower: "unsigned_decimal (str_lower t) = unsigned_decimal t"
proof (cases "dropWhile is_digit t")
  case (Cons c cs)
  have "str_lower cs = cs" if "list_all is_digit cs"
    using that by (rule digits_lower_id)
  then show ?thesis
    unfolding unsigned_decimal_def Let_def takeWhile_digit_lower dropWhile_digit_lower Cons
    by (auto simp: list_all_digit_lower)
qed (simp add: unsigned_decimal_def Let_def takeWhile_digit_lower dropWhile_digit_lower
    del: dropWhile_eq_Nil_conv)

lemma decimal_of_text_lower: "decimal_of_text (str_lower t) = decimal_of_text t"
  using unsigned_decimal_lower[of t]
  by (cases t) (simp_all add: decimal_of_text_def unsigned_decimal_lower)

lemma capture_lower: "capture g (low_caps caps) = str_lower (capture g caps)"
  by (induction caps) (auto simp: capture_def low_caps_def)

lemma add_value_lower: "add_value label vs (low_caps caps) = add_value label vs caps"
  by (simp add: add_value_def capture_lower decimal_of_text_lower)

lemma res_fold_map: "res_fold f s (map g xs) = res_fold (\<lambda>s x. f s (g x)) s xs"
  by (induction xs arbitrary: s) (auto simp: res_bind_def split: sum.splits)

lemma extract_control_percent_lower:
  assumes "list_all case_blind patterns" "case_blind phrase"
  shows "extract_control_percent f (str_lower t) patterns phrase label =
    extract_control_percent f t patterns phrase label"
proof -
  have "concat (map (\<lambda>r. re_finditer True r (str_lower t)) patterns) =
      map low_caps (concat (map (\<lambda>r. re_finditer True r t) patterns))"
    using assms(1)
  proof (induction patterns)
    case (Cons r rs)
    then show ?case
      using finditer_from_lower[of r None t] by (simp add: re_finditer_def)
  qed simp
  moreover have "re_search True phrase (str_lower t) = None \<longleftrightarrow> re_search True phrase t = None"
    using search_from_lower[OF assms(2), of None t] by (simp add: re_search_def)
  ultimately show ?thesis
    by (auto simp: extract_control_percent_def res_fold_map add_value_lower)
qed

lemma patterns_case_blind:
  "list_all case_blind STOP_LOSS_PATTERNS" "case_blind STOP_LOSS_PHRASE"
  "list_all case_blind TAKE_PROFIT_PATTERNS" "case_blind TAKE_PROFIT_PHRASE"
  by code_simp+

lemma extract_risk_controls_lower: "extract_risk_controls f (str_lower t) = extract_risk_controls f t"
  by (simp add: extract_risk_controls_def extract_control_percent_lower patterns_case_blind)

text \<open>
  The analysis of a strategy text does not depend on its case: validation, the extracted risk
  controls and the shorthand hint are the same for the text in lower case.
\<close>

lemma text_analysis_case_insensitive:
  "validate_strategy_text f (str_lower t) = validate_strategy_text f t \<and>
   extract_risk_controls f (str_lower t) = extract_risk_controls f t \<and>
   find_normalization_hint (str_lower t) = find_normalization_hint t"
  by (simp add: validate_strategy_text_def extract_risk_controls_lower find_normalization_hint_def)

subsection \<open>What is accepted\<close>

lemma extract_control_Some:
  "extract_control_percent f t patterns phrase label = Inr (Some v) \<Longrightarrow> 0 < v \<and> v \<le> MAX_RISK_PERCENT"
  by (auto simp: extract_control_percent_def result_simps percent_field_schema_def
      split: if_splits list.splits)

lemma extract_control_schema:
  "extract_control_percent f t patterns phrase label = Inr v \<Longrightarrow> percent_field_schema v"
  using extract_control_Some by (cases v) (auto simp: percent_field_schema_def)

lemma extract_risk_controls_schema:
  "extract_risk_controls f t = Inr rc \<Longrightarrow>
   percent_field_schema (rc_stop_loss_percent rc) \<and> percent_field_schema (rc_take_profit_percent rc)"
  by (auto simp: extract_risk_controls_def result_simps dest: extract_control_schema)

lemma extract_control_error:
  "extract_control_percent f t patterns phrase label = Inl e \<Longrightarrow> \<exists>m. e = StrategyValidationError m"
proof -
  have fold: "res_fold (add_value label) vs cs = Inl e \<Longrightarrow> \<exists>m. e = StrategyValidationError m" for vs cs
    by (induction cs arbitrary: vs) (auto simp: result_simps add_value_def split: option.splits)
  show "extract_control_percent f t patterns phrase label = Inl e \<Longrightarrow> \<exists>m. e = StrategyValidationError m"
    by (auto simp: extract_control_percent_def result_simps
        dest: validate_risk_percent_error fold split: if_splits list.splits)
qed

lemma extract_risk_controls_error:
  "extract_risk_controls f t = Inl e \<Longrightarrow> \<exists>m. e = StrategyValidationError m"
  by (auto simp: extract_risk_controls_def result_simps dest: extract_control_error)

lemma reject_phrases_iff:
  "reject_phrases ps t = Inr u \<longleftrightarrow> (\<forall>(p, m) \<in> set ps. \<not> contains_text p t)"
  by (auto simp: reject_phrases_def find_None_iff split: option.splits) (metis (no_types, lifting) case_prodD case_prodI2 find_Some_iff nth_mem)+

lemma contains_text_iff: "contains_text p t \<longleftrightarrow> (\<exists>a b. t = a @ p @ b)"
proof (induction t)
  case (Cons c t)
  have "(\<exists>a b. c # t = a @ p @ b) \<longleftrightarrow> (\<exists>b. c # t = p @ b) \<or> (\<exists>a b. t = a @ p @ b)"
    by (metis append_Cons append_Nil list.exhaust list.inject)
  moreover have "take (length p) (c # t) = p \<longleftrightarrow> (\<exists>b. c # t = p @ b)"
    by (metis append_eq_conv_conj append_take_drop_id)
  ultimately show ?case
    using Cons by simp
qed simp

text \<open>
  What an accepted strategy text guarantees: it contains none of the unsupported or ambiguous
  phrases in any case, its risk controls can be extracted without a second error, and each one
  extracted is greater than zero and at most fifty percent. A text is rejected only with a
  validation error.
\<close>

lemma validated_text_ok:
  "case validate_strategy_text f t of
     Inl e \<Rightarrow> \<exists>m. e = StrategyValidationError m
   | Inr u \<Rightarrow>
       (\<forall>(phrase, m) \<in> set (UNSUPPORTED_LANGUAGE @ AMBIGUOUS_LANGUAGE).
          \<not> (\<exists>a b. str_lower t = a @ phrase @ b)) \<and>
       (\<exists>rc. extract_risk_controls f t = Inr rc \<and>
          (\<forall>v. rc_stop_loss_percent rc = Some v \<or> rc_take_profit_percent rc = Some v \<longrightarrow>
             0 < v \<and> v \<le> MAX_RISK_PERCENT))"
proof (cases "validate_strategy_text f t")
  case (Inl e)
  have "reject_phrases ps s = Inl e \<Longrightarrow> \<exists>m. e = StrategyValidationError m" for ps s
    by (auto simp: reject_phrases_def split: option.splits)
  then show ?thesis
    using Inl by (auto simp: validate_strategy_text_def Let_def result_simps dest: extract_risk_controls_error)
next
  case (Inr u)
  then obtain rc where rc: "extract_risk_controls f t = Inr rc"
    by (auto simp: validate_strategy_text_def Let_def result_simps)
  have "\<forall>(phrase, m) \<in> set (UNSUPPORTED_LANGUAGE @ AMBIGUOUS_LANGUAGE). \<not> contains_text phrase (str_lower t)"
    unfolding set_append ball_Un
    using Inr by (auto simp: validate_strategy_text_def Let_def result_simps reject_phrases_iff)
  then show ?thesis
    using Inr rc extract_risk_controls_schema[OF rc]
    by (auto simp: contains_text_iff percent_field_schema_def intro!: exI[of _ rc])
qed

lemma validated_text_ok_witness:
  "validate_strategy_text (\<lambda>_. []) ''Golden cross, 5% stop loss'' = Inr () \<and>
   (\<exists>rc. extract_risk_controls (\<lambda>_. []) ''Golden cross, 5% stop loss'' = Inr rc \<and>
      (\<forall>v. rc_stop_loss_percent rc = Some v \<or> rc_take_profit_percent rc = Some v \<longrightarrow>
         0 < v \<and> v \<le> MAX_RISK_PERCENT))"
proof -
  have ok: "validate_strategy_text (\<lambda>_. []) ''Golden cross, 5% stop loss'' = Inr ()"
    by code_simp
  show ?thesis
    using validated_text_ok[where f = "\<lambda>_. []" and t = "''Golden cross, 5% stop loss''"] unfolding ok by auto
qed

text \<open>
  Phrases are searched as substrings, so an innocent word that contains one is rejected: a
  diversified portfolio is taken for a request for the RSI indicator.
\<close>

lemma diversified_rejected:
  "validate_strategy_text f ''Buy a diversified ETF at 50/200 crossover'' =
     Inl (StrategyValidationError ''RSI is not supported in version 1.'')"
  by (simp add: validate_strategy_text_def UNSUPPORTED_LANGUAGE_def reject_phrases_def char_lower_def str_lower_def
      numeral_nat)

subsection \<open>An explicit stop loss is read back\<close>

lemma digit_not_letter:
  assumes "is_digit d" "65 \<le> (of_char p :: nat)"
  shows "\<not> char_matches True p d"
proof
  assume "char_matches True p d"
  then have "(of_char (char_lower p) :: nat) = of_char d"
    using assms(1) by (simp add: char_matches_def digit_lower_id)
  then show False
    using assms by (auto simp: char_lower_code is_digit_def Let_def split: if_splits)
qed

lemma digit_not_sign:
  assumes "is_digit d"
  shows "d \<noteq> CHR ''+''" "d \<noteq> CHR ''-''" "d \<noteq> CHR ''.''" "d \<noteq> CHR ''%''" "\<not> is_space d"
  using assms by (auto simp: is_digit_def is_space_def Let_def)

lemma not_digits [simp]:
  "\<not> is_digit CHR ''%''" "\<not> is_digit CHR ''.''" "\<not> is_digit CHR ''p''"
  by (simp_all add: is_digit_def)

lemma punctuation_distinct [simp]:
  "char_matches True CHR ''.'' CHR ''%'' = False" "char_matches True CHR ''%'' CHR ''%'' = True"
  by (simp_all add: char_matches_def char_lower_def)

lemma digit_not_punctuation: "is_digit d \<Longrightarrow> \<not> char_matches True CHR ''.'' d \<and> \<not> char_matches True CHR ''%'' d"
  by (auto simp: char_matches_def char_lower_def digit_lower_id is_digit_def Let_def)

definition digit_led :: "text_pos \<Rightarrow> bool" where
  "digit_led p \<longleftrightarrow> (\<exists>d cs. snd p = d # cs \<and> is_digit d)"

lemma greedy_digits:
  assumes "list_all is_digit ds" "ds \<noteq> []" "rest = [] \<or> \<not> is_digit (hd rest)"
  shows "\<exists>more. greedy Digit prev (ds @ rest) = (Some (last ds), rest) # more \<and> list_all digit_led more"
  using assms
proof (induction ds arbitrary: prev)
  case (Cons d ds)
  show ?case
  proof (cases "ds = []")
    case True
    then show ?thesis
      using Cons.prems by (cases rest) (auto simp: digit_led_def)
  next
    case False
    then obtain more where "greedy Digit (Some d) (ds @ rest) = (Some (last ds), rest) # more" "list_all digit_led more"
      using Cons by auto
    then show ?thesis
      using Cons.prems False by (simp add: digit_led_def[of "(prev, d # ds @ rest)"])
  qed
qed simp

lemma greedy_digits_tail:
  assumes "list_all is_digit (d # ds)" "rest = [] \<or> \<not> is_digit (hd rest)"
  shows "\<exists>more. greedy Digit (Some d) (ds @ rest) = (Some (last (d # ds)), rest) # more \<and> list_all digit_led more"
proof (cases "ds = []")
  case True
  then show ?thesis
    using assms by (cases rest) auto
next
  case False
  then show ?thesis
    using greedy_digits[of ds rest "Some d"] assms by auto
qed

definition percent_sign :: regex where
  "percent_sign = RSeqs [RStar Space, RAlt (RChar (CHR ''%'')) (RSeq (RText ''percent'') RWordB)]"

lemma percent_sign_digit_led: "digit_led p \<Longrightarrow> regex_match True percent_sign p caps = []"
  by (cases p) (auto simp: digit_led_def percent_sign_def RSeqs_def RText_def digit_not_sign digit_not_letter
      digit_not_punctuation)

definition fraction_part :: regex where
  "fraction_part = ROpt (RSeq (RChar (CHR ''.'')) (RPlus Digit))"

lemma fraction_part_none:
  "digit_led p \<or> (\<exists>v. snd p = CHR ''%'' # v) \<Longrightarrow> regex_match True fraction_part p caps = [(p, caps)]"
  by (cases p) (auto simp: fraction_part_def digit_led_def digit_not_punctuation)

lemma PERCENT_VALUE_eq:
  "PERCENT_VALUE = RSeq (RGroup 0 (RSeq (ROpt (RClass (OneOf ''+-'')))
     (RAlt (RSeq (RPlus Digit) fraction_part) (RSeq (RChar (CHR ''.'')) (RPlus Digit))))) percent_sign"
  by (simp add: PERCENT_VALUE_def fraction_part_def percent_sign_def RSeqs_def)

lemma regex_match_group_seq:
  "regex_match ic a pos caps = ms \<Longrightarrow>
   regex_match ic (RSeq (RGroup g a) b) pos caps =
     concat (map (\<lambda>(p, cs). regex_match ic b p ((g, take (length (snd pos) - length (snd p)) (snd pos)) # cs)) ms)"
  by (auto simp: comp_def case_prod_beta intro!: arg_cong[where f = concat])

lemma percent_value_match:
  assumes "list_all is_digit ds" "ds \<noteq> []"
  shows "regex_match True PERCENT_VALUE (prev, ds @ CHR ''%'' # u) caps = [((Some (CHR ''%''), u), (0, ds) # caps)]"
proof -
  obtain d ds' where ds: "ds = d # ds'" and dig: "is_digit d"
    using assms by (cases ds) auto
  obtain more L where g: "greedy Digit (Some d) (ds' @ CHR ''%'' # u) = (L, CHR ''%'' # u) # more"
    and more: "list_all digit_led more"
    using greedy_digits_tail[of d ds' "CHR ''%'' # u"] assms(1) ds by auto
  have fr: "concat (map (\<lambda>p. regex_match True fraction_part p caps) more) = map (\<lambda>p. (p, caps)) more"
    using more by (induction more) (simp_all add: fraction_part_none)
  have group: "regex_match True (RSeq (ROpt (RClass (OneOf ''+-'')))
      (RAlt (RSeq (RPlus Digit) fraction_part) (RSeq (RChar (CHR ''.'')) (RPlus Digit))))
      (prev, d # ds' @ CHR ''%'' # u) caps = ((L, CHR ''%'' # u), caps) # map (\<lambda>p. (p, caps)) more"
    using dig by (simp add: g digit_not_sign digit_not_punctuation fraction_part_none comp_def fr)
  have none: "concat (map (\<lambda>p. regex_match True percent_sign p (f p)) more) = []" for f
    using more by (induction more) (auto simp: percent_sign_digit_led)
  have hit: "regex_match True percent_sign (L, CHR ''%'' # u) caps' = [((Some (CHR ''%''), u), caps')]" for caps'
    by (simp add: percent_sign_def RSeqs_def RText_def is_space_def char_matches_def char_lower_def)
  show ?thesis
    unfolding PERCENT_VALUE_eq ds append_Cons regex_match_group_seq[OF group]
    by (simp add: hit none comp_def)
qed

lemma finditer_skip_digits:
  assumes "list_all is_digit ds" "ds \<noteq> []"
    and "\<And>prev d cs. is_digit d \<Longrightarrow> match_at True r (prev, d # cs) = None"
  shows "finditer_from True r prev (ds @ t) = finditer_from True r (Some (last ds)) t"
  using assms(1,2)
proof (induction ds arbitrary: prev)
  case (Cons d ds)
  then show ?case
    using assms(3) by (cases "ds = []") auto
qed simp

lemmas concrete_text_simps =
  match_at_def RSeqs_def RText_def dashed_def lose_forms_def gain_forms_def of_or_at_def
  char_matches_def char_lower_def is_space_def word_boundary_def is_word_char_def is_digit_def Let_def

lemma stop_pattern_hit:
  assumes "list_all is_digit ds" "ds \<noteq> []"
  shows "finditer_from True (STOP_LOSS_PATTERNS ! 0) prev (ds @ ''% stop loss'') = [[(0, ds)]]"
proof -
  obtain d ds' where ds: "ds = d # ds'"
    using assms by (cases ds) auto
  have "match_at True (STOP_LOSS_PATTERNS ! 0) (prev, ds @ ''% stop loss'') =
      Some ((Some (CHR ''s''), []), [(0, ds)])"
    using percent_value_match[OF assms, of prev "'' stop loss''" "[]"]
    by (simp add: STOP_LOSS_PATTERNS_def concrete_text_simps)
  moreover have "match_at True (STOP_LOSS_PATTERNS ! 0) (Some (CHR ''s''), []) = None"
    by (simp add: STOP_LOSS_PATTERNS_def PERCENT_VALUE_def concrete_text_simps)
  ultimately show ?thesis
    by (simp add: ds)
qed

lemma stop_patterns_miss:
  assumes "is_digit d"
  shows "match_at True (STOP_LOSS_PATTERNS ! 1) (prev, d # cs) = None"
    "match_at True (STOP_LOSS_PATTERNS ! 2) (prev, d # cs) = None"
    "match_at True (TAKE_PROFIT_PATTERNS ! 1) (prev, d # cs) = None"
    "match_at True (TAKE_PROFIT_PATTERNS ! 2) (prev, d # cs) = None"
  using assms
  by (simp_all add: match_at_def STOP_LOSS_PATTERNS_def TAKE_PROFIT_PATTERNS_def RSeqs_def RText_def
      dashed_def gain_forms_def digit_not_letter)

lemma patterns_miss_tail:
  assumes "is_digit d"
  shows "finditer_from True (STOP_LOSS_PATTERNS ! 1) (Some d) ''% stop loss'' = []"
    "finditer_from True (STOP_LOSS_PATTERNS ! 2) (Some d) ''% stop loss'' = []"
    "finditer_from True (TAKE_PROFIT_PATTERNS ! 0) (Some d) ''% stop loss'' = []"
    "finditer_from True (TAKE_PROFIT_PATTERNS ! 1) (Some d) ''% stop loss'' = []"
    "finditer_from True (TAKE_PROFIT_PATTERNS ! 2) (Some d) ''% stop loss'' = []"
  using assms
  by (simp_all add: STOP_LOSS_PATTERNS_def TAKE_PROFIT_PATTERNS_def PERCENT_VALUE_def concrete_text_simps)

lemma take_pattern_miss:
  assumes "list_all is_digit ds" "ds \<noteq> []"
  shows "finditer_from True (TAKE_PROFIT_PATTERNS ! 0) prev (ds @ ''% stop loss'') = []"
  using assms
proof (induction ds arbitrary: prev)
  case (Cons d ds)
  have "match_at True (TAKE_PROFIT_PATTERNS ! 0) (prev, (d # ds) @ ''% stop loss'') = None"
    using percent_value_match[OF Cons.prems, of prev "'' stop loss''" "[]"]
    by (simp add: TAKE_PROFIT_PATTERNS_def concrete_text_simps)
  then show ?case
    using Cons patterns_miss_tail(3)[of d] by (cases "ds = []") auto
qed simp

lemma phrase_miss:
  assumes "list_all is_digit ds" "ds \<noteq> []"
  shows "search_from True TAKE_PROFIT_PHRASE prev (ds @ ''% stop loss'') = None"
  using assms
proof (induction ds arbitrary: prev)
  case (Cons d ds)
  have "match_at True TAKE_PROFIT_PHRASE (prev, d # cs) = None" for cs
    using Cons.prems by (simp add: match_at_def TAKE_PROFIT_PHRASE_def RSeqs_def RText_def dashed_def
        gain_forms_def digit_not_letter)
  moreover have "search_from True TAKE_PROFIT_PHRASE (Some d) ''% stop loss'' = None"
    using Cons.prems by (simp add: TAKE_PROFIT_PHRASE_def concrete_text_simps)
  ultimately show ?case
    using Cons by (cases "ds = []") auto
qed simp

lemma unsigned_digits: "list_all is_digit ds \<Longrightarrow> ds \<noteq> [] \<Longrightarrow> unsigned_decimal ds = Some (of_int (int_of_digits ds))"
  by (simp add: unsigned_decimal_def list_all_iff takeWhile_eq_all_conv[THEN iffD2] dropWhile_eq_Nil_conv[THEN iffD2])

lemma decimal_of_digits: "list_all is_digit ds \<Longrightarrow> ds \<noteq> [] \<Longrightarrow> decimal_of_text ds = Some (of_int (int_of_digits ds))"
  by (cases ds) (auto simp: decimal_of_text_def unsigned_digits[symmetric] digit_not_sign)

lemma extract_stop_loss_digits:
  assumes "list_all is_digit ds" "ds \<noteq> []"
  shows "extract_risk_controls f (ds @ ''% stop loss'') =
    res_bind (validate_risk_percent (Some (of_int (int_of_digits ds))) ''Stop-loss'') (\<lambda>_.
      Inr \<lparr>rc_stop_loss_percent = Some (of_int (int_of_digits ds)), rc_take_profit_percent = None\<rparr>)"
proof -
  let ?t = "ds @ ''% stop loss''"
  have last: "is_digit (last ds)"
    using assms by (simp add: list_all_iff)
  have skip: "finditer_from True r None ?t = finditer_from True r (Some (last ds)) ''% stop loss''"
    if "\<And>prev d cs. is_digit d \<Longrightarrow> match_at True r (prev, d # cs) = None" for r
    by (rule finditer_skip_digits[OF assms that])
  have p: "STOP_LOSS_PATTERNS = [STOP_LOSS_PATTERNS ! 0, STOP_LOSS_PATTERNS ! 1, STOP_LOSS_PATTERNS ! 2]"
    "TAKE_PROFIT_PATTERNS = [TAKE_PROFIT_PATTERNS ! 0, TAKE_PROFIT_PATTERNS ! 1, TAKE_PROFIT_PATTERNS ! 2]"
    by (simp_all add: STOP_LOSS_PATTERNS_def TAKE_PROFIT_PATTERNS_def)
  note miss = skip[OF stop_patterns_miss(1)] skip[OF stop_patterns_miss(2)]
    skip[OF stop_patterns_miss(3)] skip[OF stop_patterns_miss(4)]
  have hits: "concat (map (\<lambda>r. re_finditer True r ?t) STOP_LOSS_PATTERNS) = [[(0, ds)]]"
    unfolding re_finditer_def
    by (subst p(1)) (simp only: list.map concat.simps miss stop_pattern_hit[OF assms] patterns_miss_tail[OF last]
        append_Nil append_Nil2)
  have no_hits: "concat (map (\<lambda>r. re_finditer True r ?t) TAKE_PROFIT_PATTERNS) = []"
    unfolding re_finditer_def
    by (subst p(2)) (simp only: list.map concat.simps miss take_pattern_miss[OF assms] patterns_miss_tail[OF last]
        append_Nil append_Nil2)
  have "extract_control_percent f ?t STOP_LOSS_PATTERNS STOP_LOSS_PHRASE ''Stop-loss'' =
      res_bind (validate_risk_percent (Some (of_int (int_of_digits ds))) ''Stop-loss'')
        (\<lambda>_. Inr (Some (of_int (int_of_digits ds))))"
    unfolding extract_control_percent_def hits
    by (simp add: add_value_def capture_def decimal_of_digits[OF assms])
  moreover have "extract_control_percent f ?t TAKE_PROFIT_PATTERNS TAKE_PROFIT_PHRASE ''Take-profit'' = Inr None"
    unfolding extract_control_percent_def no_hits
    by (simp add: re_search_def phrase_miss[OF assms])
  ultimately show ?thesis
    by (simp add: extract_risk_controls_def res_bind_assoc)
qed

text \<open>
  C17. Reading a percentage back from its text: whatever number is written in decimal digits before
  the words "% stop loss", the extraction returns exactly that number as the stop loss and no
  take-profit when it is in range, and the range error otherwise. No backtracking of the pattern
  can shorten the number.
\<close>

theorem explicit_stop_loss_extracted:
  assumes "list_all is_digit ds" "ds \<noteq> []"
  shows "extract_risk_controls f (ds @ ''% stop loss'') =
    (if 0 < int_of_digits ds \<and> int_of_digits ds \<le> 50
     then Inr \<lparr>rc_stop_loss_percent = Some (of_int (int_of_digits ds)), rc_take_profit_percent = None\<rparr>
     else Inl (StrategyValidationError ''Stop-loss must be greater than 0% and no greater than 50%.''))"
proof -
  have "0 < (of_int (int_of_digits ds) :: rat) \<longleftrightarrow> 0 < int_of_digits ds"
    "(of_int (int_of_digits ds) :: rat) \<le> 50 \<longleftrightarrow> int_of_digits ds \<le> 50"
    by simp_all
  then show ?thesis
    using extract_stop_loss_digits[OF assms, of f]
    by (auto simp: validate_risk_percent_def MAX_RISK_PERCENT_def raise_if_def)
qed

theorem explicit_stop_loss_extracted_witness:
  "extract_risk_controls (\<lambda>_. []) (''12'' @ ''% stop loss'') =
     Inr \<lparr>rc_stop_loss_percent = Some 12, rc_take_profit_percent = None\<rparr>"
proof -
  have d: "list_all is_digit ''12''" "int_of_digits ''12'' = 12"
    by code_simp+
  show ?thesis
    by (subst explicit_stop_loss_extracted[OF d(1)]) (simp_all add: d(2))
qed

end
