(* ===== verification/Strategy_Parser.thy ===== *)
theory Strategy_Parser
  imports Strategy_Text
begin

text \<open>
  From the language model's draft to a reviewed specification (\<open>app/services/strategy_parser.py\<close>
  with the draft schemas of \<open>app/schemas/strategy_spec.py\<close>). The provider that turns text into a
  draft is a parameter; the two lists that Python appends to are threaded as \<open>norm_state\<close>.
\<close>

datatype json =
    JNull
  | JBool bool
  | JInt int
  | JStr string
  | JList "json list"
  | JObj "(string \<times> json) list"

datatype draft_type = INDICATOR | PRICE | CONSTANT

record operand_draft =
  od_type :: draft_type
  od_name :: "indicator_name option"
  od_source :: "string option"
  od_period :: "int option"
  od_value :: "decimal option"

record condition_draft =
  cd_left :: operand_draft
  cd_operator :: "operator option"
  cd_right :: operand_draft

record strategy_parse_draft =
  draft_symbol :: "string option"
  draft_interval :: "string option"
  draft_entry :: "condition_draft option"
  draft_exit :: "condition_draft option"
  draft_direction :: "string option"
  draft_position_size_percent :: "int option"
  draft_signal_execution :: "string option"

datatype assumption_confidence = HIGH | MEDIUM | LOW

record strategy_assumption =
  as_field :: string
  as_inferred_value :: json
  as_reason :: string
  as_confidence :: assumption_confidence
  as_requires_confirmation :: bool

record applied_default =
  ad_field :: string
  ad_value :: json
  ad_reason :: string

record parsed_strategy_result =
  pr_specification :: strategy_specification
  pr_assumptions :: "strategy_assumption list"
  pr_defaults_applied :: "applied_default list"
  pr_requires_confirmation :: bool
  pr_original_text :: string

record norm_state =
  ns_defaults :: "applied_default list"
  ns_assumptions :: "strategy_assumption list"

subsection \<open>Values and model construction\<close>

fun indicator_value :: "indicator_name \<Rightarrow> string" where
  "indicator_value SMA = ''sma''"
| "indicator_value EMA = ''ema''"

fun operator_value :: "operator \<Rightarrow> string" where
  "operator_value CROSSES_ABOVE = ''crosses_above''"
| "operator_value CROSSES_BELOW = ''crosses_below''"
| "operator_value GREATER_THAN = ''greater_than''"
| "operator_value LESS_THAN = ''less_than''"
| "operator_value GREATER_THAN_OR_EQUAL = ''greater_than_or_equal''"
| "operator_value LESS_THAN_OR_EQUAL = ''less_than_or_equal''"

fun draft_type_value :: "draft_type \<Rightarrow> string" where
  "draft_type_value INDICATOR = ''indicator''"
| "draft_type_value PRICE = ''price''"
| "draft_type_value CONSTANT = ''constant''"

definition json_opt :: "('a \<Rightarrow> json) \<Rightarrow> 'a option \<Rightarrow> json" where
  "json_opt f v = (case v of None \<Rightarrow> JNull | Some x \<Rightarrow> f x)"

definition operand_draft_json :: "(decimal \<Rightarrow> string) \<Rightarrow> operand_draft \<Rightarrow> json" where
  "operand_draft_json str_decimal d =
     JObj [(''type'', JStr (draft_type_value (od_type d))),
           (''name'', json_opt (\<lambda>n. JStr (indicator_value n)) (od_name d)),
           (''source'', json_opt JStr (od_source d)),
           (''period'', json_opt JInt (od_period d)),
           (''value'', json_opt (\<lambda>v. JStr (str_decimal v)) (od_value d))]"

definition condition_draft_json :: "(decimal \<Rightarrow> string) \<Rightarrow> condition_draft \<Rightarrow> json" where
  \<comment> \<open>\<open>model_dump(mode="json")\<close>\<close>
  "condition_draft_json str_decimal c =
     JObj [(''left'', operand_draft_json str_decimal (cd_left c)),
           (''operator'', json_opt (\<lambda>op. JStr (operator_value op)) (cd_operator c)),
           (''right'', operand_draft_json str_decimal (cd_right c))]"

definition construct :: "('a \<Rightarrow> bool) \<Rightarrow> 'a \<Rightarrow> 'a result" where
  \<comment> \<open>building a Pydantic model checks its schema\<close>
  "construct schema x = (if schema x then Inr x else Inl (ValidationError ''''))"

subsection \<open>Defaults and assumptions\<close>

definition apply_default :: "string \<Rightarrow> json \<Rightarrow> string \<Rightarrow> norm_state \<Rightarrow> norm_state" where
  "apply_default field v reason st =
     st\<lparr>ns_defaults := ns_defaults st @ [\<lparr>ad_field = field, ad_value = v, ad_reason = reason\<rparr>]\<rparr>"

definition assumption :: "string \<Rightarrow> json \<Rightarrow> string \<Rightarrow> strategy_assumption" where
  "assumption field v reason =
     \<lparr>as_field = field, as_inferred_value = v, as_reason = reason, as_confidence = HIGH,
      as_requires_confirmation = True\<rparr>"

definition add_assumption :: "string \<Rightarrow> json \<Rightarrow> string \<Rightarrow> norm_state \<Rightarrow> norm_state" where
  "add_assumption field v reason st =
     st\<lparr>ns_assumptions := ns_assumptions st @ [assumption field v reason]\<rparr>"

definition field_or_default ::
    "'a option \<Rightarrow> 'a \<Rightarrow> ('a \<Rightarrow> json) \<Rightarrow> string \<Rightarrow> string \<Rightarrow> norm_state \<Rightarrow> 'a \<times> norm_state" where
  \<comment> \<open>the pattern \<open>if x is None: x = default; apply_default(...)\<close>\<close>
  "field_or_default v fallback to_json field reason st =
     (case v of Some x \<Rightarrow> (x, st)
      | None \<Rightarrow> (fallback, apply_default field (to_json fallback) reason st))"

definition crossover_draft :: "int \<Rightarrow> int \<Rightarrow> operator \<Rightarrow> condition_draft" where
  "crossover_draft short_period long_period op =
     \<lparr>cd_left = \<lparr>od_type = INDICATOR, od_name = None, od_source = None, od_period = Some short_period, od_value = None\<rparr>,
      cd_operator = Some op,
      cd_right = \<lparr>od_type = INDICATOR, od_name = None, od_source = None, od_period = Some long_period, od_value = None\<rparr>\<rparr>"

fun opposite :: "operator \<Rightarrow> operator option" where
  "opposite CROSSES_ABOVE = Some CROSSES_BELOW"
| "opposite CROSSES_BELOW = Some CROSSES_ABOVE"
| "opposite _ = None"

definition opposite_crossover_draft :: "condition_draft \<Rightarrow> condition_draft result" where
  "opposite_crossover_draft c =
     (case Option.bind (cd_operator c) opposite of
        None \<Rightarrow> Inl (StrategyValidationError
                 ''An omitted rule can be inferred only from a supported crossover condition.'')
      | Some op \<Rightarrow> Inr \<lparr>cd_left = cd_left c, cd_operator = Some op, cd_right = cd_right c\<rparr>)"

definition infer_shorthand_pair ::
    "(decimal \<Rightarrow> string) \<Rightarrow> string \<Rightarrow> norm_state \<Rightarrow>
     (condition_draft option \<times> condition_draft option) \<times> norm_state" where
  "infer_shorthand_pair str_decimal text st =
     (case find_normalization_hint text of
        None \<Rightarrow> ((None, None), st)
      | Some h \<Rightarrow>
          let bullish = crossover_draft (hint_short_period h) (hint_long_period h) CROSSES_ABOVE;
              bearish = crossover_draft (hint_short_period h) (hint_long_period h) CROSSES_BELOW;
              (entry, exit) = (if hint_bullish_entry h then (bullish, bearish) else (bearish, bullish))
          in ((Some entry, Some exit),
              add_assumption ''entry_and_exit''
                (JObj [(''entry'', condition_draft_json str_decimal entry),
                       (''exit'', condition_draft_json str_decimal exit)])
                (''The '' @ hint_name h @ '' was interpreted as '' @ string_of_int (hint_short_period h) @
                 ''-day SMA and '' @ string_of_int (hint_long_period h) @ ''-day SMA crossover rules.'') st))"

subsection \<open>Normalizing conditions\<close>

definition normalize_source :: "string option \<Rightarrow> string \<Rightarrow> norm_state \<Rightarrow> string \<times> norm_state" where
  "normalize_source src field_name st =
     field_or_default src ''close'' JStr (field_name @ ''.source'')
       ''Raw close price is the fixed source in version 1.'' st"

definition normalize_operand :: "operand_draft \<Rightarrow> string \<Rightarrow> norm_state \<Rightarrow> (operand \<times> norm_state) result" where
  "normalize_operand d field_name st =
     (case od_type d of
        INDICATOR \<Rightarrow>
          (case od_period d of
             None \<Rightarrow> Inl (StrategyValidationError (''Specify the moving-average period for '' @ field_name @ ''.''))
           | Some period \<Rightarrow>
               let (name, st1) =
                     (case od_name d of Some n \<Rightarrow> (n, st)
                      | None \<Rightarrow> (SMA, add_assumption (field_name @ ''.name'') (JStr ''sma'')
                                 (''Unspecified moving-average type for '' @ field_name @
                                  '' was interpreted as SMA.'') st));
                   (source, st2) = normalize_source (od_source d) field_name st1
               in res_bind (construct operand_schema (IndicatorOperand name source period))
                    (\<lambda>opnd. Inr (opnd, st2)))
      | PRICE \<Rightarrow>
          let (source, st1) = normalize_source (od_source d) field_name st
          in res_bind (construct operand_schema (PriceOperand source)) (\<lambda>opnd. Inr (opnd, st1))
      | CONSTANT \<Rightarrow>
          (case od_value d of
             None \<Rightarrow> Inl (StrategyValidationError (''Specify the numeric constant for '' @ field_name @ ''.''))
           | Some v \<Rightarrow> Inr (ConstantOperand v, st)))"

definition normalize_condition :: "condition_draft \<Rightarrow> string \<Rightarrow> norm_state \<Rightarrow> (condition \<times> norm_state) result" where
  "normalize_condition c field_name st =
     (case cd_operator c of
        None \<Rightarrow> Inl (StrategyValidationError (''Specify the comparison operator for the '' @ field_name @ '' rule.''))
      | Some op \<Rightarrow>
          res_bind (normalize_operand (cd_left c) (field_name @ ''.left'') st) (\<lambda>(l, st1).
          res_bind (normalize_operand (cd_right c) (field_name @ ''.right'') st1) (\<lambda>(r, st2).
          Inr (\<lparr>cond_left = l, cond_operator = op, cond_right = r\<rparr>, st2))))"

definition complete_rules ::
    "(decimal \<Rightarrow> string) \<Rightarrow> string \<Rightarrow> condition_draft option \<Rightarrow> condition_draft option \<Rightarrow> norm_state \<Rightarrow>
     (condition_draft \<times> condition_draft \<times> norm_state) result" where
  \<comment> \<open>an omitted rule is inferred from the shorthand in the text or from the other rule\<close>
  "complete_rules str_decimal text entry_draft exit_draft st =
     (let ((entry0, exit0), st0) =
            (if entry_draft = None \<and> exit_draft = None then infer_shorthand_pair str_decimal text st
             else ((entry_draft, exit_draft), st))
      in res_bind
           (case (entry0, exit0) of
              (None, Some x) \<Rightarrow>
                res_bind (opposite_crossover_draft x) (\<lambda>en.
                Inr (Some en, add_assumption ''entry'' (condition_draft_json str_decimal en)
                   ''No entry rule was provided, so the opposite crossover was used as the entry.'' st0))
            | _ \<Rightarrow> Inr (entry0, st0)) (\<lambda>(entry1, st1).
         res_bind
           (case (exit0, entry1) of
              (None, Some en) \<Rightarrow>
                res_bind (opposite_crossover_draft en) (\<lambda>x.
                Inr (Some x, add_assumption ''exit'' (condition_draft_json str_decimal x)
                   ''No exit rule was provided, so the opposite crossover was used as the exit.'' st1))
            | _ \<Rightarrow> Inr (exit0, st1)) (\<lambda>(exit1, st2).
         case (entry1, exit1) of
           (Some en, Some x) \<Rightarrow> Inr (en, x, st2)
         | _ \<Rightarrow> Inl (StrategyValidationError
                 ''Specify an entry and exit rule, or use a supported crossover shorthand.''))))"

definition normalize_strategy_draft ::
    "(decimal \<Rightarrow> string) \<Rightarrow> strategy_parse_draft \<Rightarrow> string \<Rightarrow> parsed_strategy_result result" where
  "normalize_strategy_draft str_decimal draft original_text =
     (let (symbol, st1) = field_or_default (draft_symbol draft) ''SPY'' JStr ''symbol''
            ''SPY is the only supported symbol.'' \<lparr>ns_defaults = [], ns_assumptions = []\<rparr>;
          (interval, st2) = field_or_default (draft_interval draft) ''1d'' JStr ''interval''
            ''Daily bars are fixed in version 1.'' st1;
          (dir, st3) = field_or_default (draft_direction draft) ''long'' JStr ''execution.direction''
            ''Long-only execution is fixed in version 1.'' st2;
          (size, st4) = field_or_default (draft_position_size_percent draft) 100 JInt
            ''execution.position_size_percent''
            ''Position sizing is fixed at 100% of available cash in version 1.'' st3;
          (fill, st5) = field_or_default (draft_signal_execution draft) ''next_bar_open'' JStr
            ''execution.signal_execution''
            ''Signals execute at the next available trading bar open in version 1.'' st4
      in res_bind (complete_rules str_decimal original_text (draft_entry draft) (draft_exit draft) st5)
           (\<lambda>(entry_draft, exit_draft, st6).
         res_bind (extract_risk_controls str_decimal original_text) (\<lambda>rc.
         res_bind (normalize_condition entry_draft ''entry'' st6) (\<lambda>(entry, st7).
         res_bind (normalize_condition exit_draft ''exit'' st7) (\<lambda>(exit, st8).
         res_bind (construct execution_schema
                     \<lparr>direction = dir, position_size_percent = size, signal_execution = fill\<rparr>) (\<lambda>execution.
         res_bind (construct spec_schema
                     \<lparr>spec_version = ''1.0'', spec_symbol = symbol, spec_interval = interval,
                      spec_entry = entry, spec_exit = exit, spec_execution = execution,
                      spec_stop_loss_percent = rc_stop_loss_percent rc,
                      spec_take_profit_percent = rc_take_profit_percent rc\<rparr>) (\<lambda>spec.
         res_bind (validate_strategy_semantics spec) (\<lambda>_.
         Inr \<lparr>pr_specification = spec, pr_assumptions = ns_assumptions st8,
              pr_defaults_applied = ns_defaults st8,
              pr_requires_confirmation = (ns_assumptions st8 \<noteq> []),
              pr_original_text = original_text\<rparr>))))))))"

definition parse_strategy ::
    "(decimal \<Rightarrow> string) \<Rightarrow> (string \<Rightarrow> string \<Rightarrow> string \<Rightarrow> strategy_parse_draft result) \<Rightarrow>
     string option \<Rightarrow> string option \<Rightarrow> string \<Rightarrow> parsed_strategy_result result" where
  \<comment> \<open>\<open>OpenAIStrategyParser.parse\<close>; the provider takes the API key, the model and the text\<close>
  "parse_strategy str_decimal provider api_key model text =
     res_bind (raise_if (list_all is_space text) (StrategyValidationError ''Enter a strategy description.'')) (\<lambda>_.
     res_bind (validate_strategy_text str_decimal text) (\<lambda>_.
     case api_key of
       None \<Rightarrow> Inl (StrategyParserError ''OPENAI_API_KEY is required to parse a strategy.'')
     | Some key \<Rightarrow>
         if key = '''' then Inl (StrategyParserError ''OPENAI_API_KEY is required to parse a strategy.'')
         else case model of
           None \<Rightarrow> Inl (StrategyParserError ''OPENAI_MODEL is required to parse a strategy.'')
         | Some m \<Rightarrow>
             if m = '''' then Inl (StrategyParserError ''OPENAI_MODEL is required to parse a strategy.'')
             else res_bind (provider key m text) (\<lambda>draft.
                  normalize_strategy_draft str_decimal draft text)))"

end
