(* ===== verification/Moving_Averages.thy ===== *)
theory Moving_Averages
  imports Market_Models
begin

text \<open>
  Trailing moving averages of the close price: \<open>simple_moving_averages\<close> of
  \<open>app/backtesting/sma_crossover.py\<close>, a rolling sum, and \<open>exponential_moving_averages\<close> of
  \<open>app/backtesting/strategy_compiler.py\<close>. Both return one entry per bar, \<open>None\<close> during warm-up.
\<close>

definition sma_step ::
    "market_bar list \<Rightarrow> int \<Rightarrow> nat \<Rightarrow> decimal \<times> decimal option list \<Rightarrow> decimal \<times> decimal option list" where
  "sma_step bars window index acc =
     (let (rolling_total, averages) = acc;
          added = dadd rolling_total (close_price (bars ! index));
          total = (if window \<le> int index
                   then dsub added (close_price (bars ! nat (int index - window))) else added)
      in (total,
          averages @ [if window - 1 \<le> int index then Some (dec_round (total / of_int window)) else None]))"

definition simple_moving_averages :: "market_bar list \<Rightarrow> int \<Rightarrow> decimal option list result" where
  "simple_moving_averages bars window =
     res_bind (raise_if (window \<le> 0) (ValueError ''SMA window must be positive'')) (\<lambda>_.
     Inr (snd (fold (sma_step bars window) [0..<length bars] (0, []))))"

definition ema_step ::
    "market_bar list \<Rightarrow> decimal \<Rightarrow> nat \<Rightarrow> decimal \<times> decimal option list \<Rightarrow> decimal \<times> decimal option list" where
  "ema_step bars multiplier index acc =
     (let (previous, values) = acc;
          next_value = dadd (dmul (dsub (close_price (bars ! index)) previous) multiplier) previous
      in (next_value, values[index := Some next_value]))"

definition exponential_moving_averages :: "market_bar list \<Rightarrow> int \<Rightarrow> decimal option list result" where
  "exponential_moving_averages bars window =
     res_bind (raise_if (window \<le> 0) (StrategyCompilationError ''EMA window must be positive.'')) (\<lambda>_.
     let values = replicate (length bars) None in
     if int (length bars) < window then Inr values
     else
       let first = dec_round (dsum (map close_price (take (nat window) bars)) / of_int window);
           multiplier = dec_round (2 / of_int (window + 1))
       in Inr (snd (fold (ema_step bars multiplier) [nat window..<length bars]
                      (first, values[nat window - 1 := Some first]))))"

subsection \<open>The rolling sum is the window's mean\<close>

definition window_sum :: "market_bar list \<Rightarrow> nat \<Rightarrow> nat \<Rightarrow> rat" where
  \<comment> \<open>the exact sum of the closes of the last \<open>w\<close> bars up to index \<open>i\<close>\<close>
  "window_sum bars w i = sum_list (map close_price (drop (Suc i - w) (take (Suc i) bars)))"

lemma valid_close:
  assumes "valid_bars bars" "i < length bars"
  shows "0 < close_price (bars ! i)" "close_price (bars ! i) < 10 ^ 10" "on_grid 8 (close_price (bars ! i))"
  using valid_bars_nth[OF assms] valid_bar_pos(4)[OF valid_bars_nth[OF assms]]
  by (auto simp: valid_bar_def numeric_18_8_def abs_if split: if_splits)

lemma sum_closes_bounds:
  assumes "list_all valid_bar xs"
  shows "0 \<le> sum_list (map close_price xs)" "sum_list (map close_price xs) \<le> of_nat (length xs) * 10 ^ 10"
    "on_grid 8 (sum_list (map close_price xs))"
proof -
  have "0 \<le> sum_list (map close_price xs) \<and> sum_list (map close_price xs) \<le> of_nat (length xs) * 10 ^ 10 \<and>
      on_grid 8 (sum_list (map close_price xs))"
    using assms
  proof (induction xs)
    case (Cons b xs)
    then have "0 < close_price b" "close_price b < 10 ^ 10" "on_grid 8 (close_price b)"
      using valid_close[of "[b]" 0] by (simp_all add: valid_bars_def)
    then show ?case
      using Cons by (auto intro!: on_grid_add simp: algebra_simps)
  qed simp
  then show "0 \<le> sum_list (map close_price xs)" "sum_list (map close_price xs) \<le> of_nat (length xs) * 10 ^ 10"
    "on_grid 8 (sum_list (map close_price xs))"
    by simp_all
qed

lemma window_sum_step:
  assumes "i < length bars" "0 < w"
  shows "window_sum bars w i =
    (if i = 0 then 0 else window_sum bars w (i - 1)) + close_price (bars ! i) -
    (if w \<le> i then close_price (bars ! (i - w)) else 0)"
proof (cases i)
  case 0
  then show ?thesis
    using assms by (cases bars) (auto simp: window_sum_def)
next
  case (Suc k)
  have t: "take (Suc i) bars = take i bars @ [bars ! i]"
    using assms by (simp add: take_Suc_conv_app_nth)
  show ?thesis
  proof (cases "w \<le> i")
    case True
    then have "drop (Suc k - w) (take (Suc k) bars) = bars ! (i - w) # drop (Suc i - w) (take i bars)"
      using Cons_nth_drop_Suc[of "i - w" "take i bars"] assms Suc by (simp add: Suc_diff_le)
    then show ?thesis
      using True t Suc assms by (simp add: window_sum_def)
  next
    case False
    then have "Suc i - w = 0"
      using assms by simp
    moreover have "Suc k - w = 0"
      using False Suc by simp
    ultimately show ?thesis
      using False t Suc by (simp add: window_sum_def)
  qed
qed

lemma window_sum_bounds:
  assumes "valid_bars bars" "0 < w" "w \<le> 10 ^ 9"
  shows "0 \<le> window_sum bars w i" "window_sum bars w i \<le> 10 ^ 19" "on_grid 8 (window_sum bars w i)"
proof -
  let ?xs = "drop (Suc i - w) (take (Suc i) bars)"
  have xs: "list_all valid_bar ?xs"
    using assms(1) by (auto simp: valid_bars_def list_all_iff dest: in_set_dropD in_set_takeD)
  have "length ?xs \<le> 10 ^ 9"
    using assms(3) by simp
  then have "of_nat (length ?xs) \<le> (of_nat (10 ^ 9) :: rat)"
    by (simp only: of_nat_le_iff)
  then show "window_sum bars w i \<le> 10 ^ 19"
    using sum_closes_bounds(2)[OF xs] unfolding window_sum_def by simp
  show "0 \<le> window_sum bars w i" "on_grid 8 (window_sum bars w i)"
    using sum_closes_bounds(1,3)[OF xs] by (simp_all add: window_sum_def)
qed

lemma grid_round:
  "on_grid 8 x \<Longrightarrow> \<bar>x\<bar> < 10 ^ 20 \<Longrightarrow> dec_round x = x"
  by (rule dc.rnd_id, rule on_grid_representable[of 8]) auto

lemma sma_step_exact:
  assumes ok: "valid_bars bars" "i < length bars" "0 < w" "w \<le> 10 ^ 9"
    and t: "t = (if i = 0 then 0 else window_sum bars w (i - 1))"
  shows "sma_step bars (int w) i (t, avs) =
    (window_sum bars w i,
     avs @ [if w \<le> Suc i then Some (dec_round (window_sum bars w i / of_nat w)) else None])"
proof -
  let ?c = "close_price (bars ! i)" and ?o = "close_price (bars ! (i - w))"
  note c = valid_close[OF ok(1,2)]
  have tb: "0 \<le> t" "t \<le> 10 ^ 19" "on_grid 8 t"
    using window_sum_bounds[OF ok(1,3,4)] t by simp_all
  then have add: "dadd t ?c = t + ?c"
    using c by (auto simp: dadd_def intro!: grid_round on_grid_add)
  have "i - w < length bars"
    using ok(2) by simp
  note o = valid_close[OF ok(1) this]
  have "\<bar>t + ?c - ?o\<bar> < 10 ^ 20"
    using o(1,2) tb(1,2) c(1,2) by (simp add: abs_if)
  then have sub: "dsub (t + ?c) ?o = t + ?c - ?o" if "w \<le> i"
    using o(3) tb(3) c(3) by (auto simp: dsub_def intro!: grid_round on_grid_add on_grid_diff)
  have "nat (int i - int w) = i - w"
    by simp
  then have "(if int w \<le> int i then dsub (dadd t ?c) (close_price (bars ! nat (int i - int w))) else dadd t ?c) =
      window_sum bars w i"
    using window_sum_step[OF ok(2,3)] t add sub by auto
  moreover have "int w - 1 \<le> int i \<longleftrightarrow> w \<le> Suc i"
    by auto
  ultimately show ?thesis
    by (simp add: sma_step_def Let_def)
qed

lemma sma_fold:
  assumes ok: "valid_bars bars" "0 < w" "w \<le> 10 ^ 9" and m: "m \<le> length bars"
  shows "fold (sma_step bars (int w)) [0..<m] (0, []) =
    (if m = 0 then 0 else window_sum bars w (m - 1),
     map (\<lambda>i. if w \<le> Suc i then Some (dec_round (window_sum bars w i / of_nat w)) else None) [0..<m])"
  using m
proof (induction m)
  case (Suc m)
  then show ?case
    using sma_step_exact[OF ok(1) _ ok(2,3), of m] by simp
qed simp

text \<open>
  C9. The rolling sum never drifts: on stored bars, for a window up to \<open>10^9\<close>, entry \<open>i\<close> of the
  simple moving averages is exactly the correctly rounded mean of the window's closes, and \<open>None\<close>
  before the window is full.
\<close>

theorem sma_is_rounded_mean:
  assumes "valid_bars bars" "0 < w" "w \<le> 10 ^ 9"
  shows "simple_moving_averages bars (int w) =
    Inr (map (\<lambda>i. if w \<le> Suc i
              then Some (dec_round (sum_list (map close_price (drop (Suc i - w) (take (Suc i) bars))) / of_nat w))
              else None) [0..<length bars])"
  using sma_fold[OF assms order_refl] assms(2) by (simp add: simple_moving_averages_def window_sum_def)

definition mean_bars :: "market_bar list" where
  "mean_bars =
     map (\<lambda>(t, p). \<lparr>bar_timestamp = t, open_price = p, high_price = p, low_price = p, close_price = p, volume = 0\<rparr>)
       [(1, 10), (2, 11), (3, 13), (4, 10)]"

theorem sma_is_rounded_mean_witness:
  "valid_bars mean_bars \<and>
   simple_moving_averages mean_bars (int 3) =
     Inr (map (\<lambda>i. if 3 \<le> Suc i
               then Some (dec_round (sum_list (map close_price (drop (Suc i - 3) (take (Suc i) mean_bars))) / of_nat 3))
               else None) [0..<length mean_bars])"
proof -
  have "valid_bars mean_bars"
    by code_simp
  then show ?thesis
    using sma_is_rounded_mean[of mean_bars 3] by simp
qed

subsection \<open>Warm-up and causality of both averages\<close>

definition warm_up :: "nat \<Rightarrow> nat \<Rightarrow> decimal option list \<Rightarrow> bool" where
  \<comment> \<open>one entry per bar, present exactly from index \<open>w - 1\<close> on\<close>
  "warm_up w n xs \<longleftrightarrow> length xs = n \<and> (\<forall>i < n. xs ! i = None \<longleftrightarrow> Suc i < w)"

definition warm_up_to :: "nat \<Rightarrow> nat \<Rightarrow> nat \<Rightarrow> decimal option list \<Rightarrow> bool" where
  \<comment> \<open>the same while the loop has filled the entries below \<open>m\<close>\<close>
  "warm_up_to w m n xs \<longleftrightarrow> length xs = n \<and> (\<forall>i < n. xs ! i = None \<longleftrightarrow> Suc i < w \<or> m \<le> i)"

lemma sma_fold_shape:
  assumes "0 < w"
  shows "warm_up w m (snd (fold (sma_step bars (int w)) [0..<m] (0, [])))"
  using assms
proof (induction m)
  case (Suc m)
  then show ?case
    by (auto simp: warm_up_def sma_step_def Let_def nth_append less_Suc_eq split: prod.splits)
qed (simp add: warm_up_def)

lemma fold_cong_elems:
  "(\<And>x s. x \<in> set xs \<Longrightarrow> f x s = g x s) \<Longrightarrow> fold f xs s = fold g xs s"
  by (rule fold_cong) auto

lemma sma_step_past:
  assumes "0 < w" "i < length past"
  shows "sma_step (past @ future) w i acc = sma_step past w i acc"
  using assms by (auto simp: sma_step_def nth_append Let_def split: prod.splits)

lemma sma_step_appends: "\<exists>x. snd (sma_step bars w i acc) = snd acc @ [x]"
  by (simp add: sma_step_def Let_def split: prod.splits)

lemma sma_fold_length: "length (snd (fold (sma_step bars w) [0..<k] (0, []))) = k"
proof (induction k)
  case (Suc k)
  obtain x where "snd (fold (sma_step bars w) [0..<Suc k] (0, [])) =
      snd (fold (sma_step bars w) [0..<k] (0, [])) @ [x]"
    using sma_step_appends[of bars w k "fold (sma_step bars w) [0..<k] (0, [])"] by auto
  then show ?case
    using Suc by simp
qed simp

lemma sma_fold_prefix:
  assumes "m \<le> n"
  shows "take m (snd (fold (sma_step bars w) [0..<n] (0, []))) = snd (fold (sma_step bars w) [0..<m] (0, []))"
  using assms
proof (induction n)
  case (Suc n)
  show ?case
  proof (cases "m = Suc n")
    case True
    then show ?thesis
      using sma_fold_length[of bars w "Suc n"] by simp
  next
    case False
    obtain x where "snd (fold (sma_step bars w) [0..<Suc n] (0, [])) =
        snd (fold (sma_step bars w) [0..<n] (0, [])) @ [x]"
      using sma_step_appends[of bars w n "fold (sma_step bars w) [0..<n] (0, [])"] by auto
    then show ?thesis
      using False Suc sma_fold_length[of bars w n] by simp
  qed
qed simp

lemma sma_causal:
  assumes "simple_moving_averages (past @ future) w = Inr xs"
  shows "simple_moving_averages past w = Inr (take (length past) xs)"
proof -
  have w: "0 < w" and xs: "xs = snd (fold (sma_step (past @ future) w) [0..<length (past @ future)] (0, []))"
    using assms by (auto simp: simple_moving_averages_def result_simps)
  have "take (length past) xs = snd (fold (sma_step (past @ future) w) [0..<length past] (0, []))"
    unfolding xs by (rule sma_fold_prefix) simp
  also have "fold (sma_step (past @ future) w) [0..<length past] (0, []) =
      fold (sma_step past w) [0..<length past] (0, [])"
    using w by (intro fold_cong_elems) (simp add: sma_step_past)
  finally show ?thesis
    using w by (simp add: simple_moving_averages_def)
qed

lemma ema_fold_shape:
  assumes "0 < w" "w \<le> m" "m \<le> n" "warm_up_to w w n vs"
  shows "warm_up_to w m n (snd (fold (ema_step bars k) [w..<m] (p, vs)))"
  using assms(2,3)
proof (induction m rule: dec_induct)
  case base
  then show ?case
    using assms(4) by simp
next
  case (step m)
  then show ?case
    by (auto simp: warm_up_to_def ema_step_def Let_def nth_list_update less_Suc_eq split: prod.splits)
qed

lemma ema_shape:
  assumes "exponential_moving_averages bars w = Inr xs"
  shows "warm_up (nat w) (length bars) xs"
proof (cases "int (length bars) < w")
  case True
  then have "xs = replicate (length bars) None"
    using assms by (auto simp: exponential_moving_averages_def Let_def result_simps)
  then show ?thesis
    using True by (auto simp: warm_up_def)
next
  case False
  then obtain p where w: "0 < w" and xs: "xs = snd (fold (ema_step bars (dec_round (2 / of_int (w + 1))))
      [nat w..<length bars] (p, (replicate (length bars) None)[nat w - 1 := Some p]))"
    using assms by (auto simp: exponential_moving_averages_def Let_def result_simps)
  have "warm_up_to (nat w) (nat w) (length bars) ((replicate (length bars) None)[nat w - 1 := Some p])"
    using w False by (auto simp: warm_up_to_def nth_list_update)
  then have "warm_up_to (nat w) (length bars) (length bars) xs"
    unfolding xs using w False by (intro ema_fold_shape) auto
  then show ?thesis
    by (auto simp: warm_up_def warm_up_to_def)
qed

lemma sma_shape: "simple_moving_averages bars w = Inr xs \<Longrightarrow> warm_up (nat w) (length bars) xs"
  using sma_fold_shape[of "nat w" "length bars" bars]
  by (auto simp: simple_moving_averages_def result_simps)

lemma ema_fold_past:
  assumes "w \<le> m" "m \<le> length past" "take (length past) vs = vs'"
  shows "fst (fold (ema_step (past @ future) k) [w..<m] (p, vs)) = fst (fold (ema_step past k) [w..<m] (p, vs')) \<and>
    take (length past) (snd (fold (ema_step (past @ future) k) [w..<m] (p, vs))) =
      snd (fold (ema_step past k) [w..<m] (p, vs'))"
  using assms(1,2)
proof (induction m rule: dec_induct)
  case base
  then show ?case
    using assms(3) by simp
next
  case (step m)
  then show ?case
    by (auto simp: ema_step_def Let_def nth_append take_update_swap split: prod.splits)
qed

lemma ema_fold_future:
  assumes "k \<le> i" "k \<le> n"
  shows "take k (snd (fold (ema_step bars a) [i..<n] acc)) = take k (snd acc)"
  using assms
proof (induction n)
  case (Suc n)
  then show ?case
    by (cases "k = Suc n") (auto simp: ema_step_def Let_def split: prod.splits)
qed simp

lemma ema_causal:
  assumes "exponential_moving_averages (past @ future) w = Inr xs"
  shows "exponential_moving_averages past w = Inr (take (length past) xs)"
proof -
  let ?n = "length (past @ future)" and ?k = "dec_round (2 / of_int (w + 1))" and ?m = "length past"
  have w: "0 < w"
    using assms by (auto simp: exponential_moving_averages_def result_simps)
  consider "int ?n < w" | "int ?m < w" "w \<le> int ?n" | "w \<le> int ?m"
    by linarith
  then show ?thesis
  proof cases
    case 1
    then show ?thesis
      using assms w by (auto simp: exponential_moving_averages_def Let_def)
  next
    case 2
    then obtain p where "xs = snd (fold (ema_step (past @ future) ?k) [nat w..<?n]
        (p, (replicate ?n None)[nat w - 1 := Some p]))"
      using assms w by (auto simp: exponential_moving_averages_def Let_def)
    then have "take ?m xs = replicate ?m None"
      using 2 by (simp add: ema_fold_future take_update_cancel)
    then show ?thesis
      using 2 w by (simp add: exponential_moving_averages_def Let_def)
  next
    case 3
    let ?p = "dec_round (dsum (map close_price (take (nat w) past)) / of_int w)"
    let ?vs = "(replicate ?n None)[nat w - 1 := Some ?p]"
    let ?vs' = "(replicate ?m None)[nat w - 1 := Some ?p]"
    have xs: "xs = snd (fold (ema_step (past @ future) ?k) [nat w..<?n] (?p, ?vs))"
      using assms w 3 by (simp add: exponential_moving_averages_def Let_def)
    have split: "[nat w..<?n] = [nat w..<?m] @ [?m..<?n]"
      using 3 upt_add_eq_append[of "nat w" ?m "length future"] by simp
    have "take ?m ?vs = ?vs'"
      using 3 by (simp add: take_update_swap)
    then have "take ?m xs = snd (fold (ema_step past ?k) [nat w..<?m] (?p, ?vs'))"
      unfolding xs split using 3 ema_fold_past[of "nat w" ?m past ?vs ?vs' future ?k ?p]
      by (simp add: ema_fold_future)
    then show ?thesis
      using w 3 by (simp add: exponential_moving_averages_def Let_def)
  qed
qed

end
