(* ===== verification/Strategy_Compiler.thy ===== *)
theory Strategy_Compiler
  imports Moving_Averages Strategy_Spec "HOL-Library.Sublist"
begin

text \<open>
  Compiling a validated specification into signals (\<open>app/backtesting/strategy_compiler.py\<close>) and
  the hand-written SMA crossover of \<open>app/backtesting/sma_crossover.py\<close>. A \<open>CompiledStrategy\<close> is
  its specification; its methods take it as first argument.
\<close>

definition evaluate_operand :: "operand \<Rightarrow> market_bar list \<Rightarrow> decimal option list result" where
  "evaluate_operand opnd bars =
     (case opnd of
        PriceOperand _ \<Rightarrow> Inr (map (\<lambda>bar. Some (close_price bar)) bars)
      | ConstantOperand v \<Rightarrow> Inr (map (\<lambda>_. Some v) bars)
      | IndicatorOperand nm _ period \<Rightarrow>
          (case nm of SMA \<Rightarrow> simple_moving_averages bars period
           | EMA \<Rightarrow> exponential_moving_averages bars period))"

fun compare :: "decimal \<Rightarrow> decimal \<Rightarrow> operator \<Rightarrow> bool result" where
  "compare l r GREATER_THAN = Inr (r < l)"
| "compare l r LESS_THAN = Inr (l < r)"
| "compare l r GREATER_THAN_OR_EQUAL = Inr (r \<le> l)"
| "compare l r LESS_THAN_OR_EQUAL = Inr (l \<le> r)"
| "compare l r _ = Inl (StrategyCompilationError ''Unsupported comparison operator.'')"

definition is_crossover :: "operator \<Rightarrow> bool" where
  "is_crossover op \<longleftrightarrow> op = CROSSES_ABOVE \<or> op = CROSSES_BELOW"

definition condition_value ::
    "operator \<Rightarrow> decimal option list \<Rightarrow> decimal option list \<Rightarrow> nat \<Rightarrow> bool result" where
  \<comment> \<open>the loop body of \<open>evaluate_condition\<close>: the value at one index\<close>
  "condition_value op ls rs index =
     (if is_crossover op then
        (if index = 0 then Inr False
         else case (ls ! (index - 1), rs ! (index - 1), ls ! index, rs ! index) of
           (Some previous_left, Some previous_right, Some current_left, Some current_right) \<Rightarrow>
             if op = CROSSES_ABOVE
             then Inr (previous_left \<le> previous_right \<and> current_right < current_left)
             else Inr (previous_right \<le> previous_left \<and> current_left < current_right)
         | _ \<Rightarrow> Inr False)
      else case (ls ! index, rs ! index) of
          (Some current_left, Some current_right) \<Rightarrow> compare current_left current_right op
        | _ \<Rightarrow> Inr False)"

definition evaluate_condition :: "condition \<Rightarrow> market_bar list \<Rightarrow> bool list result" where
  "evaluate_condition c bars =
     res_bind (evaluate_operand (cond_left c) bars) (\<lambda>ls.
     res_bind (evaluate_operand (cond_right c) bars) (\<lambda>rs.
     res_map (condition_value (cond_operator c) ls rs) [0..<length bars]))"

definition signals_at :: "market_bar \<Rightarrow> bool \<Rightarrow> bool \<Rightarrow> signal list" where
  "signals_at bar entry exit =
     (if entry then [\<lparr>sig_timestamp = bar_timestamp bar, sig_type = BUY\<rparr>] else []) @
     (if exit then [\<lparr>sig_timestamp = bar_timestamp bar, sig_type = SELL\<rparr>] else [])"

definition generate_signals :: "strategy_specification \<Rightarrow> market_bar list \<Rightarrow> signal list result" where
  "generate_signals s bars =
     res_bind (evaluate_condition (spec_entry s) bars) (\<lambda>entry_values.
     res_bind (evaluate_condition (spec_exit s) bars) (\<lambda>exit_values.
     Inr (concat (map (\<lambda>i. signals_at (bars ! i) (entry_values ! i) (exit_values ! i)) [0..<length bars]))))"

definition operand_first_evaluable_index :: "operand \<Rightarrow> int" where
  "operand_first_evaluable_index opnd =
     (case opnd of IndicatorOperand _ _ period \<Rightarrow> period - 1 | _ \<Rightarrow> 0)"

definition condition_first_eligible_index :: "condition \<Rightarrow> int" where
  "condition_first_eligible_index c =
     (let warmup_index = max (operand_first_evaluable_index (cond_left c))
                             (operand_first_evaluable_index (cond_right c))
      in if is_crossover (cond_operator c) then warmup_index + 1 else warmup_index)"

definition first_signal_eligible_index :: "strategy_specification \<Rightarrow> market_bar list \<Rightarrow> int" where
  "first_signal_eligible_index s bars =
     max (max (condition_first_eligible_index (spec_entry s)) (condition_first_eligible_index (spec_exit s))) 0"

definition compile_strategy :: "strategy_specification \<Rightarrow> strategy_specification result" where
  "compile_strategy s = res_bind (validate_strategy_semantics s) (\<lambda>_. Inr s)"

definition crossover_signal ::
    "market_bar list \<Rightarrow> decimal option list \<Rightarrow> decimal option list \<Rightarrow> nat \<Rightarrow> signal list" where
  \<comment> \<open>the loop body of \<open>generate_sma_crossover_signals\<close>\<close>
  "crossover_signal bars short_smas long_smas index =
     (case (short_smas ! (index - 1), long_smas ! (index - 1), short_smas ! index, long_smas ! index) of
        (Some previous_short, Some previous_long, Some current_short, Some current_long) \<Rightarrow>
          if previous_short \<le> previous_long \<and> current_long < current_short
          then [\<lparr>sig_timestamp = bar_timestamp (bars ! index), sig_type = BUY\<rparr>]
          else if previous_long \<le> previous_short \<and> current_short < current_long
          then [\<lparr>sig_timestamp = bar_timestamp (bars ! index), sig_type = SELL\<rparr>]
          else []
      | _ \<Rightarrow> [])"

definition generate_sma_crossover_signals ::
    "market_bar list \<Rightarrow> int \<Rightarrow> int \<Rightarrow> signal list result" where
  "generate_sma_crossover_signals bars short_window long_window =
     res_bind (raise_if (short_window \<le> 0 \<or> long_window \<le> 0) (ValueError ''SMA windows must be positive'')) (\<lambda>_.
     res_bind (raise_if (long_window \<le> short_window)
                (ValueError ''short_window must be less than long_window'')) (\<lambda>_.
     res_bind (simple_moving_averages bars short_window) (\<lambda>short_smas.
     res_bind (simple_moving_averages bars long_window) (\<lambda>long_smas.
     Inr (concat (map (crossover_signal bars short_smas long_smas) [1..<length bars]))))))"

text \<open>The specification of the classic crossover.\<close>

definition sma_operand :: "int \<Rightarrow> operand" where
  "sma_operand period = IndicatorOperand SMA ''close'' period"

definition sma_crossover_spec :: "int \<Rightarrow> int \<Rightarrow> strategy_specification" where
  "sma_crossover_spec short_window long_window =
     \<lparr>spec_version = ''1.0'', spec_symbol = ''SPY'', spec_interval = ''1d'',
      spec_entry = \<lparr>cond_left = sma_operand short_window, cond_operator = CROSSES_ABOVE,
                    cond_right = sma_operand long_window\<rparr>,
      spec_exit = \<lparr>cond_left = sma_operand short_window, cond_operator = CROSSES_BELOW,
                   cond_right = sma_operand long_window\<rparr>,
      spec_execution = \<lparr>direction = ''long'', position_size_percent = 100, signal_execution = ''next_bar_open''\<rparr>,
      spec_stop_loss_percent = None, spec_take_profit_percent = None\<rparr>"

definition cross_bars :: "market_bar list" where
  "cross_bars =
     map (\<lambda>(t, p). \<lparr>bar_timestamp = t, open_price = p, high_price = p, low_price = p, close_price = p, volume = 0\<rparr>)
       [(1, 10), (2, 9), (3, 12), (4, 8)]"

subsection \<open>Operands: the interface the conditions rely on\<close>

text \<open>
  A source of values: one entry per bar, absent exactly before the first evaluable index, and
  causal, so that dropping later bars does not change earlier entries.
\<close>

locale value_source =
  fixes series :: "market_bar list \<Rightarrow> decimal option list result" and first :: int
  assumes series_length: "series bars = Inr xs \<Longrightarrow> length xs = length bars"
    and series_absent: "series bars = Inr xs \<Longrightarrow> i < length bars \<Longrightarrow> xs ! i = None \<longleftrightarrow> int i < first"
    and series_causal: "series (past @ future) = Inr xs \<Longrightarrow> series past = Inr (take (length past) xs)"
begin

lemma series_past_nth:
  "series (past @ future) = Inr xs \<Longrightarrow> series past = Inr ys \<Longrightarrow> i < length past \<Longrightarrow> ys ! i = xs ! i"
  using series_causal by fastforce

lemma series_present:
  "series bars = Inr xs \<Longrightarrow> i < length bars \<Longrightarrow> first \<le> int i \<Longrightarrow> \<exists>v. xs ! i = Some v"
  using series_absent by fastforce

end

lemma sma_source:
  "simple_moving_averages bars p = Inr xs \<Longrightarrow>
   length xs = length bars \<and> (\<forall>i < length bars. xs ! i = None \<longleftrightarrow> int i < p - 1)"
  using sma_shape by (auto simp: warm_up_def simple_moving_averages_def result_simps)

lemma ema_source:
  "exponential_moving_averages bars p = Inr xs \<Longrightarrow>
   length xs = length bars \<and> (\<forall>i < length bars. xs ! i = None \<longleftrightarrow> int i < p - 1)"
  using ema_shape by (auto simp: warm_up_def)

interpretation src: value_source "evaluate_operand opnd" "operand_first_evaluable_index opnd" for opnd
proof
  show "length xs = length bars" if "evaluate_operand opnd bars = Inr xs" for bars xs
    using that sma_source ema_source
    by (auto simp: evaluate_operand_def split: operand.splits indicator_name.splits)
  show "xs ! i = None \<longleftrightarrow> int i < operand_first_evaluable_index opnd"
    if "evaluate_operand opnd bars = Inr xs" "i < length bars" for bars xs i
    using that sma_source ema_source
    by (auto simp: evaluate_operand_def operand_first_evaluable_index_def
        split: operand.splits indicator_name.splits)
  show "evaluate_operand opnd past = Inr (take (length past) xs)"
    if "evaluate_operand opnd (past @ future) = Inr xs" for past future xs
    using that sma_causal ema_causal
    by (auto simp: evaluate_operand_def split: operand.splits indicator_name.splits)
qed

subsection \<open>Conditions\<close>

definition holds_at :: "operator \<Rightarrow> decimal option list \<Rightarrow> decimal option list \<Rightarrow> nat \<Rightarrow> bool" where
  "holds_at op ls rs i \<longleftrightarrow> condition_value op ls rs i = Inr True"

lemma compare_total: "\<not> is_crossover op \<Longrightarrow> \<exists>b. compare l r op = Inr b"
  by (cases op) (auto simp: is_crossover_def)

lemma condition_value_total: "condition_value op ls rs i = Inr (holds_at op ls rs i)"
proof -
  have "\<exists>b. condition_value op ls rs i = Inr b"
    using compare_total[of op] by (auto simp: condition_value_def split: option.splits)
  then show ?thesis
    by (auto simp: holds_at_def)
qed

lemma res_map_pure: "(\<And>x. f x = Inr (g x)) \<Longrightarrow> res_map f xs = Inr (map g xs)"
  by (induction xs) auto

lemma evaluate_condition_eq:
  "evaluate_condition c bars =
     res_bind (evaluate_operand (cond_left c) bars) (\<lambda>ls.
     res_bind (evaluate_operand (cond_right c) bars) (\<lambda>rs.
     Inr (map (holds_at (cond_operator c) ls rs) [0..<length bars])))"
  by (simp add: evaluate_condition_def res_map_pure[OF condition_value_total])

lemma evaluate_operand_ok: "operand_ok opnd \<Longrightarrow> \<exists>xs. evaluate_operand opnd bars = Inr xs"
  by (auto simp: operand_ok_def evaluate_operand_def simple_moving_averages_def
      exponential_moving_averages_def Let_def split: operand.splits indicator_name.splits)

lemma evaluate_condition_ok: "condition_ok c \<Longrightarrow> \<exists>vs. evaluate_condition c bars = Inr vs"
  using evaluate_operand_ok[of "cond_left c" bars] evaluate_operand_ok[of "cond_right c" bars]
  by (auto simp: condition_ok_def evaluate_condition_eq)

lemma evaluate_condition_Inr:
  assumes "evaluate_condition c bars = Inr vs"
  obtains ls rs where "evaluate_operand (cond_left c) bars = Inr ls"
    "evaluate_operand (cond_right c) bars = Inr rs"
    "vs = map (holds_at (cond_operator c) ls rs) [0..<length bars]"
  using assms by (auto simp: evaluate_condition_eq result_simps)

lemma holds_at_eligible:
  assumes "evaluate_operand (cond_left c) bars = Inr ls" "evaluate_operand (cond_right c) bars = Inr rs"
    and i: "i < length bars" and h: "holds_at (cond_operator c) ls rs i"
  shows "condition_first_eligible_index c \<le> int i"
proof -
  have abs: "ls ! k = None \<longleftrightarrow> int k < operand_first_evaluable_index (cond_left c)"
    "rs ! k = None \<longleftrightarrow> int k < operand_first_evaluable_index (cond_right c)" if "k < length bars" for k
    using src.series_absent[OF assms(1) that] src.series_absent[OF assms(2) that] by auto
  show ?thesis
  proof (cases "is_crossover (cond_operator c)")
    case True
    then have "0 < i" "ls ! (i - 1) \<noteq> None" "rs ! (i - 1) \<noteq> None"
      using h by (auto simp: holds_at_def condition_value_def split: if_splits option.splits)
    moreover from this(1) have "i - 1 < length bars" "int (i - 1) = int i - 1"
      using i by auto
    ultimately have "operand_first_evaluable_index (cond_left c) \<le> int i - 1"
      "operand_first_evaluable_index (cond_right c) \<le> int i - 1"
      using abs[of "i - 1"] by (metis not_less)+
    then show ?thesis
      using True by (simp add: condition_first_eligible_index_def)
  next
    case False
    then have "ls ! i \<noteq> None" "rs ! i \<noteq> None"
      using h by (auto simp: holds_at_def condition_value_def split: option.splits)
    then show ?thesis
      using abs[of i] i False by (auto simp: condition_first_eligible_index_def)
  qed
qed

lemma evaluate_condition_causal:
  assumes "evaluate_condition c (past @ future) = Inr vs"
  shows "evaluate_condition c past = Inr (take (length past) vs)"
proof -
  obtain ls rs where l: "evaluate_operand (cond_left c) (past @ future) = Inr ls"
    and r: "evaluate_operand (cond_right c) (past @ future) = Inr rs"
    and vs: "vs = map (holds_at (cond_operator c) ls rs) [0..<length (past @ future)]"
    using assms by (rule evaluate_condition_Inr)
  note l' = src.series_causal[OF l] and r' = src.series_causal[OF r]
  have "holds_at (cond_operator c) (take (length past) ls) (take (length past) rs) i =
      holds_at (cond_operator c) ls rs i" if "i < length past" for i
    using that by (simp add: holds_at_def condition_value_def)
  then have "map (holds_at (cond_operator c) (take (length past) ls) (take (length past) rs)) [0..<length past] =
      take (length past) vs"
    by (simp add: vs take_map)
  then show ?thesis
    by (simp add: evaluate_condition_eq l' r')
qed

subsection \<open>Signals\<close>

lemma generate_signals_Inr:
  assumes "generate_signals s bars = Inr sigs"
  obtains en ex where "evaluate_condition (spec_entry s) bars = Inr en"
    "evaluate_condition (spec_exit s) bars = Inr ex"
    "sigs = concat (map (\<lambda>i. signals_at (bars ! i) (en ! i) (ex ! i)) [0..<length bars])"
  using assms by (auto simp: generate_signals_def result_simps)

lemma compile_Inr_iff [result_simps]:
  "compile_strategy s = Inr t \<longleftrightarrow> t = s \<and> validate_strategy_semantics s = Inr ()"
  by (auto simp: compile_strategy_def result_simps)

lemma compiled_signals_total:
  "compile_strategy s = Inr t \<Longrightarrow> \<exists>sigs. generate_signals t bars = Inr sigs"
  using evaluate_condition_ok[of "spec_entry s" bars] evaluate_condition_ok[of "spec_exit s" bars]
  by (auto simp: result_simps generate_signals_def)

lemma generated_eligible:
  assumes "evaluate_condition c bars = Inr vs" "i < length bars" "vs ! i"
  shows "condition_first_eligible_index c \<le> int i"
  using evaluate_condition_Inr[OF assms(1)] holds_at_eligible assms(2,3) by (metis diff_zero length_upt nth_map nth_upt add_0)

text \<open>
  C10. A specification that compiles never fails at run time: on any bars its signals are
  generated, and none of them comes from an index at which the indicators of its condition are
  still warming up. A buy is stamped with a bar at or after the first eligible index of the entry
  condition, a sell with one of the exit condition.
\<close>

theorem compiled_strategy_total:
  assumes "compile_strategy s = Inr compiled"
  shows "compiled = s \<and> (\<exists>sigs. generate_signals compiled bars = Inr sigs \<and>
    (\<forall>x \<in> set sigs. \<exists>i < length bars. sig_timestamp x = bar_timestamp (bars ! i) \<and>
       (case sig_type x of
          BUY \<Rightarrow> condition_first_eligible_index (spec_entry s) \<le> int i
        | SELL \<Rightarrow> condition_first_eligible_index (spec_exit s) \<le> int i)))"
proof -
  have s: "compiled = s"
    using assms by (simp add: result_simps)
  obtain sigs where g: "generate_signals s bars = Inr sigs"
    using compiled_signals_total[OF assms] s by blast
  then obtain en ex where e: "evaluate_condition (spec_entry s) bars = Inr en"
    "evaluate_condition (spec_exit s) bars = Inr ex"
    and sigs: "sigs = concat (map (\<lambda>i. signals_at (bars ! i) (en ! i) (ex ! i)) [0..<length bars])"
    by (rule generate_signals_Inr)
  have "\<exists>i < length bars. sig_timestamp x = bar_timestamp (bars ! i) \<and>
      (case sig_type x of BUY \<Rightarrow> condition_first_eligible_index (spec_entry s) \<le> int i
       | SELL \<Rightarrow> condition_first_eligible_index (spec_exit s) \<le> int i)" if x: "x \<in> set sigs" for x
  proof -
    obtain i where i: "i < length bars" "x \<in> set (signals_at (bars ! i) (en ! i) (ex ! i))"
      using x sigs by auto
    then show ?thesis
      using generated_eligible[OF e(1) i(1)] generated_eligible[OF e(2) i(1)]
      by (auto simp: signals_at_def split: if_splits)
  qed
  then show ?thesis
    using s g by blast
qed

theorem compiled_strategy_total_witness:
  "\<exists>sigs. generate_signals (sma_crossover_spec 1 2) cross_bars = Inr sigs \<and>
    (\<forall>x \<in> set sigs. \<exists>i < length cross_bars. sig_timestamp x = bar_timestamp (cross_bars ! i) \<and>
       (case sig_type x of
          BUY \<Rightarrow> condition_first_eligible_index (spec_entry (sma_crossover_spec 1 2)) \<le> int i
        | SELL \<Rightarrow> condition_first_eligible_index (spec_exit (sma_crossover_spec 1 2)) \<le> int i))"
proof -
  have "compile_strategy (sma_crossover_spec 1 2) = Inr (sma_crossover_spec 1 2)"
    by code_simp
  from compiled_strategy_total[OF this, of cross_bars] show ?thesis
    by blast
qed

lemma generate_signals_causal:
  assumes "generate_signals s (past @ future) = Inr sigs"
  shows "\<exists>sigs' rest. generate_signals s past = Inr sigs' \<and> sigs = sigs' @ rest \<and>
    (\<forall>x \<in> set rest. sig_timestamp x \<in> set (map bar_timestamp future))"
proof -
  obtain en ex where e: "evaluate_condition (spec_entry s) (past @ future) = Inr en"
    "evaluate_condition (spec_exit s) (past @ future) = Inr ex"
    and sigs: "sigs = concat (map (\<lambda>i. signals_at ((past @ future) ! i) (en ! i) (ex ! i)) [0..<length (past @ future)])"
    using assms by (rule generate_signals_Inr)
  let ?f = "\<lambda>i. signals_at ((past @ future) ! i) (en ! i) (ex ! i)"
  let ?rest = "concat (map ?f [length past..<length (past @ future)])"
  have split: "[0..<length (past @ future)] = [0..<length past] @ [length past..<length (past @ future)]"
    using upt_add_eq_append[of 0 "length past" "length future"] by simp
  have "map (\<lambda>i. signals_at (past ! i) (take (length past) en ! i) (take (length past) ex ! i)) [0..<length past] =
      map ?f [0..<length past]"
    by (simp add: nth_append)
  then have "generate_signals s past = Inr (concat (map ?f [0..<length past]))"
    unfolding generate_signals_def evaluate_condition_causal[OF e(1)] evaluate_condition_causal[OF e(2)]
    by (simp only: res_bind_simps)
  moreover have "sigs = concat (map ?f [0..<length past]) @ ?rest"
    unfolding sigs split by simp
  moreover have "sig_timestamp x \<in> set (map bar_timestamp future)" if x: "x \<in> set ?rest" for x
  proof -
    obtain i where "length past \<le> i" "i < length (past @ future)" "x \<in> set (?f i)"
      using x by auto
    then show ?thesis
      by (auto simp: signals_at_def nth_append split: if_splits)
  qed
  ultimately show ?thesis
    by blast
qed

text \<open>
  Signals have no look-ahead: adding later bars leaves every signal of the earlier bars in
  place, in order, and only appends signals stamped with the new bars.
\<close>

lemma signals_no_lookahead:
  assumes "generate_signals s (past @ future) = Inr sigs"
  shows "\<exists>sigs' rest. generate_signals s past = Inr sigs' \<and> sigs = sigs' @ rest \<and>
    (\<forall>x \<in> set rest. sig_timestamp x \<in> set (map bar_timestamp future))"
  using generate_signals_causal[OF assms] .

lemma signals_no_lookahead_witness:
  "\<exists>sigs' rest. generate_signals (sma_crossover_spec 1 2) (take 3 cross_bars) = Inr sigs' \<and>
    [\<lparr>sig_timestamp = 3, sig_type = BUY\<rparr>, \<lparr>sig_timestamp = 4, sig_type = SELL\<rparr>] = sigs' @ rest \<and>
    (\<forall>x \<in> set rest. sig_timestamp x \<in> set (map bar_timestamp (drop 3 cross_bars)))"
proof -
  have "generate_signals (sma_crossover_spec 1 2) (take 3 cross_bars @ drop 3 cross_bars) =
      Inr [\<lparr>sig_timestamp = 3, sig_type = BUY\<rparr>, \<lparr>sig_timestamp = 4, sig_type = SELL\<rparr>]"
    by code_simp
  then show ?thesis
    by (rule signals_no_lookahead)
qed

subsection \<open>The hand-written SMA crossover\<close>

lemma crossover_signal_eq:
  "0 < i \<Longrightarrow> crossover_signal bars ls rs i =
     signals_at (bars ! i) (holds_at CROSSES_ABOVE ls rs i) (holds_at CROSSES_BELOW ls rs i)"
  by (auto simp: crossover_signal_def holds_at_def condition_value_def is_crossover_def signals_at_def
      split: option.splits)

lemma holds_at_zero: "is_crossover op \<Longrightarrow> \<not> holds_at op ls rs 0"
  by (simp add: holds_at_def condition_value_def)

text \<open>
  C11. The hand-written crossover and the compiler agree: for valid windows,
  \<open>generate_sma_crossover_signals\<close> returns exactly the signals of the compiled specification whose
  entry is the short SMA crossing above the long one and whose exit is the opposite crossing.
\<close>

theorem sma_crossover_equivalence:
  assumes "0 < short" "short < long"
  shows "generate_sma_crossover_signals bars short long = generate_signals (sma_crossover_spec short long) bars"
proof -
  obtain ls rs where l: "simple_moving_averages bars short = Inr ls"
    and r: "simple_moving_averages bars long = Inr rs"
    using assms by (simp add: simple_moving_averages_def)
  let ?f = "\<lambda>i. signals_at (bars ! i) (holds_at CROSSES_ABOVE ls rs i) (holds_at CROSSES_BELOW ls rs i)"
  have "generate_signals (sma_crossover_spec short long) bars = Inr (concat (map ?f [0..<length bars]))"
    by (auto simp: generate_signals_def sma_crossover_spec_def evaluate_condition_eq evaluate_operand_def
        sma_operand_def l r intro!: arg_cong[where f = concat])
  also have "concat (map ?f [0..<length bars]) = concat (map ?f [1..<length bars])"
  proof (cases "bars = []")
    case False
    then have "[0..<length bars] = 0 # [1..<length bars]"
      by (simp add: upt_conv_Cons)
    then show ?thesis
      by (simp add: holds_at_zero is_crossover_def signals_at_def)
  qed simp
  also have "map ?f [1..<length bars] = map (crossover_signal bars ls rs) [1..<length bars]"
    by (auto simp: crossover_signal_eq)
  finally show ?thesis
    using assms l r by (simp add: generate_sma_crossover_signals_def)
qed

theorem sma_crossover_equivalence_witness:
  "generate_sma_crossover_signals cross_bars 1 2 = generate_signals (sma_crossover_spec 1 2) cross_bars \<and>
   generate_sma_crossover_signals cross_bars 1 2 =
     Inr [\<lparr>sig_timestamp = 3, sig_type = BUY\<rparr>, \<lparr>sig_timestamp = 4, sig_type = SELL\<rparr>]"
proof -
  have "generate_sma_crossover_signals cross_bars 1 2 =
      Inr [\<lparr>sig_timestamp = 3, sig_type = BUY\<rparr>, \<lparr>sig_timestamp = 4, sig_type = SELL\<rparr>]"
    by code_simp
  then show ?thesis
    using sma_crossover_equivalence[of 1 2 cross_bars] by simp
qed

text \<open>
  Opposite crossovers exclude each other: if the exit is the entry's crossover in the other
  direction, no bar is both a buy and a sell signal.
\<close>

lemma opposite_crossovers_exclusive:
  assumes "evaluate_condition \<lparr>cond_left = l, cond_operator = CROSSES_ABOVE, cond_right = r\<rparr> bars = Inr ups"
    and "evaluate_condition \<lparr>cond_left = l, cond_operator = CROSSES_BELOW, cond_right = r\<rparr> bars = Inr downs"
    and "i < length bars"
  shows "\<not> (ups ! i \<and> downs ! i)"
  using assms
  by (auto simp: evaluate_condition_eq result_simps holds_at_def condition_value_def is_crossover_def
      split: option.splits if_splits)

lemma opposite_crossovers_exclusive_witness:
  "\<not> ([False, False, True, False] ! 2 \<and> [False, False, False, True] ! 2)"
proof -
  have a: "evaluate_condition \<lparr>cond_left = sma_operand 1, cond_operator = CROSSES_ABOVE,
      cond_right = sma_operand 2\<rparr> cross_bars = Inr [False, False, True, False]"
    by code_simp
  have b: "evaluate_condition \<lparr>cond_left = sma_operand 1, cond_operator = CROSSES_BELOW,
      cond_right = sma_operand 2\<rparr> cross_bars = Inr [False, False, False, True]"
    by code_simp
  show ?thesis
    using opposite_crossovers_exclusive[OF a b, of 2] by (simp add: cross_bars_def)
qed

end
