(* ===== verification/Strategy_Review.thy ===== *)
theory Strategy_Review
  imports Strategy_Parser Strategy_Compiler
begin

text \<open>
  What a parsed strategy guarantees, whatever the language model's draft says: it compiles, its
  risk controls come from the text alone, nothing explicit is changed, and confirmation is
  required exactly when something was inferred.
\<close>

lemma construct_Inr_iff [result_simps]: "construct P x = Inr y \<longleftrightarrow> P x \<and> y = x"
  by (auto simp: construct_def)

lemma construct_Inl_iff [result_simps]: "construct P x = Inl e \<longleftrightarrow> \<not> P x \<and> e = ValidationError ''''"
  by (auto simp: construct_def)

lemma field_or_default_cases:
  "field_or_default v d f nm reason st = (x, st') \<Longrightarrow>
   ns_assumptions st' = ns_assumptions st \<and> (v = Some x \<or> v = None \<and> x = d)"
  by (auto simp: field_or_default_def apply_default_def split: option.splits)

subsection \<open>Operands and conditions\<close>

definition operand_inferred :: "operand_draft \<Rightarrow> bool" where
  \<comment> \<open>the moving-average type has to be assumed\<close>
  "operand_inferred d \<longleftrightarrow> od_type d = INDICATOR \<and> od_name d = None"

definition condition_inferred :: "condition_draft \<Rightarrow> bool" where
  "condition_inferred c \<longleftrightarrow> operand_inferred (cd_left c) \<or> operand_inferred (cd_right c)"

definition operand_matches :: "operand_draft \<Rightarrow> operand \<Rightarrow> bool" where
  \<comment> \<open>the operand says what the draft says, an omitted average type being SMA\<close>
  "operand_matches d opnd \<longleftrightarrow>
     (case opnd of
        IndicatorOperand n src p \<Rightarrow>
          od_type d = INDICATOR \<and> od_period d = Some p \<and> src = ''close'' \<and>
          n = (case od_name d of Some m \<Rightarrow> m | None \<Rightarrow> SMA)
      | PriceOperand src \<Rightarrow> od_type d = PRICE \<and> src = ''close''
      | ConstantOperand v \<Rightarrow> od_type d = CONSTANT \<and> od_value d = Some v)"

definition condition_matches :: "condition_draft \<Rightarrow> condition \<Rightarrow> bool" where
  "condition_matches d c \<longleftrightarrow>
     operand_matches (cd_left d) (cond_left c) \<and> cd_operator d = Some (cond_operator c) \<and>
     operand_matches (cd_right d) (cond_right c)"

lemma normalize_operand_Inr:
  assumes "normalize_operand d nm st = Inr (opnd, st')"
  shows "operand_matches d opnd \<and>
    (\<exists>as. ns_assumptions st' = ns_assumptions st @ as \<and> (as = [] \<longleftrightarrow> \<not> operand_inferred d))"
proof (cases "od_type d")
  case INDICATOR
  then obtain p where p: "od_period d = Some p"
    using assms by (auto simp: normalize_operand_def split: option.splits)
  show ?thesis
    using assms INDICATOR p
    by (auto simp: normalize_operand_def normalize_source_def operand_matches_def operand_inferred_def
        operand_schema_def add_assumption_def result_simps dest!: field_or_default_cases split: option.splits prod.splits)
next
  case PRICE
  then show ?thesis
    using assms
    by (auto simp: normalize_operand_def normalize_source_def operand_matches_def operand_inferred_def
        operand_schema_def result_simps dest!: field_or_default_cases split: prod.splits)
next
  case CONSTANT
  then show ?thesis
    using assms
    by (auto simp: normalize_operand_def operand_matches_def operand_inferred_def split: option.splits)
qed

lemma operand_matches_unique:
  "operand_matches d x \<Longrightarrow> operand_matches d y \<Longrightarrow> x = y"
  by (cases x; cases y) (auto simp: operand_matches_def)

lemma normalize_condition_Inr:
  assumes "normalize_condition d nm st = Inr (c, st')"
  shows "condition_matches d c \<and>
    (\<exists>as. ns_assumptions st' = ns_assumptions st @ as \<and> (as = [] \<longleftrightarrow> \<not> condition_inferred d))"
proof -
  obtain op l r st1 where op: "cd_operator d = Some op"
    and l: "normalize_operand (cd_left d) (nm @ ''.left'') st = Inr (l, st1)"
    and r: "normalize_operand (cd_right d) (nm @ ''.right'') st1 = Inr (r, st')"
    and c: "c = \<lparr>cond_left = l, cond_operator = op, cond_right = r\<rparr>"
    using assms by (auto simp: normalize_condition_def result_simps split: option.splits)
  show ?thesis
    using normalize_operand_Inr[OF l] normalize_operand_Inr[OF r] op
    by (auto simp: condition_matches_def condition_inferred_def c)
qed

subsection \<open>Completing the rules\<close>

lemma opposite_crossover_Inr:
  "opposite_crossover_draft c = Inr d \<longleftrightarrow>
   (\<exists>op op'. cd_operator c = Some op \<and> opposite op = Some op' \<and>
      d = \<lparr>cd_left = cd_left c, cd_operator = Some op', cd_right = cd_right c\<rparr>)"
  by (auto simp: opposite_crossover_draft_def bind_eq_Some_conv split: option.splits)

lemma opposite_sym: "opposite op = Some op' \<Longrightarrow> opposite op' = Some op"
  by (cases op) auto

lemma opposite_crossover_sym:
  assumes "opposite_crossover_draft x = Inr en \<or> opposite_crossover_draft en = Inr x"
  shows "cd_left en = cd_left x \<and> cd_right en = cd_right x \<and>
    (\<exists>op op'. cd_operator en = Some op \<and> cd_operator x = Some op' \<and> opposite op = Some op')"
  using assms
proof
  assume "opposite_crossover_draft x = Inr en"
  then obtain op op' where "cd_operator x = Some op" "opposite op = Some op'"
    "en = \<lparr>cd_left = cd_left x, cd_operator = Some op', cd_right = cd_right x\<rparr>"
    unfolding opposite_crossover_Inr by blast
  then show ?thesis
    using opposite_sym[of op op'] by simp
next
  assume "opposite_crossover_draft en = Inr x"
  then show ?thesis
    unfolding opposite_crossover_Inr by fastforce
qed

lemma infer_shorthand_cases:
  assumes "infer_shorthand_pair f text st = ((en, x), st')"
  shows "(en = None \<and> x = None \<and> st' = st) \<or>
    (\<exists>e y a. en = Some e \<and> x = Some y \<and> ns_assumptions st' = ns_assumptions st @ [a])"
  using assms
  by (auto simp: infer_shorthand_pair_def add_assumption_def Let_def split: option.splits prod.splits if_splits)

lemma complete_rules_Inr:
  assumes "complete_rules f text en x st = Inr (en', x', st')"
  shows "(\<exists>as. ns_assumptions st' = ns_assumptions st @ as \<and> (as = [] \<longleftrightarrow> en \<noteq> None \<and> x \<noteq> None)) \<and>
    (\<forall>e. en = Some e \<longrightarrow> en' = e) \<and> (\<forall>y. x = Some y \<longrightarrow> x' = y) \<and>
    (en = None \<and> x \<noteq> None \<longrightarrow> opposite_crossover_draft x' = Inr en') \<and>
    (en \<noteq> None \<and> x = None \<longrightarrow> opposite_crossover_draft en' = Inr x')"
proof (cases "en = None \<and> x = None")
  case True
  obtain e0 x0 st0 where i: "infer_shorthand_pair f text st = ((e0, x0), st0)"
    by (metis prod.exhaust)
  show ?thesis
    using assms True infer_shorthand_cases[OF i] i
    by (auto simp: complete_rules_def)
next
  case False
  then show ?thesis
    using assms
    by (cases en; cases x) (auto simp: complete_rules_def result_simps add_assumption_def)
qed

subsection \<open>The whole normalization\<close>

lemma normalize_Inr:
  assumes "normalize_strategy_draft f d text = Inr r"
  obtains rc en x st0 st6 st7 st8 where
    "ns_assumptions st0 = []"
    "complete_rules f text (draft_entry d) (draft_exit d) st0 = Inr (en, x, st6)"
    "extract_risk_controls f text = Inr rc"
    "normalize_condition en ''entry'' st6 = Inr (spec_entry (pr_specification r), st7)"
    "normalize_condition x ''exit'' st7 = Inr (spec_exit (pr_specification r), st8)"
    "spec_schema (pr_specification r)" "validate_strategy_semantics (pr_specification r) = Inr ()"
    "spec_stop_loss_percent (pr_specification r) = rc_stop_loss_percent rc"
    "spec_take_profit_percent (pr_specification r) = rc_take_profit_percent rc"
    "pr_assumptions r = ns_assumptions st8" "pr_requires_confirmation r = (ns_assumptions st8 \<noteq> [])"
    "pr_original_text r = text"
proof -
  obtain a st1 b st2 c st3 s st4 g st5 where
    f1: "field_or_default (draft_symbol d) ''SPY'' JStr ''symbol'' ''SPY is the only supported symbol.''
      \<lparr>ns_defaults = [], ns_assumptions = []\<rparr> = (a, st1)"
    and f2: "field_or_default (draft_interval d) ''1d'' JStr ''interval''
      ''Daily bars are fixed in version 1.'' st1 = (b, st2)"
    and f3: "field_or_default (draft_direction d) ''long'' JStr ''execution.direction''
      ''Long-only execution is fixed in version 1.'' st2 = (c, st3)"
    and f4: "field_or_default (draft_position_size_percent d) 100 JInt ''execution.position_size_percent''
      ''Position sizing is fixed at 100% of available cash in version 1.'' st3 = (s, st4)"
    and f5: "field_or_default (draft_signal_execution d) ''next_bar_open'' JStr ''execution.signal_execution''
      ''Signals execute at the next available trading bar open in version 1.'' st4 = (g, st5)"
    by (metis prod.exhaust)
  have "ns_assumptions st5 = []"
    using f1 f2 f3 f4 f5 by (auto dest!: field_or_default_cases)
  then show thesis
    using assms that[of st5]
    unfolding normalize_strategy_draft_def f1 f2 f3 f4 f5 Let_def prod.case
    by (auto simp: res_bind_Inr_iff construct_Inr_iff)
qed

text \<open>
  C13. Parsing is safe for any provider: whatever draft the language model returns, a parsed
  strategy satisfies the schema and compiles unchanged, quotes the user's text, and carries exactly
  the risk controls extracted from that text, so the model can neither invent nor alter them.
\<close>

theorem parsed_strategy_valid:
  assumes "parse_strategy f provider key model text = Inr r"
  shows "spec_schema (pr_specification r) \<and>
    compile_strategy (pr_specification r) = Inr (pr_specification r) \<and> pr_original_text r = text \<and>
    extract_risk_controls f text =
      Inr \<lparr>rc_stop_loss_percent = spec_stop_loss_percent (pr_specification r),
           rc_take_profit_percent = spec_take_profit_percent (pr_specification r)\<rparr>"
proof -
  obtain d where "normalize_strategy_draft f d text = Inr r"
    using assms by (auto simp: parse_strategy_def result_simps split: option.splits if_splits)
  then show ?thesis
    by (rule normalize_Inr) (auto simp: compile_Inr_iff)
qed

definition golden_draft :: strategy_parse_draft where
  "golden_draft =
     \<lparr>draft_symbol = None, draft_interval = None,
      draft_entry = Some \<lparr>cd_left = \<lparr>od_type = INDICATOR, od_name = Some SMA, od_source = None, od_period = Some 50, od_value = None\<rparr>,
                          cd_operator = Some CROSSES_ABOVE,
                          cd_right = \<lparr>od_type = INDICATOR, od_name = Some EMA, od_source = Some ''close'', od_period = Some 200, od_value = None\<rparr>\<rparr>,
      draft_exit = None, draft_direction = Some ''long'', draft_position_size_percent = None,
      draft_signal_execution = None\<rparr>"

definition golden_result :: parsed_strategy_result where
  "golden_result =
     (case normalize_strategy_draft (\<lambda>_. []) golden_draft ''buy with a 5% stop loss'' of Inr r \<Rightarrow> r)"

lemma golden_normalized:
  "normalize_strategy_draft (\<lambda>_. []) golden_draft ''buy with a 5% stop loss'' = Inr golden_result"
proof -
  have "(case normalize_strategy_draft (\<lambda>_. []) golden_draft ''buy with a 5% stop loss'' of Inr r \<Rightarrow> True | Inl e \<Rightarrow> False)"
    by code_simp
  then show ?thesis
    by (auto simp: golden_result_def split: sum.splits)
qed

lemma golden_text_ok:
  "validate_strategy_text (\<lambda>_. []) ''buy with a 5% stop loss'' = Inr ()"
  "list_all is_space ''buy with a 5% stop loss'' = False"
  by code_simp+

theorem parsed_strategy_valid_witness:
  "compile_strategy (pr_specification golden_result) = Inr (pr_specification golden_result) \<and>
   pr_original_text golden_result = ''buy with a 5% stop loss''"
proof -
  have "parse_strategy (\<lambda>_. []) (\<lambda>_ _ _. Inr golden_draft) (Some ''key'') (Some ''model'')
      ''buy with a 5% stop loss'' = Inr golden_result"
    unfolding parse_strategy_def golden_text_ok by (simp add: golden_normalized)
  then show ?thesis
    using parsed_strategy_valid by blast
qed

text \<open>
  Confirmation is required exactly when something was inferred: a result asks for no
  confirmation precisely if the draft states both rules and names the type of every moving
  average in them, and the flag always agrees with the recorded assumptions.
\<close>

lemma confirmation_exact:
  assumes "normalize_strategy_draft f d text = Inr r"
  shows "(pr_requires_confirmation r \<longleftrightarrow> pr_assumptions r \<noteq> []) \<and>
    (\<not> pr_requires_confirmation r \<longleftrightarrow>
       (\<exists>en x. draft_entry d = Some en \<and> draft_exit d = Some x \<and>
          \<not> condition_inferred en \<and> \<not> condition_inferred x))"
  using assms
proof (rule normalize_Inr)
  fix rc en x st0 st6 st7 st8
  assume a: "ns_assumptions st0 = []"
    "complete_rules f text (draft_entry d) (draft_exit d) st0 = Inr (en, x, st6)"
    "normalize_condition en ''entry'' st6 = Inr (spec_entry (pr_specification r), st7)"
    "normalize_condition x ''exit'' st7 = Inr (spec_exit (pr_specification r), st8)"
    "pr_assumptions r = ns_assumptions st8" "pr_requires_confirmation r = (ns_assumptions st8 \<noteq> [])"
  show ?thesis
    using complete_rules_Inr[OF a(2)] normalize_condition_Inr[OF a(3)] normalize_condition_Inr[OF a(4)] a(1,5,6)
    by auto
qed

lemma confirmation_exact_witness:
  "\<not> (\<exists>en x. draft_entry golden_draft = Some en \<and> draft_exit golden_draft = Some x \<and>
       \<not> condition_inferred en \<and> \<not> condition_inferred x) \<and> pr_requires_confirmation golden_result"
  using confirmation_exact[OF golden_normalized] by (auto simp: golden_draft_def)

text \<open>
  C14. Normalization is faithful to the draft: a stated rule is translated operand by operand with
  its own operator, periods and constants, and an omitted rule becomes the other rule's operands
  with the opposite crossover.
\<close>

theorem normalization_faithful:
  assumes "normalize_strategy_draft f d text = Inr r"
  shows "(\<forall>en. draft_entry d = Some en \<longrightarrow> condition_matches en (spec_entry (pr_specification r))) \<and>
    (\<forall>x. draft_exit d = Some x \<longrightarrow> condition_matches x (spec_exit (pr_specification r))) \<and>
    ((draft_entry d = None) \<noteq> (draft_exit d = None) \<longrightarrow>
       cond_left (spec_entry (pr_specification r)) = cond_left (spec_exit (pr_specification r)) \<and>
       cond_right (spec_entry (pr_specification r)) = cond_right (spec_exit (pr_specification r)) \<and>
       opposite (cond_operator (spec_entry (pr_specification r))) =
         Some (cond_operator (spec_exit (pr_specification r))))"
  using assms
proof (rule normalize_Inr)
  fix rc en x st0 st6 st7 st8
  assume a: "complete_rules f text (draft_entry d) (draft_exit d) st0 = Inr (en, x, st6)"
    "normalize_condition en ''entry'' st6 = Inr (spec_entry (pr_specification r), st7)"
    "normalize_condition x ''exit'' st7 = Inr (spec_exit (pr_specification r), st8)"
  note c = complete_rules_Inr[OF a(1)]
  have m: "condition_matches en (spec_entry (pr_specification r))" "condition_matches x (spec_exit (pr_specification r))"
    using normalize_condition_Inr[OF a(2)] normalize_condition_Inr[OF a(3)] by auto
  have opp: "cd_left en = cd_left x" "cd_right en = cd_right x"
    "\<exists>op op'. cd_operator en = Some op \<and> cd_operator x = Some op' \<and> opposite op = Some op'"
    if one: "(draft_entry d = None) \<noteq> (draft_exit d = None)"
  proof -
    have "opposite_crossover_draft x = Inr en \<or> opposite_crossover_draft en = Inr x"
      using c one by (cases "draft_entry d"; cases "draft_exit d"; simp)
    then show "cd_left en = cd_left x" "cd_right en = cd_right x"
      "\<exists>op op'. cd_operator en = Some op \<and> cd_operator x = Some op' \<and> opposite op = Some op'"
      using opposite_crossover_sym by blast+
  qed
  have same: "cond_left (spec_entry (pr_specification r)) = cond_left (spec_exit (pr_specification r)) \<and>
      cond_right (spec_entry (pr_specification r)) = cond_right (spec_exit (pr_specification r)) \<and>
      opposite (cond_operator (spec_entry (pr_specification r))) = Some (cond_operator (spec_exit (pr_specification r)))"
    if one: "(draft_entry d = None) \<noteq> (draft_exit d = None)"
  proof -
    have "operand_matches (cd_left en) (cond_left (spec_exit (pr_specification r)))"
      "operand_matches (cd_right en) (cond_right (spec_exit (pr_specification r)))"
      using m(2) opp(1,2)[OF one] by (simp_all add: condition_matches_def)
    then show ?thesis
      using m opp(3)[OF one] operand_matches_unique unfolding condition_matches_def by auto
  qed
  have "\<forall>e. draft_entry d = Some e \<longrightarrow> condition_matches e (spec_entry (pr_specification r))"
    "\<forall>y. draft_exit d = Some y \<longrightarrow> condition_matches y (spec_exit (pr_specification r))"
    using c m by auto
  then show ?thesis
    using same by blast
qed

theorem normalization_faithful_witness:
  "cond_left (spec_exit (pr_specification golden_result)) = IndicatorOperand SMA ''close'' 50 \<and>
   cond_operator (spec_exit (pr_specification golden_result)) = CROSSES_BELOW"
proof -
  let ?s = "pr_specification golden_result"
  have m: "condition_matches (the (draft_entry golden_draft)) (spec_entry ?s)"
    and o: "cond_left (spec_entry ?s) = cond_left (spec_exit ?s)"
      "opposite (cond_operator (spec_entry ?s)) = Some (cond_operator (spec_exit ?s))"
    using normalization_faithful[OF golden_normalized] by (simp_all add: golden_draft_def)
  have "operand_matches (cd_left (the (draft_entry golden_draft))) (IndicatorOperand SMA ''close'' 50)"
    by (simp add: operand_matches_def golden_draft_def)
  moreover have "operand_matches (cd_left (the (draft_entry golden_draft))) (cond_left (spec_entry ?s))"
    "cd_operator (the (draft_entry golden_draft)) = Some (cond_operator (spec_entry ?s))"
    using m by (simp_all only: condition_matches_def)
  moreover from this(2) have "cond_operator (spec_entry ?s) = CROSSES_ABOVE"
    by (simp add: golden_draft_def)
  ultimately show ?thesis
    using o operand_matches_unique by auto
qed

definition literal_or_absent :: "'a \<Rightarrow> 'a option \<Rightarrow> bool" where
  "literal_or_absent l v \<longleftrightarrow> v = None \<or> v = Some l"

definition condition_draft_schema :: "condition_draft \<Rightarrow> bool" where
  "condition_draft_schema c \<longleftrightarrow>
     literal_or_absent ''close'' (od_source (cd_left c)) \<and> literal_or_absent ''close'' (od_source (cd_right c))"

definition parse_draft_schema :: "strategy_parse_draft \<Rightarrow> bool" where
  \<comment> \<open>the literals of \<open>StrategyParseDraft\<close>\<close>
  "parse_draft_schema d \<longleftrightarrow>
     literal_or_absent ''SPY'' (draft_symbol d) \<and> literal_or_absent ''1d'' (draft_interval d) \<and>
     literal_or_absent ''long'' (draft_direction d) \<and>
     literal_or_absent 100 (draft_position_size_percent d) \<and>
     literal_or_absent ''next_bar_open'' (draft_signal_execution d) \<and>
     pred_option condition_draft_schema (draft_entry d) \<and> pred_option condition_draft_schema (draft_exit d)"

lemma field_or_default_literal:
  "field_or_default v d f nm reason st = (x, st') \<Longrightarrow> literal_or_absent d v \<Longrightarrow> x = d"
  by (auto simp: field_or_default_def literal_or_absent_def split: option.splits)

lemma normalize_operand_error:
  assumes "normalize_operand d nm st = Inl e" "literal_or_absent ''close'' (od_source d)"
  shows "\<exists>m. e = StrategyValidationError m"
  using assms
  by (auto simp: normalize_operand_def normalize_source_def result_simps operand_schema_def
      dest: field_or_default_literal split: draft_type.splits option.splits prod.splits)

lemma normalize_condition_error:
  assumes "normalize_condition c nm st = Inl e" "condition_draft_schema c"
  shows "\<exists>m. e = StrategyValidationError m"
  using assms
  by (auto simp: normalize_condition_def condition_draft_schema_def result_simps split: option.splits
      dest: normalize_operand_error)

lemma opposite_crossover_error: "opposite_crossover_draft c = Inl e \<Longrightarrow> \<exists>m. e = StrategyValidationError m"
  by (auto simp: opposite_crossover_draft_def split: option.splits)

lemma complete_rules_error: "complete_rules f text en x st = Inl e \<Longrightarrow> \<exists>m. e = StrategyValidationError m"
  by (auto simp: complete_rules_def Let_def result_simps dest: opposite_crossover_error
      split: prod.splits option.splits if_splits)

lemma infer_shorthand_schema:
  assumes "infer_shorthand_pair f text st = ((en, x), st')"
  shows "pred_option condition_draft_schema en \<and> pred_option condition_draft_schema x"
  using assms
  by (auto simp: infer_shorthand_pair_def Let_def crossover_draft_def condition_draft_schema_def
      literal_or_absent_def split: option.splits prod.splits if_splits)

lemma complete_rules_schema:
  assumes "complete_rules f text en x st = Inr (en', x', st')"
    and "pred_option condition_draft_schema en" "pred_option condition_draft_schema x"
  shows "condition_draft_schema en' \<and> condition_draft_schema x'"
proof (cases "en = None \<and> x = None")
  case True
  obtain e0 x0 st0 where i: "infer_shorthand_pair f text st = ((e0, x0), st0)"
    by (metis prod.exhaust)
  show ?thesis
    using assms(1) True infer_shorthand_schema[OF i] infer_shorthand_cases[OF i] i
    by (auto simp: complete_rules_def)
next
  case False
  have "condition_draft_schema c' = condition_draft_schema c" if "opposite_crossover_draft c = Inr c'" for c c'
    using that by (auto simp: opposite_crossover_Inr condition_draft_schema_def)
  then show ?thesis
    using complete_rules_Inr[OF assms(1)] assms(2,3) False by (cases en; cases x) auto
qed

lemma normalize_draft_error:
  assumes "normalize_strategy_draft f d text = Inl e" "parse_draft_schema d"
  shows "\<exists>m. e = StrategyValidationError m"
proof -
  obtain a st1 b st2 c st3 s st4 g st5 where
    f1: "field_or_default (draft_symbol d) ''SPY'' JStr ''symbol'' ''SPY is the only supported symbol.''
      \<lparr>ns_defaults = [], ns_assumptions = []\<rparr> = (a, st1)"
    and f2: "field_or_default (draft_interval d) ''1d'' JStr ''interval''
      ''Daily bars are fixed in version 1.'' st1 = (b, st2)"
    and f3: "field_or_default (draft_direction d) ''long'' JStr ''execution.direction''
      ''Long-only execution is fixed in version 1.'' st2 = (c, st3)"
    and f4: "field_or_default (draft_position_size_percent d) 100 JInt ''execution.position_size_percent''
      ''Position sizing is fixed at 100% of available cash in version 1.'' st3 = (s, st4)"
    and f5: "field_or_default (draft_signal_execution d) ''next_bar_open'' JStr ''execution.signal_execution''
      ''Signals execute at the next available trading bar open in version 1.'' st4 = (g, st5)"
    by (metis prod.exhaust)
  have lit: "a = ''SPY''" "b = ''1d''" "c = ''long''" "s = 100" "g = ''next_bar_open''"
    using f1 f2 f3 f4 f5 assms(2) by (auto simp: parse_draft_schema_def dest: field_or_default_literal)
  have matches: "condition_schema k" if "condition_matches q k" for q k
    using that by (auto simp: condition_matches_def operand_matches_def condition_schema_def operand_schema_def
        split: operand.splits)
  have ds: "pred_option condition_draft_schema (draft_entry d)" "pred_option condition_draft_schema (draft_exit d)"
    using assms(2) by (simp_all add: parse_draft_schema_def)
  show ?thesis
    using assms(1) unfolding normalize_strategy_draft_def f1 f2 f3 f4 f5 Let_def prod.case lit
    by (auto simp: res_bind_Inl_iff construct_Inl_iff construct_Inr_iff execution_schema_def spec_schema_def
        dest!: complete_rules_error normalize_condition_error extract_risk_controls_error validate_semantics_error
        dest: extract_risk_controls_schema complete_rules_schema[OF _ ds] normalize_condition_Inr matches)
qed

text \<open>
  Normalization fails cleanly: on a draft of the declared schema the only exception is the
  user-facing \<open>StrategyValidationError\<close>; building the specification never violates its schema,
  although the draft's fields are optional and the risk percentages come from free text.
\<close>

lemma normalization_errors:
  assumes "normalize_strategy_draft f d text = Inl e" "parse_draft_schema d"
  shows "\<exists>m. e = StrategyValidationError m"
  by (rule normalize_draft_error[OF assms])

lemma normalization_errors_witness:
  "\<exists>m. normalize_strategy_draft (\<lambda>_. []) (golden_draft\<lparr>draft_entry := None\<rparr>) ''buy low'' =
     Inl (StrategyValidationError m)"
proof -
  have "parse_draft_schema (golden_draft\<lparr>draft_entry := None\<rparr>)"
    by (simp add: parse_draft_schema_def golden_draft_def literal_or_absent_def)
  moreover obtain e where "normalize_strategy_draft (\<lambda>_. []) (golden_draft\<lparr>draft_entry := None\<rparr>) ''buy low'' = Inl e"
  proof -
    have "(case normalize_strategy_draft (\<lambda>_. []) (golden_draft\<lparr>draft_entry := None\<rparr>) ''buy low'' of
        Inl e \<Rightarrow> True | Inr r \<Rightarrow> False)"
      by code_simp
    then show thesis
      using that by (auto split: sum.splits)
  qed
  ultimately show ?thesis
    using normalization_errors by fastforce
qed

end
