(* ===== verification/Metrics.thy ===== *)
theory Metrics
  imports Engine_Safety
begin

text \<open>
  Performance metrics of a backtest (\<open>app/backtesting/metrics.py\<close>): win rate, returns, the
  buy-and-hold benchmark, the maximum drawdown and the annualized growth rate. The power function
  of the decimal module is the parameter \<open>dpow\<close>.
\<close>

definition calculate_buy_and_hold_equity_curve ::
    "market_bar list \<Rightarrow> decimal \<Rightarrow> int \<Rightarrow> equity_point list result" where
  "calculate_buy_and_hold_equity_curve bars starting_cash start_index =
     res_bind (raise_if (\<not> (0 \<le> start_index \<and> start_index < int (length bars)))
                (ValueError ''start_index is outside the loaded data range'')) (\<lambda>_.
     let start_bar = bars ! nat start_index in
     res_bind (dfloordiv starting_cash (open_price start_bar)) (\<lambda>q.
     let remaining_cash = dsub starting_cash (dmul (of_int q) (open_price start_bar)) in
     Inr (map (\<lambda>bar. \<lparr>ep_timestamp = bar_timestamp bar,
                      equity = dadd remaining_cash (dmul (of_int q) (close_price bar))\<rparr>)
            (drop (nat start_index) bars))))"

definition percent_change :: "decimal \<Rightarrow> decimal \<Rightarrow> decimal result" where
  \<comment> \<open>the expression \<open>(a / b - Decimal("1")) * Decimal("100")\<close>\<close>
  "percent_change a b = res_bind (ddiv a b) (\<lambda>ratio. Inr (dmul (dsub ratio 1) 100))"

definition drawdown_step :: "decimal \<times> decimal \<Rightarrow> equity_point \<Rightarrow> (decimal \<times> decimal) result" where
  \<comment> \<open>one iteration; the pair is \<open>(peak, maximum_drawdown)\<close>\<close>
  "drawdown_step acc point =
     (let peak = max (fst acc) (equity point) in
      res_bind (percent_change (equity point) peak) (\<lambda>drawdown.
      Inr (peak, min (snd acc) drawdown)))"

definition calculate_maximum_drawdown :: "equity_point list \<Rightarrow> decimal result" where
  "calculate_maximum_drawdown curve =
     (case curve of
        [] \<Rightarrow> Inl (IndexError ''list index out of range'')
      | p # _ \<Rightarrow> res_bind (res_fold drawdown_step (equity p, 0) curve) (\<lambda>acc. Inr (snd acc)))"

definition elapsed_days :: "timestamp \<Rightarrow> timestamp \<Rightarrow> decimal" where
  \<comment> \<open>\<open>total_seconds()\<close> of the difference, as a decimal, divided by 86400\<close>
  "elapsed_days start_timestamp end_timestamp =
     dec_round (of_int (end_timestamp - start_timestamp) / 10 ^ 6 / 86400)"

definition calculate_cagr ::
    "(decimal \<Rightarrow> decimal \<Rightarrow> decimal result) \<Rightarrow> decimal \<Rightarrow> decimal \<Rightarrow> timestamp \<Rightarrow> timestamp \<Rightarrow>
     decimal option result" where
  "calculate_cagr dpow starting_cash final_value start_timestamp end_timestamp =
     (let days = elapsed_days start_timestamp end_timestamp in
      if days \<le> 0 then Inr None
      else res_bind (ddiv days (1461 / 4)) (\<lambda>years.
           res_bind (ddiv final_value starting_cash) (\<lambda>growth.
           res_bind (ddiv 1 years) (\<lambda>exponent.
           res_bind (dpow growth exponent) (\<lambda>annual.
           Inr (Some (dmul (dsub annual 1) 100)))))))"

definition win_rate :: "completed_trade list \<Rightarrow> decimal result" where
  "win_rate trades =
     (if trades \<noteq> []
      then res_bind (ddiv (of_nat (length (filter (\<lambda>t. 0 < t_profit_loss t) trades)))
                          (of_nat (length trades))) (\<lambda>ratio. Inr (dmul ratio 100))
      else Inr 0)"

definition calculate_metrics ::
    "(decimal \<Rightarrow> decimal \<Rightarrow> decimal result) \<Rightarrow> market_bar list \<Rightarrow> equity_point list \<Rightarrow>
     completed_trade list \<Rightarrow> decimal \<Rightarrow> decimal \<Rightarrow> int \<Rightarrow> backtest_metrics result" where
  "calculate_metrics dpow bars curve trades starting_cash final_value start_index =
     res_bind (raise_if (bars = [] \<or> curve = []) (ValueError ''bars and equity_curve are required'')) (\<lambda>_.
     res_bind (raise_if (\<not> (0 \<le> start_index \<and> start_index < int (length bars)))
                (ValueError ''buy_and_hold_start_index is outside the loaded data range'')) (\<lambda>_.
     let start_bar = bars ! nat start_index in
     res_bind (calculate_buy_and_hold_equity_curve bars starting_cash start_index) (\<lambda>bh.
     let bh_final = equity (last bh) in
     res_bind (win_rate trades) (\<lambda>wr.
     res_bind (percent_change final_value starting_cash) (\<lambda>total_return.
     res_bind (percent_change bh_final starting_cash) (\<lambda>bh_return.
     res_bind (calculate_maximum_drawdown curve) (\<lambda>mdd.
     res_bind (calculate_cagr dpow starting_cash final_value
                 (bar_timestamp (bars ! 0)) (bar_timestamp (last bars))) (\<lambda>cagr.
     Inr \<lparr>total_return_percentage = total_return,
          buy_and_hold_return_percentage = bh_return,
          buy_and_hold_start_timestamp = bar_timestamp start_bar,
          buy_and_hold_start_price = open_price start_bar,
          buy_and_hold_end_price = close_price (last bars),
          win_rate_percentage = wr,
          maximum_drawdown_percentage = mdd,
          cagr_percentage = cagr\<rparr>))))))))"

subsection \<open>Percentages\<close>

definition pct :: "decimal \<Rightarrow> decimal \<Rightarrow> decimal" where
  "pct a b = dmul (dsub (dec_round (a / b)) 1) 100"

lemma percent_change_Inr: "b \<noteq> 0 \<Longrightarrow> percent_change a b = Inr (pct a b)"
  by (simp add: percent_change_def pct_def ddiv_def)

lemma percent_change_Inr_iff [result_simps]:
  "percent_change a b = Inr x \<longleftrightarrow> b \<noteq> 0 \<and> x = pct a b"
  by (auto simp: percent_change_def pct_def result_simps)

lemma representable_one [simp]: "representable 1"
  using representable_scaled[of 1 0] by simp

lemma representable_hundred [simp]: "representable 100" "representable (- 100)"
proof -
  show "representable 100"
    using representable_scaled[of 100 0] by simp
  then show "representable (- 100)"
    by (rule dc.fits_minus)
qed

lemma dmul_hundred_mono: "a \<le> b \<Longrightarrow> dmul a 100 \<le> dmul b 100"
  by (simp add: dmul_def dc.rnd_mono)

lemma dsub_one_mono: "a \<le> b \<Longrightarrow> dsub a 1 \<le> dsub b 1"
  by (simp add: dsub_def dc.rnd_mono)

lemma pct_mono_left: "0 < b \<Longrightarrow> a \<le> a' \<Longrightarrow> pct a b \<le> pct a' b"
  unfolding pct_def by (intro dmul_hundred_mono dsub_one_mono dc.rnd_mono divide_right_mono) auto

lemma pct_anti_right: "0 \<le> a \<Longrightarrow> 0 < b \<Longrightarrow> b \<le> b' \<Longrightarrow> pct a b' \<le> pct a b"
  unfolding pct_def by (intro dmul_hundred_mono dsub_one_mono dc.rnd_mono divide_left_mono) auto

lemma pct_self [simp]: "b \<noteq> 0 \<Longrightarrow> pct b b = 0"
  by (simp add: pct_def dc.rnd_id dsub_def dmul_def)

lemma pct_nonneg: "0 < b \<Longrightarrow> b \<le> a \<Longrightarrow> 0 \<le> pct a b"
  using pct_mono_left[of b b a] by simp

lemma pct_nonpos: "0 < b \<Longrightarrow> a \<le> b \<Longrightarrow> pct a b \<le> 0"
  using pct_mono_left[of b a b] by simp

lemma pct_ge: "0 < b \<Longrightarrow> 0 \<le> a \<Longrightarrow> - 100 \<le> pct a b"
  using pct_mono_left[of b 0 a]
  by (simp add: pct_def dsub_def dmul_def dec_round_minus dc.rnd_id)

subsection \<open>The maximum drawdown is the worst decline between two points in time\<close>

definition declines :: "equity_point list \<Rightarrow> decimal set" where
  \<comment> \<open>the percentage changes from an earlier point to a later one\<close>
  "declines curve =
     {pct (equity (curve ! j)) (equity (curve ! i)) | i j. i \<le> j \<and> j < length curve}"

definition peak_of :: "equity_point list \<Rightarrow> decimal" where
  "peak_of curve = Max (equity ` set curve)"

lemma declines_snoc:
  "declines (xs @ [p]) =
     declines xs \<union> (\<lambda>q. pct (equity p) (equity q)) ` set (xs @ [p])" (is "?L = ?R")
proof
  show "?L \<subseteq> ?R"
  proof
    fix x
    assume "x \<in> ?L"
    then obtain i j where ij: "i \<le> j" "j < length (xs @ [p])"
      "x = pct (equity ((xs @ [p]) ! j)) (equity ((xs @ [p]) ! i))"
      by (auto simp: declines_def)
    show "x \<in> ?R"
    proof (cases "j = length xs")
      case True
      then have "(xs @ [p]) ! i \<in> set (xs @ [p])"
        using ij(1,2) nth_mem by (metis le_neq_implies_less less_trans)
      then show ?thesis
        using ij(3) True by (auto simp: nth_append)
    next
      case False
      then have "j < length xs" "i < length xs"
        using ij by auto
      then show ?thesis
        using ij unfolding declines_def by (intro UnI1) (auto simp: nth_append)
    qed
  qed
  show "?R \<subseteq> ?L"
  proof
    fix x
    assume "x \<in> ?R"
    then consider i j where "i \<le> j" "j < length xs" "x = pct (equity (xs ! j)) (equity (xs ! i))"
      | i where "i < length (xs @ [p])" "x = pct (equity p) (equity ((xs @ [p]) ! i))"
      unfolding declines_def by (auto simp: in_set_conv_nth simp del: set_append)
    then show "x \<in> ?L"
    proof cases
      case 1
      then show ?thesis
        unfolding declines_def mem_Collect_eq
        by - (rule exI[of _ i], rule exI[of _ j], simp add: nth_append)
    next
      case 2
      then show ?thesis
        unfolding declines_def mem_Collect_eq
        by - (rule exI[of _ i], rule exI[of _ "length xs"], simp add: nth_append)
    qed
  qed
qed

lemma finite_declines: "finite (declines xs)"
  by (induction xs rule: rev_induct) (simp_all add: declines_snoc, simp add: declines_def)

lemma Min_decline_to:
  \<comment> \<open>the worst decline that ends in \<open>p\<close> starts at the peak\<close>
  assumes "\<forall>q \<in> set xs. 0 < equity q" "0 < equity p"
  shows "Min ((\<lambda>q. pct (equity p) (equity q)) ` set (xs @ [p])) =
         pct (equity p) (peak_of (xs @ [p]))"
proof (rule Min_eqI)
  let ?E = "equity ` set (xs @ [p])"
  have "peak_of (xs @ [p]) \<in> ?E"
    unfolding peak_of_def by (rule Max_in) auto
  then show "pct (equity p) (peak_of (xs @ [p])) \<in> (\<lambda>q. pct (equity p) (equity q)) ` set (xs @ [p])"
    by (metis (no_types, lifting) image_iff)
  fix y
  assume "y \<in> (\<lambda>q. pct (equity p) (equity q)) ` set (xs @ [p])"
  then obtain q where q: "q \<in> set (xs @ [p])" "y = pct (equity p) (equity q)"
    by blast
  moreover have "equity q \<le> peak_of (xs @ [p])"
    unfolding peak_of_def using q(1) by (intro Max_ge) auto
  ultimately show "pct (equity p) (peak_of (xs @ [p])) \<le> y"
    using assms by (auto intro!: pct_anti_right)
qed simp

lemma drawdown_fold:
  assumes "\<forall>q \<in> set (p # xs). 0 < equity q"
  shows "res_fold drawdown_step (equity p, 0) (p # xs) =
         Inr (peak_of (p # xs), Min (declines (p # xs)))"
  using assms
proof (induction xs rule: rev_induct)
  case Nil
  have "declines [p] = {0}"
    using Nil declines_snoc[of "[]" p] by (simp add: declines_def)
  then show ?case
    using Nil by (simp add: drawdown_step_def percent_change_Inr peak_of_def)
next
  case (snoc q xs)
  let ?ys = "p # xs"
  have pos: "\<forall>q \<in> set ?ys. 0 < equity q" "0 < equity q"
    using snoc.prems by auto
  have peak: "max (peak_of ?ys) (equity q) = peak_of (?ys @ [q])"
    using Max_insert[of "equity ` set ?ys" "equity q"] by (simp add: peak_of_def insert_commute max.commute)
  have "0 < peak_of (?ys @ [q])"
    using pos(2) unfolding peak[symmetric] by simp
  then have step: "drawdown_step (peak_of ?ys, Min (declines ?ys)) q =
      Inr (peak_of (?ys @ [q]), min (Min (declines ?ys)) (pct (equity q) (peak_of (?ys @ [q]))))"
    by (simp only: drawdown_step_def Let_def fst_conv snd_conv peak) (simp add: percent_change_Inr)
  have ne: "declines ?ys \<noteq> {}"
    unfolding declines_def by auto
  have "min (Min (declines ?ys)) (pct (equity q) (peak_of (?ys @ [q]))) = Min (declines (?ys @ [q]))"
    unfolding declines_snoc[of ?ys q] Min_decline_to[OF pos, symmetric]
    using ne by (intro Min_Un[symmetric]) (auto simp: finite_declines)
  then show ?case
    using snoc.IH[OF pos(1)] step res_fold_append[of drawdown_step "(equity p, 0)" ?ys "[q]"] by simp
qed

lemma drawdown_range:
  assumes "curve \<noteq> []" "\<forall>p \<in> set curve. 0 < equity p"
  shows "\<exists>x. calculate_maximum_drawdown curve = Inr x \<and> x = Min (declines curve) \<and> x \<in> {- 100..0}"
proof -
  obtain p xs where c: "curve = p # xs"
    using assms(1) by (cases curve) auto
  have *: "calculate_maximum_drawdown curve = Inr (Min (declines curve))"
    using drawdown_fold[of p xs] assms(2) by (simp add: c calculate_maximum_drawdown_def)
  have ne: "declines curve \<noteq> {}"
    unfolding declines_def using assms(1) by auto
  then obtain i j where ij: "i \<le> j" "j < length curve"
    "Min (declines curve) = pct (equity (curve ! j)) (equity (curve ! i))"
    using Min_in[OF finite_declines] unfolding declines_def by blast
  have "0 < equity (curve ! i)" "0 < equity (curve ! j)"
    using ij assms(2) by auto
  then have "- 100 \<le> Min (declines curve)"
    using ij(3) pct_ge by simp
  moreover have "pct (equity (curve ! i)) (equity (curve ! i)) \<in> declines curve"
    unfolding declines_def using ij by fastforce
  then have "Min (declines curve) \<le> 0"
    using Min_le[OF finite_declines] \<open>0 < equity (curve ! i)\<close> by fastforce
  ultimately show ?thesis
    using * by simp
qed

text \<open>
  C7. On a nonempty curve of positive equities, the one-pass computation with a running peak
  returns exactly the worst percentage decline, rounding included, from any point of the curve to
  any later one; it lies between -100 and 0.
\<close>

theorem maximum_drawdown_correct:
  assumes "curve \<noteq> []" "\<forall>p \<in> set curve. 0 < equity p"
  shows "calculate_maximum_drawdown curve =
      Inr (Min {pct (equity (curve ! j)) (equity (curve ! i)) | i j. i \<le> j \<and> j < length curve}) \<and>
    Min {pct (equity (curve ! j)) (equity (curve ! i)) | i j. i \<le> j \<and> j < length curve} \<in> {- 100..0}"
  using drawdown_range[OF assms] by (simp add: declines_def)

theorem maximum_drawdown_correct_witness:
  "calculate_maximum_drawdown (er_equity_curve sample_result) =
      Inr (Min {pct (equity (er_equity_curve sample_result ! j)) (equity (er_equity_curve sample_result ! i)) | i j.
             i \<le> j \<and> j < length (er_equity_curve sample_result)})"
  using maximum_drawdown_correct[of "er_equity_curve sample_result"] by (simp add: sample_result_def)

subsection \<open>The other metrics\<close>

lemma buy_and_hold_Inr:
  assumes "calculate_buy_and_hold_equity_curve bars c k = Inr curve"
    and "valid_bars bars" "0 < c" "representable c"
  shows "map ep_timestamp curve = map bar_timestamp (drop (nat k) bars) \<and> curve \<noteq> [] \<and>
    list_all (\<lambda>p. 0 < equity p) curve"
proof -
  let ?op = "open_price (bars ! nat k)"
  obtain q where k: "0 \<le> k" "k < int (length bars)" and q: "dfloordiv c ?op = Inr q"
    and curve: "curve = map (\<lambda>bar. \<lparr>ep_timestamp = bar_timestamp bar,
        equity = dadd (dsub c (dmul (of_int q) ?op)) (dmul (of_int q) (close_price bar))\<rparr>)
      (drop (nat k) bars)"
    using assms(1) by (auto simp: calculate_buy_and_hold_equity_curve_def Let_def result_simps)
  have op: "0 < ?op"
    using k valid_bars_nth[OF assms(2)] valid_bar_pos by simp
  note fl = dfloordiv_Inr_nonneg[OF q less_imp_le[OF assms(3)] op]
  have rest: "0 \<le> dsub c (dmul (of_int q) ?op)"
    using dc.rnd_diff_nonneg[OF fl(2) assms(4)] by (simp add: dsub_def dmul_def)
  have "0 < dadd (dsub c (dmul (of_int q) ?op)) (dmul (of_int q) (close_price bar))"
    if "bar \<in> set bars" for bar
  proof (cases "q = 0")
    case True
    then show ?thesis
      using assms(3,4) by (simp add: dmul_def dsub_def dc.rnd_id)
  next
    case False
    then have "0 < dmul (of_int q) (close_price bar)"
      using fl(1) that assms(2) valid_bar_pos(4) by (intro dmul_pos) (auto simp: valid_bars_def list_all_iff)
    then show ?thesis
      using rest by (rule dadd_pos_right[rotated])
  qed
  then show ?thesis
    using k by (auto simp: curve list_all_iff dest: in_set_dropD)
qed

lemma win_rate_range: "\<exists>x. win_rate trades = Inr x \<and> 0 \<le> x \<and> x \<le> 100"
proof (cases "trades = []")
  case False
  let ?r = "of_nat (length (filter (\<lambda>t. 0 < t_profit_loss t) trades)) / of_nat (length trades) :: rat"
  have "0 \<le> ?r" "?r \<le> 1"
    using False by (auto simp: divide_le_eq)
  then have r: "0 \<le> dec_round ?r" "dec_round ?r \<le> 1"
    by (auto intro: dc.rnd_nonneg dc.rnd_le_fits)
  then have "0 \<le> dmul (dec_round ?r) 100" "dmul (dec_round ?r) 100 \<le> 100"
    by (auto simp: dmul_def intro!: dc.rnd_nonneg dc.rnd_le_fits)
  then show ?thesis
    using False by (simp add: win_rate_def ddiv_def)
qed (simp add: win_rate_def)

lemma elapsed_days_pos_iff: "0 < elapsed_days a b \<longleftrightarrow> a < b"
  by (simp add: elapsed_days_def dc.rnd_pos_iff)

lemma cagr_cases:
  assumes "0 < c" "0 < v"
  shows "calculate_cagr dpow c v a b =
    (if a < b
     then res_bind (dpow (dec_round (v / c))
                      (dec_round (1 / dec_round (elapsed_days a b / (1461 / 4))))) (\<lambda>z.
            Inr (Some (dmul (dsub z 1) 100)))
     else Inr None)"
proof (cases "a < b")
  case True
  then have d: "0 < elapsed_days a b"
    by (simp add: elapsed_days_pos_iff)
  then have "dec_round (elapsed_days a b / (1461 / 4)) \<noteq> 0"
    using dec_round_pos[of "elapsed_days a b / (1461 / 4)"] by simp
  then show ?thesis
    using d True assms by (simp add: calculate_cagr_def ddiv_def)
next
  case False
  then show ?thesis
    using elapsed_days_pos_iff[of a b] by (simp add: calculate_cagr_def not_less)
qed

lemma metrics_Inr_iff [result_simps]:
  "calculate_metrics dpow bars curve trades c v k = Inr m \<longleftrightarrow>
     bars \<noteq> [] \<and> curve \<noteq> [] \<and> 0 \<le> k \<and> k < int (length bars) \<and> c \<noteq> 0 \<and>
     (\<exists>bh wr mdd cagr.
        calculate_buy_and_hold_equity_curve bars c k = Inr bh \<and> win_rate trades = Inr wr \<and>
        calculate_maximum_drawdown curve = Inr mdd \<and>
        calculate_cagr dpow c v (bar_timestamp (bars ! 0)) (bar_timestamp (last bars)) = Inr cagr \<and>
        m = \<lparr>total_return_percentage = pct v c,
             buy_and_hold_return_percentage = pct (equity (last bh)) c,
             buy_and_hold_start_timestamp = bar_timestamp (bars ! nat k),
             buy_and_hold_start_price = open_price (bars ! nat k),
             buy_and_hold_end_price = close_price (last bars),
             win_rate_percentage = wr, maximum_drawdown_percentage = mdd, cagr_percentage = cagr\<rparr>)"
  by (auto simp: calculate_metrics_def Let_def result_simps)

text \<open>
  What the decimal module's documentation says of a power with a positive base and a positive
  exponent: when it returns, the result lies on the same side of one as the base.
\<close>

definition decimal_power_errors :: "(decimal \<Rightarrow> decimal \<Rightarrow> decimal result) \<Rightarrow> bool" where
  \<comment> \<open>on a positive base, the exceptions of \<open>decimal\<close> that its default context raises\<close>
  "decimal_power_errors dpow \<longleftrightarrow>
     (\<forall>x y e. 0 < x \<longrightarrow> dpow x y = Inl e \<longrightarrow> e = InvalidOperation \<or> e = Overflow)"

definition power_side_of_one :: "(decimal \<Rightarrow> decimal \<Rightarrow> decimal result) \<Rightarrow> bool" where
  "power_side_of_one dpow \<longleftrightarrow>
     (\<forall>x y z. 0 < x \<longrightarrow> 0 < y \<longrightarrow> dpow x y = Inr z \<longrightarrow> (1 \<le> x \<longrightarrow> 1 \<le> z) \<and> (x \<le> 1 \<longrightarrow> z \<le> 1))"

lemma cagr_sign:
  assumes "calculate_cagr dpow c v a b = Inr (Some g)" "0 < c" "0 < v" "power_side_of_one dpow"
  shows "(c \<le> v \<longrightarrow> 0 \<le> g) \<and> (v \<le> c \<longrightarrow> g \<le> 0)"
proof -
  let ?x = "dec_round (v / c)" and ?y = "dec_round (1 / dec_round (elapsed_days a b / (1461 / 4)))"
  have ab: "a < b"
    using assms(1-3) by (simp add: cagr_cases split: if_splits)
  then obtain z where z: "dpow ?x ?y = Inr z" "g = dmul (dsub z 1) 100"
    using assms(1-3) by (auto simp: cagr_cases result_simps)
  have "0 < ?x" "0 < ?y"
    using assms(2,3) ab by (auto simp: dc.rnd_pos_iff elapsed_days_pos_iff)
  then have z1: "1 \<le> ?x \<longrightarrow> 1 \<le> z" "?x \<le> 1 \<longrightarrow> z \<le> 1"
    using assms(4) z(1) unfolding power_side_of_one_def by blast+
  have "c \<le> v \<longrightarrow> 1 \<le> ?x" "v \<le> c \<longrightarrow> ?x \<le> 1"
    using assms(2) by (auto intro: dc.rnd_ge_fits dc.rnd_le_fits)
  then show ?thesis
    using z1 z(2) dsub_nonneg[of 1 z] dsub_nonpos[of z 1] by (auto simp: dmul_def intro: dc.rnd_nonneg dc.rnd_nonpos)
qed

text \<open>
  C8. The metrics of a completed engine run are in range and agree with each other: no return is
  below -100, the win rate lies in 0 to 100 and the drawdown in -100 to 0; total return and
  annualized growth have the sign of the result; the growth rate is absent exactly when the data
  span no time. The annualized rate relies on the decimal power staying on its base's side of one.
\<close>

theorem metrics_ranges:
  assumes "execute_long_only_signals bars signals c sl tp = Inr r"
    and "valid_bars bars" "representable c"
    and "calculate_metrics dpow bars (er_equity_curve r) (er_completed_trades r) c
           (final_portfolio_value r) k = Inr m"
    and "power_side_of_one dpow"
  shows "- 100 \<le> total_return_percentage m \<and> - 100 \<le> buy_and_hold_return_percentage m \<and>
    win_rate_percentage m \<in> {0..100} \<and> maximum_drawdown_percentage m \<in> {- 100..0} \<and>
    (c \<le> final_portfolio_value r \<longrightarrow> 0 \<le> total_return_percentage m) \<and>
    (final_portfolio_value r \<le> c \<longrightarrow> total_return_percentage m \<le> 0) \<and>
    (case cagr_percentage m of
       None \<Rightarrow> bar_timestamp (last bars) \<le> bar_timestamp (bars ! 0)
     | Some g \<Rightarrow> bar_timestamp (bars ! 0) < bar_timestamp (last bars) \<and>
         (c \<le> final_portfolio_value r \<longrightarrow> 0 \<le> g) \<and> (final_portfolio_value r \<le> c \<longrightarrow> g \<le> 0))"
proof -
  let ?a = "bar_timestamp (bars ! 0)" and ?b = "bar_timestamp (last bars)"
  have c: "0 < c"
    using assms(1) by (simp add: result_simps)
  have v: "0 < final_portfolio_value r" and eq: "\<forall>p \<in> set (er_equity_curve r). 0 < equity p"
    using execute_positive[OF assms(1-3)] by auto
  obtain bh wr mdd cagr where m:
      "calculate_buy_and_hold_equity_curve bars c k = Inr bh" "win_rate (er_completed_trades r) = Inr wr"
      "calculate_maximum_drawdown (er_equity_curve r) = Inr mdd" "er_equity_curve r \<noteq> []"
      "calculate_cagr dpow c (final_portfolio_value r) ?a ?b = Inr cagr"
    and f: "total_return_percentage m = pct (final_portfolio_value r) c"
      "buy_and_hold_return_percentage m = pct (equity (last bh)) c" "win_rate_percentage m = wr"
      "maximum_drawdown_percentage m = mdd" "cagr_percentage m = cagr"
    using assms(4) by (auto simp: result_simps)
  have bh: "0 < equity (last bh)"
    using buy_and_hold_Inr[OF m(1) assms(2) c assms(3)] by (auto simp: list_all_iff)
  have "wr \<in> {0..100}"
    using win_rate_range[of "er_completed_trades r"] m(2) by auto
  moreover have "mdd \<in> {- 100..0}"
    using drawdown_range[OF m(4) eq] m(3) by auto
  moreover have "case cagr of None \<Rightarrow> ?b \<le> ?a | Some g \<Rightarrow> ?a < ?b \<and>
      (c \<le> final_portfolio_value r \<longrightarrow> 0 \<le> g) \<and> (final_portfolio_value r \<le> c \<longrightarrow> g \<le> 0)"
    using m(5) cagr_sign[of dpow c "final_portfolio_value r" ?a ?b] assms(5) c v
    by (auto simp: cagr_cases result_simps split: option.splits if_splits)
  ultimately show ?thesis
    using f bh v c by (simp add: pct_ge pct_nonneg pct_nonpos)
qed

definition whole_power :: "decimal \<Rightarrow> decimal \<Rightarrow> decimal result" where
  \<comment> \<open>the power with a whole exponent, an instance of the parameter\<close>
  "whole_power x y = Inr (dec_round (x ^ nat \<lfloor>y\<rfloor>))"

lemma whole_power_errors: "decimal_power_errors whole_power"
  by (simp add: decimal_power_errors_def whole_power_def)

lemma whole_power_side: "power_side_of_one whole_power"
  by (auto simp: power_side_of_one_def whole_power_def intro!: dc.rnd_ge_fits dc.rnd_le_fits power_le_one)

definition yearly_metrics :: backtest_metrics where
  "yearly_metrics =
     \<lparr>total_return_percentage = 10, buy_and_hold_return_percentage = 10,
      buy_and_hold_start_timestamp = 31557600000000, buy_and_hold_start_price = 100,
      buy_and_hold_end_price = 110, win_rate_percentage = 100, maximum_drawdown_percentage = 0,
      cagr_percentage = Some 10\<rparr>"

lemma yearly_metrics_run:
  "calculate_metrics whole_power yearly_bars (er_equity_curve yearly_result)
     (er_completed_trades yearly_result) 1000 (final_portfolio_value yearly_result) 1 = Inr yearly_metrics"
  by code_simp

theorem metrics_ranges_witness:
  "win_rate_percentage yearly_metrics \<in> {0..100} \<and>
   (case cagr_percentage yearly_metrics of
      None \<Rightarrow> bar_timestamp (last yearly_bars) \<le> bar_timestamp (yearly_bars ! 0)
    | Some g \<Rightarrow> bar_timestamp (yearly_bars ! 0) < bar_timestamp (last yearly_bars) \<and>
        (1000 \<le> final_portfolio_value yearly_result \<longrightarrow> 0 \<le> g) \<and>
        (final_portfolio_value yearly_result \<le> 1000 \<longrightarrow> g \<le> 0))"
  using metrics_ranges[OF yearly_run yearly_bars_valid yearly_cash_representable
      yearly_metrics_run whole_power_side] by blast

lemma calculate_metrics_error:
  assumes "execute_long_only_signals bars signals c sl tp = Inr r"
    and "valid_bars bars" "representable c"
    and "calculate_metrics dpow bars (er_equity_curve r) (er_completed_trades r) c
           (final_portfolio_value r) k = Inl e"
  shows "(k < 0 \<or> int (length bars) \<le> k) \<and>
      e = ValueError ''buy_and_hold_start_index is outside the loaded data range'' \<or>
    e = InvalidOperation \<or> (\<exists>x y. 0 < x \<and> 0 < y \<and> dpow x y = Inl e)"
proof (cases "0 \<le> k \<and> k < int (length bars)")
  case False
  have "er_equity_curve r \<noteq> []" "bars \<noteq> []"
    using execute_positive[OF assms(1-3)] assms(1) by (auto simp: result_simps)
  then show ?thesis
    using assms(4) False by (auto simp: calculate_metrics_def result_simps)
next
  case True
  let ?a = "bar_timestamp (bars ! 0)" and ?b = "bar_timestamp (last bars)"
  have c: "0 < c" "bars \<noteq> []" and ne: "er_equity_curve r \<noteq> []"
    using assms(1) execute_positive[OF assms(1-3)] by (auto simp: result_simps)
  have v: "0 < final_portfolio_value r" and eq: "\<forall>p \<in> set (er_equity_curve r). 0 < equity p"
    using execute_positive[OF assms(1-3)] by auto
  have op: "open_price (bars ! nat k) \<noteq> 0"
    using True valid_bars_nth[OF assms(2), of "nat k"] valid_bar_pos(1) by force
  obtain wr mdd where wr: "win_rate (er_completed_trades r) = Inr wr"
    and mdd: "calculate_maximum_drawdown (er_equity_curve r) = Inr mdd"
    using win_rate_range drawdown_range[OF ne eq] by blast
  from assms(4) consider "calculate_buy_and_hold_equity_curve bars c k = Inl e"
    | "calculate_cagr dpow c (final_portfolio_value r) ?a ?b = Inl e"
    using c ne True wr mdd
    by (auto simp: calculate_metrics_def Let_def result_simps percent_change_Inr)
  then show ?thesis
  proof cases
    case 1
    then have "dfloordiv c (open_price (bars ! nat k)) = Inl e"
      using True by (auto simp: calculate_buy_and_hold_equity_curve_def Let_def result_simps)
    then show ?thesis
      using dfloordiv_error op by blast
  next
    case 2
    then have "?a < ?b" "dpow (dec_round (final_portfolio_value r / c))
        (dec_round (1 / dec_round (elapsed_days ?a ?b / (1461 / 4)))) = Inl e"
      using c(1) v by (auto simp: cagr_cases result_simps split: if_splits)
    then show ?thesis
      using c(1) v by (metis dc.rnd_pos_iff elapsed_days_pos_iff divide_pos_pos zero_less_numeral zero_less_one)
  qed
qed

text \<open>
  Computing the metrics of a completed engine run fails only for a start index outside the
  data, for a benchmark whose share count exceeds the precision, or when the power itself fails.
  In particular no division by zero can occur.
\<close>

lemma metrics_errors:
  assumes "execute_long_only_signals bars signals c sl tp = Inr r"
    and "valid_bars bars" "representable c"
    and "calculate_metrics dpow bars (er_equity_curve r) (er_completed_trades r) c
           (final_portfolio_value r) k = Inl e"
  shows "(k < 0 \<or> int (length bars) \<le> k) \<and>
      e = ValueError ''buy_and_hold_start_index is outside the loaded data range'' \<or>
    e = InvalidOperation \<or> (\<exists>x y. 0 < x \<and> 0 < y \<and> dpow x y = Inl e)"
  using calculate_metrics_error[OF assms] .

lemma metrics_errors_witness:
  "calculate_metrics whole_power yearly_bars (er_equity_curve yearly_result)
     (er_completed_trades yearly_result) 1000 (final_portfolio_value yearly_result) 2 =
       Inl (ValueError ''buy_and_hold_start_index is outside the loaded data range'') \<and>
   int (length yearly_bars) \<le> 2"
proof -
  have run: "calculate_metrics whole_power yearly_bars (er_equity_curve yearly_result)
     (er_completed_trades yearly_result) 1000 (final_portfolio_value yearly_result) 2 =
       Inl (ValueError ''buy_and_hold_start_index is outside the loaded data range'')"
    by code_simp
  show ?thesis
    using metrics_errors[OF yearly_run yearly_bars_valid yearly_cash_representable run] run
    by (auto simp: whole_power_def)
qed

end
