(* ===== verification/Strategy_Preview.thy ===== *)
theory Strategy_Preview
  imports Strategy_Review Metrics Engine_Causality
begin

text \<open>
  The preview of a parsed strategy: its explanation in words
  (\<open>app/services/strategy_interpretation.py\<close>), the backtest over the stored bars
  (\<open>app/services/strategy_preview.py\<close>) and the JSON document that is stored and served
  (\<open>serialize_preview\<close> of \<open>app/services/preview_job_service.py\<close>). The text forms of decimals
  (\<open>str\<close> and the \<open>:g\<close> format) and of timestamps (\<open>isoformat\<close>) are parameters.
\<close>

subsection \<open>Interpretation\<close>

definition newline :: string where
  "newline = [CHR 0x0A]"

definition format_operand :: "(decimal \<Rightarrow> string) \<Rightarrow> operand \<Rightarrow> string" where
  "format_operand str_decimal opnd =
     (case opnd of
        IndicatorOperand nm src period \<Rightarrow>
          ''the '' @ string_of_int period @ ''-day '' @ str_upper (indicator_value nm) @ '' of '' @ src
      | PriceOperand src \<Rightarrow> src
      | ConstantOperand v \<Rightarrow> str_decimal v)"

definition format_condition :: "(decimal \<Rightarrow> string) \<Rightarrow> condition \<Rightarrow> string" where
  "format_condition str_decimal c =
     format_operand str_decimal (cond_left c) @ '' '' @
     map (\<lambda>ch. if ch = CHR ''_'' then CHR '' '' else ch) (operator_value (cond_operator c)) @ '' '' @
     format_operand str_decimal (cond_right c)"

definition format_risk_controls :: "(decimal \<Rightarrow> string) \<Rightarrow> parsed_strategy_result \<Rightarrow> string" where
  "format_risk_controls general r =
     (let controls =
        (case spec_stop_loss_percent (pr_specification r) of None \<Rightarrow> []
         | Some v \<Rightarrow> [general v @ ''% stop loss'']) @
        (case spec_take_profit_percent (pr_specification r) of None \<Rightarrow> []
         | Some v \<Rightarrow> [general v @ ''% take profit''])
      in if controls = [] then ''None.''
         else ''Use '' @ join '' and '' controls @ '' relative to the entry fill price.'')"

fun json_text :: "json \<Rightarrow> string" where
  \<comment> \<open>\<open>str\<close> of the values a default can have\<close>
  "json_text (JStr t) = t"
| "json_text (JInt n) = string_of_int n"
| "json_text _ = []"

definition default_labels :: "(string \<times> string) list" where
  "default_labels =
     [(''symbol'', ''Symbol: SPY''), (''interval'', ''Daily bars''),
      (''execution.direction'', ''Long-only''),
      (''execution.position_size_percent'', ''Use 100% of available cash''),
      (''execution.signal_execution'',
       ''Execute on the next available trading day'' @ quote_char @ ''s open'')]"

definition format_default :: "applied_default \<Rightarrow> string" where
  "format_default d =
     (case map_of default_labels (ad_field d) of
        Some label \<Rightarrow> label
      | None \<Rightarrow> ad_field d @ '': '' @ json_text (ad_value d))"

definition interpretation_lines ::
    "(decimal \<Rightarrow> string) \<Rightarrow> (decimal \<Rightarrow> string) \<Rightarrow> parsed_strategy_result \<Rightarrow> string list" where
  "interpretation_lines str_decimal general r =
     [''Interpreted strategy:'',
      ''Buy '' @ spec_symbol (pr_specification r) @ '' when '' @
        format_condition str_decimal (spec_entry (pr_specification r)) @ ''.'',
      ''Sell when '' @ format_condition str_decimal (spec_exit (pr_specification r)) @ ''.'',
      ''Risk controls: '' @ format_risk_controls general r, '''', ''Platform defaults applied:''] @
     map (\<lambda>d. ''- '' @ format_default d) (pr_defaults_applied r) @
     (if pr_defaults_applied r = [] then [''- None.''] else []) @
     ['''', ''Assumptions made:''] @
     map (\<lambda>a. ''- '' @ as_reason a) (pr_assumptions r) @
     (if pr_assumptions r = [] then [''- None.''] else []) @
     ['''', ''Confirmation required: '' @ (if pr_requires_confirmation r then ''Yes'' else ''No'')]"

definition interpret_strategy ::
    "(decimal \<Rightarrow> string) \<Rightarrow> (decimal \<Rightarrow> string) \<Rightarrow> parsed_strategy_result \<Rightarrow> string" where
  "interpret_strategy str_decimal general r = join newline (interpretation_lines str_decimal general r)"

subsection \<open>Preview\<close>

definition STARTING_CASH :: decimal where
  "STARTING_CASH = 10000"

record strategy_preview =
  pv_parsed_strategy :: parsed_strategy_result
  pv_interpretation :: string
  pv_execution :: execution_result
  pv_metrics :: backtest_metrics
  pv_bar_count :: nat
  pv_start_timestamp :: timestamp
  pv_end_timestamp :: timestamp
  pv_bars :: "market_bar list"
  pv_comparison_start_index :: int
  pv_buy_and_hold_equity_curve :: "equity_point list"

record text_format =
  tf_str_decimal :: "decimal \<Rightarrow> string"
  tf_general :: "decimal \<Rightarrow> string"
  tf_isoformat :: "timestamp \<Rightarrow> string"

definition preview_of_bars ::
    "text_format \<Rightarrow> (decimal \<Rightarrow> decimal \<Rightarrow> decimal result) \<Rightarrow> market_bar list \<Rightarrow> strategy_specification \<Rightarrow>
     strategy_specification \<Rightarrow> parsed_strategy_result \<Rightarrow> strategy_preview result" where
  \<comment> \<open>\<open>create_specification_preview\<close> after the query\<close>
  "preview_of_bars tf dpow bars compiled specification parsed_strategy =
     (let eligible_index = first_signal_eligible_index compiled bars in
     res_bind (raise_if (bars = [] \<or> int (length bars) \<le> eligible_index)
                (MarketDataUnavailableError
                   ''Not enough SPY daily market data is available for this strategy.'')) (\<lambda>_.
     res_bind (generate_signals compiled bars) (\<lambda>signals.
     res_bind (execute_long_only_signals bars signals STARTING_CASH
                 (spec_stop_loss_percent specification) (spec_take_profit_percent specification)) (\<lambda>execution.
     res_bind (calculate_metrics dpow bars (er_equity_curve execution) (er_completed_trades execution)
                 STARTING_CASH (final_portfolio_value execution) eligible_index) (\<lambda>metrics.
     res_bind (calculate_buy_and_hold_equity_curve bars STARTING_CASH eligible_index) (\<lambda>curve.
     Inr \<lparr>pv_parsed_strategy = parsed_strategy,
          pv_interpretation = interpret_strategy (tf_str_decimal tf) (tf_general tf) parsed_strategy,
          pv_execution = execution, pv_metrics = metrics, pv_bar_count = length bars,
          pv_start_timestamp = bar_timestamp (bars ! 0), pv_end_timestamp = bar_timestamp (last bars),
          pv_bars = bars, pv_comparison_start_index = eligible_index,
          pv_buy_and_hold_equity_curve =
            curve[0 := \<lparr>ep_timestamp = bar_timestamp (bars ! nat eligible_index), equity = STARTING_CASH\<rparr>]\<rparr>))))))"

definition create_specification_preview ::
    "text_format \<Rightarrow> (decimal \<Rightarrow> decimal \<Rightarrow> decimal result) \<Rightarrow> strategy_specification \<Rightarrow>
     parsed_strategy_result \<Rightarrow> (market_data_row, 'z, strategy_preview) db" where
  "create_specification_preview tf dpow specification parsed_strategy =
     act_bind (act_lift (compile_strategy specification)) (\<lambda>compiled.
     act_bind (load_market_bars (spec_symbol specification) (spec_interval specification)) (\<lambda>bars.
     act_lift (preview_of_bars tf dpow bars compiled specification parsed_strategy)))"

definition create_preview ::
    "text_format \<Rightarrow> (decimal \<Rightarrow> decimal \<Rightarrow> decimal result) \<Rightarrow> parsed_strategy_result \<Rightarrow>
     (market_data_row, 'z, strategy_preview) db" where
  "create_preview tf dpow parsed_strategy =
     create_specification_preview tf dpow (pr_specification parsed_strategy) parsed_strategy"

text \<open>What a preview is as a function of the stored rows, when the query does not fail.\<close>

definition specification_preview ::
    "text_format \<Rightarrow> (decimal \<Rightarrow> decimal \<Rightarrow> decimal result) \<Rightarrow> market_data_row list \<Rightarrow>
     strategy_specification \<Rightarrow> parsed_strategy_result \<Rightarrow> strategy_preview result" where
  "specification_preview tf dpow rows specification parsed_strategy =
     res_bind (compile_strategy specification) (\<lambda>compiled.
       preview_of_bars tf dpow (stored_bars rows (spec_symbol specification) (spec_interval specification))
         compiled specification parsed_strategy)"

definition preview_of_rows ::
    "text_format \<Rightarrow> (decimal \<Rightarrow> decimal \<Rightarrow> decimal result) \<Rightarrow> market_data_row list \<Rightarrow>
     parsed_strategy_result \<Rightarrow> strategy_preview result" where
  "preview_of_rows tf dpow rows parsed_strategy =
     specification_preview tf dpow rows (pr_specification parsed_strategy) parsed_strategy"

lemma specification_preview_outcome:
  assumes "create_specification_preview tf dpow specification p s = (r, t)"
  shows "table_rows t = table_rows s"
    "r = specification_preview tf dpow (table_rows s) specification p \<or> (\<exists>e. r = Inl e \<and> db_error e)"
proof -
  obtain q u where load: "load_market_bars (spec_symbol specification) (spec_interval specification) s = (q, u)"
    by (meson surj_pair)
  show "table_rows t = table_rows s"
    "r = specification_preview tf dpow (table_rows s) specification p \<or> (\<exists>e. r = Inl e \<and> db_error e)"
    using assms load_outcome[OF load] load
    by (auto simp: create_specification_preview_def specification_preview_def act_bind_def split: sum.splits)
qed

lemma preview_outcome:
  assumes "create_preview tf dpow p s = (r, t)"
  shows "table_rows t = table_rows s"
    "r = preview_of_rows tf dpow (table_rows s) p \<or> (\<exists>e. r = Inl e \<and> db_error e)"
  using specification_preview_outcome[OF assms[unfolded create_preview_def]] by (simp_all add: preview_of_rows_def)

lemma preview_computed:
  "create_preview tf dpow p s = (Inr pv, t) \<Longrightarrow> preview_of_rows tf dpow (table_rows s) p = Inr pv"
  using preview_outcome(2)[of tf dpow p s "Inr pv" t] by simp

lemma specification_preview_healthy:
  "healthy s \<Longrightarrow> create_specification_preview tf dpow specification p s =
     (specification_preview tf dpow (table_rows s) specification p, s)"
  by (simp add: create_specification_preview_def specification_preview_def load_market_bars_def act_bind_def
      healthy_simps split: sum.splits)

lemma preview_healthy: "healthy s \<Longrightarrow> create_preview tf dpow p s = (preview_of_rows tf dpow (table_rows s) p, s)"
  by (simp add: create_preview_def preview_of_rows_def specification_preview_healthy)

subsection \<open>Serialization\<close>

fun exit_reason_value :: "exit_reason \<Rightarrow> string" where
  "exit_reason_value STRATEGY_EXIT = ''strategy_exit''"
| "exit_reason_value STOP_LOSS = ''stop_loss''"
| "exit_reason_value TAKE_PROFIT = ''take_profit''"
| "exit_reason_value FINAL_LIQUIDATION = ''final_liquidation''"

definition operand_json :: "text_format \<Rightarrow> operand \<Rightarrow> json" where
  "operand_json tf opnd =
     (case opnd of
        IndicatorOperand nm src period \<Rightarrow>
          JObj [(''type'', JStr ''indicator''), (''name'', JStr (indicator_value nm)),
                (''source'', JStr src), (''period'', JInt period)]
      | PriceOperand src \<Rightarrow> JObj [(''type'', JStr ''price''), (''source'', JStr src)]
      | ConstantOperand v \<Rightarrow> JObj [(''type'', JStr ''constant''), (''value'', JStr (tf_str_decimal tf v))])"

definition condition_json :: "text_format \<Rightarrow> condition \<Rightarrow> json" where
  "condition_json tf c =
     JObj [(''left'', operand_json tf (cond_left c)), (''operator'', JStr (operator_value (cond_operator c))),
           (''right'', operand_json tf (cond_right c))]"

definition specification_json :: "text_format \<Rightarrow> strategy_specification \<Rightarrow> json" where
  "specification_json tf s =
     JObj [(''version'', JStr (spec_version s)), (''symbol'', JStr (spec_symbol s)),
           (''interval'', JStr (spec_interval s)), (''entry'', condition_json tf (spec_entry s)),
           (''exit'', condition_json tf (spec_exit s)),
           (''execution'', JObj [(''direction'', JStr (direction (spec_execution s))),
              (''position_size_percent'', JInt (position_size_percent (spec_execution s))),
              (''signal_execution'', JStr (signal_execution (spec_execution s)))]),
           (''stop_loss_percent'', json_opt (\<lambda>v. JStr (tf_str_decimal tf v)) (spec_stop_loss_percent s)),
           (''take_profit_percent'', json_opt (\<lambda>v. JStr (tf_str_decimal tf v)) (spec_take_profit_percent s))]"

fun confidence_value :: "assumption_confidence \<Rightarrow> string" where
  "confidence_value HIGH = ''high''"
| "confidence_value MEDIUM = ''medium''"
| "confidence_value LOW = ''low''"

definition default_json :: "applied_default \<Rightarrow> json" where
  "default_json d = JObj [(''field'', JStr (ad_field d)), (''value'', ad_value d), (''reason'', JStr (ad_reason d))]"

definition assumption_json :: "strategy_assumption \<Rightarrow> json" where
  "assumption_json a =
     JObj [(''field'', JStr (as_field a)), (''inferred_value'', as_inferred_value a),
           (''reason'', JStr (as_reason a)), (''confidence'', JStr (confidence_value (as_confidence a))),
           (''requires_confirmation'', JBool (as_requires_confirmation a))]"

definition trade_json :: "text_format \<Rightarrow> completed_trade \<Rightarrow> json" where
  "trade_json tf t =
     JObj [(''signal_timestamp'', JStr (tf_isoformat tf (t_signal_timestamp t))),
           (''entry_timestamp'', JStr (tf_isoformat tf (t_entry_timestamp t))),
           (''entry_price'', JStr (tf_str_decimal tf (t_entry_price t))),
           (''quantity'', JInt (t_quantity t)),
           (''exit_signal_timestamp'', json_opt (\<lambda>u. JStr (tf_isoformat tf u)) (t_exit_signal_timestamp t)),
           (''exit_timestamp'', JStr (tf_isoformat tf (t_exit_timestamp t))),
           (''exit_price'', JStr (tf_str_decimal tf (t_exit_price t))),
           (''profit_loss'', JStr (tf_str_decimal tf (t_profit_loss t))),
           (''return_percentage'', JStr (tf_str_decimal tf (t_return_percentage t))),
           (''exit_reason'', JStr (exit_reason_value (t_exit_reason t)))]"

definition comparison_points :: "text_format \<Rightarrow> equity_point list \<Rightarrow> equity_point list \<Rightarrow> json result" where
  \<comment> \<open>the comprehension over \<open>zip(..., strict=True)\<close>\<close>
  "comparison_points tf strategy benchmark =
     res_bind (raise_if (length strategy \<noteq> length benchmark)
                (ValueError ''zip() arguments have different lengths'')) (\<lambda>_.
     Inr (JList (map (\<lambda>(p, b).
       JObj [(''timestamp'', JStr (tf_isoformat tf (ep_timestamp p))),
             (''strategy_value'', JStr (tf_str_decimal tf (equity p))),
             (''buy_and_hold_value'', JStr (tf_str_decimal tf (equity b)))]) (zip strategy benchmark))))"

definition serialize_preview :: "text_format \<Rightarrow> parsed_strategy_result \<Rightarrow> strategy_preview \<Rightarrow> json result" where
  "serialize_preview tf parsed preview =
     (let str_decimal = (\<lambda>v. JStr (tf_str_decimal tf v)); iso = (\<lambda>u. JStr (tf_isoformat tf u));
          execution = pv_execution preview; metrics = pv_metrics preview
      in
      res_bind (comparison_points tf
                  (drop (nat (pv_comparison_start_index preview)) (er_equity_curve execution))
                  (pv_buy_and_hold_equity_curve preview)) (\<lambda>equity_curve.
      Inr (JObj
        [(''parsed_strategy'', JObj
           [(''specification'', specification_json tf (pr_specification parsed)),
            (''defaults_applied'', JList (map default_json (pr_defaults_applied parsed))),
            (''assumptions'', JList (map assumption_json (pr_assumptions parsed))),
            (''requires_confirmation'', JBool (pr_requires_confirmation parsed)),
            (''original_text'', JStr (pr_original_text parsed)),
            (''interpretation'', JStr (pv_interpretation preview))]),
         (''backtest'', JObj
           [(''symbol'', JStr (spec_symbol (pr_specification parsed))),
            (''interval'', JStr (spec_interval (pr_specification parsed))),
            (''start_date'', iso (pv_start_timestamp preview)),
            (''end_date'', iso (pv_end_timestamp preview)),
            (''bar_count'', JInt (int (pv_bar_count preview))),
            (''starting_cash'', str_decimal STARTING_CASH),
            (''ending_value'', str_decimal (final_portfolio_value execution)),
            (''total_return_percent'', str_decimal (total_return_percentage metrics)),
            (''cagr_percent'', json_opt str_decimal (cagr_percentage metrics)),
            (''max_drawdown_percent'', str_decimal (maximum_drawdown_percentage metrics)),
            (''trade_count'', JInt (int (length (er_completed_trades execution)))),
            (''win_rate_percent'', str_decimal (win_rate_percentage metrics)),
            (''buy_and_hold_return_percent'', str_decimal (buy_and_hold_return_percentage metrics)),
            (''equity_curve'', equity_curve),
            (''price_series'', JList (map (\<lambda>bar.
               JObj [(''timestamp'', iso (bar_timestamp bar)), (''close_price'', str_decimal (close_price bar))])
               (pv_bars preview))),
            (''trades'', JList (map (trade_json tf) (er_completed_trades execution)))])])))"

end
