(* ===== verification/App_Settings.thy ===== *)
theory App_Settings
  imports Strategy_Semantics
begin

text \<open>
  The configuration of the application (\<open>app/core/config.py\<close>): the settings that steer previews
  and dependencies, the bounds of their fields and the validators that run when the settings are
  built. URLs are given by the parts the validators look at.
\<close>

datatype environment = LOCAL | TEST | STAGING | PRODUCTION

record url_parts =
  url_scheme :: string
  url_host :: "string option"
  url_port :: "int option"
  url_password :: "string option"

record settings =
  app_name :: string
  environment :: environment
  log_level :: string
  database_url :: url_parts
  database_connect_timeout_seconds :: int
  database_pool_size :: int
  database_max_overflow :: int
  database_pool_timeout_seconds :: int
  database_pool_recycle_seconds :: int
  redis_url :: url_parts
  redis_connect_timeout_seconds :: rat
  redis_socket_timeout_seconds :: rat
  redis_connection_retries :: int
  supabase_url :: url_parts
  supabase_anon_key :: string
  supabase_auth_timeout_seconds :: rat
  cors_origins :: "url_parts list"
  openai_api_key :: "string option"
  openai_model :: "string option"
  preview_job_ttl_hours :: int
  preview_job_timeout_seconds :: int
  preview_job_max_retries :: int
  preview_job_retry_intervals_seconds :: "int list"
  preview_job_result_ttl_seconds :: int
  preview_job_failure_ttl_seconds :: int
  preview_job_stale_after_seconds :: int
  preview_job_reconciliation_batch_size :: int
  preview_job_registry_scan_limit :: int
  preview_job_lock_wait_seconds :: rat
  preview_queue_name :: string

definition field_bounds :: "settings \<Rightarrow> bool" where
  \<comment> \<open>the \<open>Field(...)\<close> bounds\<close>
  "field_bounds s \<longleftrightarrow>
     log_level s \<in> {''DEBUG'', ''INFO'', ''WARNING'', ''ERROR'', ''CRITICAL''} \<and>
     0 < database_connect_timeout_seconds s \<and> database_connect_timeout_seconds s \<le> 30 \<and>
     0 < database_pool_size s \<and> database_pool_size s \<le> 50 \<and>
     0 \<le> database_max_overflow s \<and> database_max_overflow s \<le> 50 \<and>
     0 < database_pool_timeout_seconds s \<and> database_pool_timeout_seconds s \<le> 60 \<and>
     0 < database_pool_recycle_seconds s \<and> database_pool_recycle_seconds s \<le> 3600 \<and>
     0 < redis_connect_timeout_seconds s \<and> redis_connect_timeout_seconds s \<le> 30 \<and>
     0 < redis_socket_timeout_seconds s \<and> redis_socket_timeout_seconds s \<le> 60 \<and>
     0 \<le> redis_connection_retries s \<and> redis_connection_retries s \<le> 10 \<and>
     0 < preview_job_ttl_hours s \<and> preview_job_ttl_hours s \<le> 168 \<and>
     0 < preview_job_timeout_seconds s \<and> preview_job_timeout_seconds s \<le> 3600 \<and>
     0 \<le> preview_job_max_retries s \<and> preview_job_max_retries s \<le> 10 \<and>
     0 \<le> preview_job_result_ttl_seconds s \<and> 0 < preview_job_failure_ttl_seconds s \<and>
     0 < preview_job_stale_after_seconds s \<and> preview_job_stale_after_seconds s \<le> 86400 \<and>
     0 < preview_job_reconciliation_batch_size s \<and> preview_job_reconciliation_batch_size s \<le> 1000 \<and>
     0 < preview_job_registry_scan_limit s \<and> preview_job_registry_scan_limit s \<le> 10000 \<and>
     0 < preview_job_lock_wait_seconds s \<and> preview_job_lock_wait_seconds s \<le> 30"

definition validate_retry_intervals :: "int list \<Rightarrow> int list result" where
  "validate_retry_intervals intervals =
     res_bind (raise_if (\<exists>i \<in> set intervals. i < 0)
                (ValidationError ''preview job retry intervals must be nonnegative'')) (\<lambda>_. Inr intervals)"

definition validate_retry_configuration :: "settings \<Rightarrow> settings result" where
  "validate_retry_configuration s =
     res_bind (raise_if (int (length (preview_job_retry_intervals_seconds s)) < preview_job_max_retries s)
                (ValidationError ''preview job retry intervals must cover every configured retry'')) (\<lambda>_. Inr s)"

definition local_hosts :: "string list" where
  "local_hosts = [''localhost'', ''127.0.0.1'', ''::1'', ''host.docker.internal'']"

definition placeholder_markers :: "string list" where
  "placeholder_markers = [''replace_me'', ''replace-with'', ''replace_with'', ''project_ref'']"

definition has_marker :: "string \<Rightarrow> bool" where
  "has_marker t \<longleftrightarrow> (\<exists>m \<in> set placeholder_markers. contains_text m t)"

definition ends_with :: "string \<Rightarrow> string \<Rightarrow> bool" where
  "ends_with t suffix \<longleftrightarrow> length suffix \<le> length t \<and> drop (length t - length suffix) t = suffix"

definition lower_host :: "string option \<Rightarrow> string" where
  "lower_host h = str_lower (case h of None \<Rightarrow> [] | Some t \<Rightarrow> t)"

definition strip :: "string \<Rightarrow> string" where
  "strip t = rev (dropWhile is_space (rev (dropWhile is_space t)))"

definition required_values :: "settings \<Rightarrow> (string \<times> string option) list" where
  "required_values s =
     [(''DATABASE_URL password'', url_password (database_url s)),
      (''SUPABASE_ANON_KEY'', Some (supabase_anon_key s)),
      (''OPENAI_API_KEY'', openai_api_key s), (''OPENAI_MODEL'', openai_model s)]"

definition value_missing :: "string option \<Rightarrow> bool" where
  "value_missing v =
     (let normalized = str_lower (strip (case v of None \<Rightarrow> [] | Some t \<Rightarrow> t))
      in normalized = [] \<or> has_marker normalized)"

primrec require_values :: "(string \<times> string option) list \<Rightarrow> unit result" where
  "require_values [] = Inr ()"
| "require_values (nv # rest) =
     res_bind (raise_if (value_missing (snd nv))
                (ValidationError (''production '' @ fst nv @ '' must be configured''))) (\<lambda>_. require_values rest)"

definition validate_production_configuration :: "settings \<Rightarrow> settings result" where
  "validate_production_configuration s =
     (if environment s \<noteq> PRODUCTION then Inr s
      else let database_host = lower_host (url_host (database_url s));
               supabase_host = lower_host (url_host (supabase_url s))
      in
      res_bind (raise_if (database_host \<in> set local_hosts \<or> url_port (database_url s) = Some 54322 \<or>
                  has_marker database_host)
                (ValidationError ''production DATABASE_URL must use hosted PostgreSQL'')) (\<lambda>_.
      res_bind (raise_if (supabase_host \<in> set local_hosts \<or> ends_with supabase_host ''.localhost'' \<or>
                  has_marker supabase_host)
                (ValidationError ''production SUPABASE_URL must use hosted Supabase'')) (\<lambda>_.
      res_bind (raise_if (\<exists>origin \<in> set (cors_origins s).
                  case url_host origin of None \<Rightarrow> False | Some h \<Rightarrow> ends_with (str_lower h) ''.example.com'')
                (ValidationError ''production CORS_ORIGINS must use deployed frontend origins'')) (\<lambda>_.
      res_bind (require_values (required_values s)) (\<lambda>_. Inr s)))))"

definition build_settings :: "settings \<Rightarrow> settings result" where
  \<comment> \<open>\<open>Settings()\<close>: field bounds and validators first, then the model validators in order\<close>
  "build_settings s =
     res_bind (raise_if (\<not> field_bounds s) (ValidationError '''')) (\<lambda>_.
     res_bind (validate_retry_intervals (preview_job_retry_intervals_seconds s)) (\<lambda>_.
     res_bind (validate_retry_configuration s) validate_production_configuration))"

text \<open>The defaults of the fields, with an example for the fields that have none.\<close>

definition default_settings :: settings where
  "default_settings =
     \<lparr>app_name = ''Agentic Trading Platform API'', environment = LOCAL, log_level = ''INFO'',
      database_url = \<lparr>url_scheme = ''postgresql'', url_host = Some ''localhost'', url_port = Some 5432, url_password = None\<rparr>,
      database_connect_timeout_seconds = 5, database_pool_size = 5, database_max_overflow = 5,
      database_pool_timeout_seconds = 10, database_pool_recycle_seconds = 300,
      redis_url = \<lparr>url_scheme = ''redis'', url_host = Some ''localhost'', url_port = Some 6379, url_password = None\<rparr>,
      redis_connect_timeout_seconds = 3, redis_socket_timeout_seconds = 5, redis_connection_retries = 2,
      supabase_url = \<lparr>url_scheme = ''http'', url_host = Some ''localhost'', url_port = Some 54321, url_password = None\<rparr>,
      supabase_anon_key = ''anon'', supabase_auth_timeout_seconds = 5, cors_origins = [], openai_api_key = None, openai_model = None,
      preview_job_ttl_hours = 24, preview_job_timeout_seconds = 180, preview_job_max_retries = 2,
      preview_job_retry_intervals_seconds = [5, 30], preview_job_result_ttl_seconds = 86400,
      preview_job_failure_ttl_seconds = 604800, preview_job_stale_after_seconds = 300,
      preview_job_reconciliation_batch_size = 100, preview_job_registry_scan_limit = 1000,
      preview_job_lock_wait_seconds = 5, preview_queue_name = ''preview''\<rparr>"

end
