(* ===== verification/Uuid_Text.thy ===== *)
theory Uuid_Text
  imports App_Settings "HOL-Library.Word"
begin

text \<open>
  The text form of job identifiers: Python's \<open>str(uuid)\<close> and \<open>UUID(text)\<close>, which carry the job
  identifier through the queue. The parser accepts what the standard library accepts, including
  prefixes, braces, and the signs, prefixes and underscores of \<open>int(text, 16)\<close>.
\<close>

type_synonym uuid = "128 word"

subsection \<open>Printing\<close>

definition hex_digit :: "int \<Rightarrow> char" where
  "hex_digit d = ''0123456789abcdef'' ! nat d"

primrec hex_digits :: "nat \<Rightarrow> int \<Rightarrow> string" where
  \<comment> \<open>the last digits of a number in base 16\<close>
  "hex_digits 0 v = []"
| "hex_digits (Suc n) v = hex_digits n (v div 16) @ [hex_digit (v mod 16)]"

definition uuid_text :: "uuid \<Rightarrow> string" where
  "uuid_text u =
     (let hex = hex_digits 32 (uint u) in
      take 8 hex @ ''-'' @ take 4 (drop 8 hex) @ ''-'' @ take 4 (drop 12 hex) @ ''-'' @
      take 4 (drop 16 hex) @ ''-'' @ drop 20 hex)"

subsection \<open>Parsing\<close>

definition hex_value :: "char \<Rightarrow> int option" where
  "hex_value c =
     (let k = (of_char c :: int) in
      if 48 \<le> k \<and> k \<le> 57 then Some (k - 48)
      else if 97 \<le> k \<and> k \<le> 102 then Some (k - 87)
      else if 65 \<le> k \<and> k \<le> 70 then Some (k - 55)
      else None)"

fun read_hex :: "int \<Rightarrow> bool \<Rightarrow> string \<Rightarrow> int option" where
  \<comment> \<open>the flag: an underscore, or the end, may follow\<close>
  "read_hex acc ok [] = (if ok then Some acc else None)"
| "read_hex acc ok (c # cs) =
     (if c = CHR ''_'' then (if ok then read_hex acc False cs else None)
      else case hex_value c of None \<Rightarrow> None | Some d \<Rightarrow> read_hex (16 * acc + d) True cs)"

definition read_prefixed :: "string \<Rightarrow> int option" where
  \<comment> \<open>an optional \<open>0x\<close>, which an underscore may follow\<close>
  "read_prefixed t =
     (if take 2 t = ''0x'' \<or> take 2 t = ''0X''
      then read_hex 0 False (if take 1 (drop 2 t) = ''_'' then drop 3 t else drop 2 t)
      else read_hex 0 False t)"

definition int_base_16 :: "string \<Rightarrow> int option" where
  "int_base_16 text =
     (let t = strip text in
      if take 1 t = ''-'' then map_option uminus (read_prefixed (drop 1 t))
      else if take 1 t = ''+'' then read_prefixed (drop 1 t)
      else read_prefixed t)"

function remove_text :: "string \<Rightarrow> string \<Rightarrow> string" where
  \<comment> \<open>\<open>text.replace(needle, "")\<close> for a nonempty needle\<close>
  "remove_text needle text =
     (case text of [] \<Rightarrow> []
      | c # cs \<Rightarrow> if needle \<noteq> [] \<and> take (length needle) text = needle
                  then remove_text needle (drop (length needle) text)
                  else c # remove_text needle cs)"
  by pat_completeness auto
termination
  by (relation "measure (\<lambda>(needle, text). length text)") auto

declare remove_text.simps [simp del]

definition strip_braces :: "string \<Rightarrow> string" where
  "strip_braces t =
     (let brace = (\<lambda>c. c = CHR ''{'' \<or> c = CHR ''}'') in rev (dropWhile brace (rev (dropWhile brace t))))"

definition uuid_of_text :: "string \<Rightarrow> uuid option" where
  "uuid_of_text text =
     (let hex = filter (\<lambda>c. c \<noteq> CHR ''-'') (strip_braces (remove_text ''uuid:'' (remove_text ''urn:'' text)))
      in if length hex \<noteq> 32 then None
         else case int_base_16 hex of
             None \<Rightarrow> None
           | Some v \<Rightarrow> if 0 \<le> v \<and> v < 2 ^ 128 then Some (word_of_int v) else None)"

subsection \<open>Reading back\<close>

lemma hex_digit_value:
  assumes "0 \<le> d" "d < 16"
  shows "hex_value (hex_digit d) = Some d"
proof -
  have "list_all (\<lambda>k. hex_value (''0123456789abcdef'' ! k) = Some (int k)) [0..<16]"
    by code_simp
  then have "hex_value (''0123456789abcdef'' ! nat d) = Some (int (nat d))"
    using assms unfolding list_all_iff by (auto simp del: upt_rec_numeral)
  then show ?thesis
    using assms by (simp add: hex_digit_def)
qed

lemma hex_digits_length [simp]: "length (hex_digits n v) = n"
  by (induction n arbitrary: v) auto

lemma hex_digits_values: "list_all (\<lambda>c. hex_value c \<noteq> None) (hex_digits n v)"
  by (induction n arbitrary: v) (auto simp: hex_digit_value)

lemma hex_digits_chars: "c \<in> set (hex_digits n v) \<Longrightarrow> hex_value c \<noteq> None"
  using hex_digits_values unfolding list_all_iff by blast

lemma read_hex_values:
  assumes "list_all (\<lambda>c. hex_value c \<noteq> None) xs" "ok \<or> xs \<noteq> []"
  shows "read_hex acc ok xs = Some (foldl (\<lambda>a c. 16 * a + the (hex_value c)) acc xs)"
  using assms
proof (induction xs arbitrary: acc ok)
  case (Cons c xs)
  then have "c \<noteq> CHR ''_''"
    by (auto simp: hex_value_def Let_def)
  with Cons show ?case by auto
qed simp

lemma foldl_hex_digits:
  "foldl (\<lambda>a c. 16 * a + the (hex_value c)) acc (hex_digits n v) = 16 ^ n * acc + v mod 16 ^ n"
proof (induction n arbitrary: v)
  case (Suc n)
  have "v mod 16 ^ Suc n = 16 * (v div 16 mod 16 ^ n) + v mod 16"
    using zmod_zmult2_eq[of "16 ^ n" v 16] by simp
  moreover have "foldl (\<lambda>a c. 16 * a + the (hex_value c)) acc (hex_digits (Suc n) v) =
      16 * (16 ^ n * acc + v div 16 mod 16 ^ n) + v mod 16"
    by (simp add: Suc.IH hex_digit_value)
  ultimately show ?case
    by (simp add: algebra_simps)
qed simp

lemma remove_text_absent: "needle \<noteq> [] \<Longrightarrow> hd needle \<notin> set t \<Longrightarrow> remove_text needle t = t"
proof (induction t)
  case (Cons c cs)
  then have "take (length needle) (c # cs) \<noteq> needle"
    by (cases needle) auto
  with Cons show ?case
    by (subst remove_text.simps) auto
qed (simp add: remove_text.simps)

lemma dropWhile_none: "\<forall>c \<in> set t. \<not> P c \<Longrightarrow> dropWhile P t = t"
  by (cases t) auto

lemma uuid_text_chars: "c \<in> set (uuid_text u) \<Longrightarrow> hex_value c \<noteq> None \<or> c = CHR ''-''"
  using hex_digits_chars[of c 32 "uint u"]
  by (auto simp: uuid_text_def Let_def dest!: in_set_takeD in_set_dropD)

lemma uuid_text_undashed:
  "filter (\<lambda>c. c \<noteq> CHR ''-'') (uuid_text u) = hex_digits 32 (uint u)"
proof -
  let ?h = "hex_digits 32 (uint u)"
  have keep: "filter (\<lambda>c. c \<noteq> CHR ''-'') xs = xs" if "set xs \<subseteq> set ?h" for xs
  proof (rule filter_True)
    show "\<forall>c \<in> set xs. c \<noteq> CHR ''-''"
      using that hex_digits_chars[of "CHR ''-''" 32 "uint u"] by (auto simp: hex_value_def Let_def)
  qed
  have part: "take n (drop k ?h) @ drop (k + n) ?h = drop k ?h" for k n
    by (metis add.commute append_take_drop_id drop_drop)
  have joined: "take 8 ?h @ take 4 (drop 8 ?h) @ take 4 (drop 12 ?h) @ take 4 (drop 16 ?h) @ drop 20 ?h = ?h"
    using part[of 8 0] part[of 4 8] part[of 4 12] part[of 4 16] by simp
  show ?thesis
    unfolding uuid_text_def Let_def
    using joined by (simp add: keep set_take_subset order_trans[OF set_take_subset set_drop_subset] set_drop_subset)
qed

lemma int_base_16_digits:
  assumes "list_all (\<lambda>c. hex_value c \<noteq> None) xs" "xs \<noteq> []"
  shows "int_base_16 xs = Some (foldl (\<lambda>a c. 16 * a + the (hex_value c)) 0 xs)"
proof -
  have plain: "\<not> is_space c \<and> c \<noteq> CHR ''-'' \<and> c \<noteq> CHR ''+'' \<and> c \<noteq> CHR ''x'' \<and> c \<noteq> CHR ''X''" if "c \<in> set xs" for c
  proof -
    have k: "(of_char c :: int) \<in> {48..57} \<union> {65..70} \<union> {97..102}"
      using that assms(1) unfolding list_all_iff by (fastforce simp: hex_value_def Let_def split: if_splits)
    have "n \<in> {48..57} \<union> {65..70} \<union> {97..102}" if "int n = of_char c" for n :: nat
      using k unfolding that[symmetric] by auto
    from this[OF of_nat_of_char] have "(of_char c :: nat) \<in> {48..57} \<union> {65..70} \<union> {97..102}" .
    then show ?thesis
      using k by (auto simp: is_space_def Let_def)
  qed
  have "strip xs = xs"
    using plain by (simp add: strip_def dropWhile_none)
  moreover have "take 1 xs \<noteq> ''-''" "take 1 xs \<noteq> ''+''" "take 2 xs \<noteq> ''0x''" "take 2 xs \<noteq> ''0X''"
    using plain by (metis in_set_takeD list.set_intros)+
  ultimately show ?thesis
    using read_hex_values[OF assms(1)] assms(2) by (simp add: int_base_16_def read_prefixed_def)
qed

lemma uuid_roundtrip: "uuid_of_text (uuid_text u) = Some u"
proof -
  let ?h = "hex_digits 32 (uint u)"
  have no_u: "CHR ''u'' \<notin> set (uuid_text u)"
    and no_brace: "\<forall>c \<in> set (uuid_text u). c \<noteq> CHR ''{'' \<and> c \<noteq> CHR ''}''"
    using uuid_text_chars[of _ u] by (fastforce simp: hex_value_def Let_def)+
  have "strip_braces (remove_text ''uuid:'' (remove_text ''urn:'' (uuid_text u))) = uuid_text u"
    using no_u no_brace by (simp add: remove_text_absent strip_braces_def Let_def dropWhile_none)
  moreover have "int_base_16 ?h = Some (uint u)"
  proof -
    have "?h \<noteq> []"
      by (metis hex_digits_length list.size(3) zero_neq_numeral)
    moreover have "uint u mod 16 ^ 32 = uint u"
      using uint_bounded[of u] by simp
    ultimately show ?thesis
      by (simp add: int_base_16_digits[OF hex_digits_values] foldl_hex_digits)
  qed
  ultimately show ?thesis
    using uint_bounded[of u]
    unfolding uuid_of_text_def by (simp add: uuid_text_undashed Let_def)
qed

end
