(* ===== verification/Job_Store.thy ===== *)
theory Job_Store
  imports Strategy_Preview Database_Session Uuid_Text "HOL-Library.Product_Lexorder"
begin

text \<open>
  The durable state of asynchronous previews: the table \<open>preview_jobs\<close>
  (\<open>app/models/preview_job.py\<close>) and its transitions (\<open>app/services/job_store.py\<close>), as actions on a
  database session. The session of a preview also sees the advisory locks of PostgreSQL: whether
  an attempt finds the lock free is up to the other sessions, so it is an input of the model, and
  so is the time an attempt takes. Times are in microseconds.
\<close>

unbundle bit_operations_syntax

subsection \<open>Rows\<close>

datatype job_status = QUEUED | RUNNING | COMPLETED | FAILED

datatype job_stage =
    STAGE_QUEUED | PARSING | VALIDATING | COMPILING | LOADING_DATA | BACKTESTING
  | GENERATING_RESULTS | STAGE_COMPLETED | STAGE_FAILED

record preview_job =
  pj_id :: uuid
  pj_user_id :: uuid
  pj_status :: job_status
  pj_stage :: job_stage
  pj_progress :: int
  pj_strategy_text :: string
  pj_strategy_name :: "string option"
  pj_error_message :: "string option"
  pj_preview_result :: "json option"
  pj_attempt_count :: int
  pj_created_at :: timestamp
  pj_started_at :: "timestamp option"
  pj_completed_at :: "timestamp option"
  pj_expires_at :: timestamp

definition job_constraints :: "preview_job \<Rightarrow> bool" where
  "job_constraints j \<longleftrightarrow>
     0 \<le> pj_progress j \<and> pj_progress j \<le> 100 \<and> pj_strategy_text j \<noteq> [] \<and> 0 \<le> pj_attempt_count j"

definition table_ok :: "preview_job list \<Rightarrow> bool" where
  "table_ok rows \<longleftrightarrow> list_all job_constraints rows \<and> distinct (map pj_id rows)"

definition update_where ::
    "(preview_job \<Rightarrow> bool) \<Rightarrow> (preview_job \<Rightarrow> preview_job) \<Rightarrow> preview_job list \<Rightarrow> preview_job list" where
  "update_where P f rows = map (\<lambda>j. if P j then f j else j) rows"

definition find_job :: "uuid \<Rightarrow> preview_job list \<Rightarrow> preview_job option" where
  "find_job job_id rows = List.find (\<lambda>j. pj_id j = job_id) rows"

subsection \<open>The session of a preview\<close>

record preview_session = "preview_job session" +
  is_postgresql :: bool
  lock_free :: "nat \<Rightarrow> bool"
  attempt_time :: "nat \<Rightarrow> nat"
  lock_attempts :: nat
  locks_held :: "(int \<times> int) list"
  monotonic_clock :: int

subsection \<open>Transitions\<close>

definition hours :: "int \<Rightarrow> timestamp" where
  "hours n = n * 3600 * 1000000"

definition new_job :: "timestamp \<Rightarrow> uuid \<Rightarrow> uuid \<Rightarrow> string \<Rightarrow> string option \<Rightarrow> int \<Rightarrow> preview_job" where
  "new_job now job_id user_id strategy_text strategy_name ttl_hours =
     \<lparr>pj_id = job_id, pj_user_id = user_id, pj_status = QUEUED, pj_stage = STAGE_QUEUED, pj_progress = 5,
      pj_strategy_text = strategy_text, pj_strategy_name = strategy_name, pj_error_message = None,
      pj_preview_result = None, pj_attempt_count = 0, pj_created_at = now, pj_started_at = None,
      pj_completed_at = None, pj_expires_at = now + hours ttl_hours\<rparr>"

definition create_job ::
    "timestamp \<Rightarrow> uuid \<Rightarrow> uuid \<Rightarrow> string \<Rightarrow> string option \<Rightarrow> int \<Rightarrow> (preview_job, 'z, preview_job) db" where
  "create_job now job_id user_id strategy_text strategy_name ttl_hours =
     act_then (db_commit table_ok
                (\<lambda>rows. rows @ [new_job now job_id user_id strategy_text strategy_name ttl_hours]))
       (act_bind (db_execute (find_job job_id)) (\<lambda>refreshed.
        case refreshed of Some j \<Rightarrow> act_return j | None \<Rightarrow> act_raise DatabaseFault))"

definition get_job :: "uuid \<Rightarrow> uuid \<Rightarrow> (preview_job, 'z, preview_job option) db" where
  "get_job job_id user_id = db_execute (List.find (\<lambda>j. pj_id j = job_id \<and> pj_user_id j = user_id))"

definition claimable :: "bool \<Rightarrow> job_status \<Rightarrow> bool" where
  "claimable allow_running_retry status \<longleftrightarrow>
     status = QUEUED \<or> allow_running_retry \<and> status = RUNNING"

definition claimed :: "timestamp \<Rightarrow> preview_job \<Rightarrow> preview_job" where
  "claimed started_at j =
     j\<lparr>pj_status := RUNNING, pj_stage := PARSING, pj_progress := 20, pj_started_at := Some started_at,
       pj_completed_at := None, pj_error_message := None, pj_attempt_count := pj_attempt_count j + 1\<rparr>"

definition db_update ::
    "(preview_job \<Rightarrow> bool) \<Rightarrow> (preview_job \<Rightarrow> preview_job) \<Rightarrow> (preview_job, 'z, nat) db" where
  \<comment> \<open>an \<open>UPDATE ... WHERE\<close> statement and its commit; the result is \<open>rowcount\<close>\<close>
  "db_update P f =
     act_bind (db_execute (\<lambda>rows. length (filter P rows))) (\<lambda>rowcount.
     act_then (db_commit table_ok (update_where P f)) (act_return rowcount))"

definition claim_job :: "timestamp \<Rightarrow> uuid \<Rightarrow> bool \<Rightarrow> (preview_job, 'z, preview_job option) db" where
  "claim_job now job_id allow_running_retry =
     act_bind (db_update (\<lambda>j. pj_id j = job_id \<and> claimable allow_running_retry (pj_status j)) (claimed now))
       (\<lambda>rowcount. if rowcount \<noteq> 1 then act_return None else db_execute (find_job job_id))"

definition save_job :: "uuid \<Rightarrow> (preview_job \<Rightarrow> preview_job) \<Rightarrow> (preview_job, 'z, unit) db" where
  \<comment> \<open>assigning attributes of a mapped row and committing; the flush fails when the row is gone\<close>
  "save_job job_id f s =
     (if \<not> needs_rollback s \<and> find_job job_id (table_rows s) = None
      then (Inl StaleDataError, failed_flush s)
      else db_commit table_ok (update_where (\<lambda>j. pj_id j = job_id) f) s)"

definition update_progress :: "uuid \<Rightarrow> job_stage \<Rightarrow> int \<Rightarrow> (preview_job, 'z, unit) db" where
  "update_progress job_id stage progress =
     save_job job_id (\<lambda>j. j\<lparr>pj_stage := stage, pj_progress := progress\<rparr>)"

definition complete_job :: "timestamp \<Rightarrow> uuid \<Rightarrow> json \<Rightarrow> (preview_job, 'z, unit) db" where
  "complete_job now job_id preview =
     act_then db_attribute
       (save_job job_id (\<lambda>j. j\<lparr>pj_status := COMPLETED, pj_stage := STAGE_COMPLETED, pj_progress := 100,
          pj_preview_result := Some preview, pj_completed_at := Some now\<rparr>))"

definition fail_job :: "timestamp \<Rightarrow> uuid \<Rightarrow> string \<Rightarrow> (preview_job, 'z, unit) db" where
  "fail_job now job_id error =
     act_then db_attribute
       (save_job job_id (\<lambda>j. j\<lparr>pj_status := FAILED, pj_stage := STAGE_FAILED, pj_progress := 100,
          pj_error_message := Some error, pj_completed_at := Some now\<rparr>))"

definition active_status :: "job_status \<Rightarrow> bool" where
  "active_status status \<longleftrightarrow> status = QUEUED \<or> status = RUNNING"

definition operational_values :: "timestamp \<Rightarrow> bool \<Rightarrow> string \<Rightarrow> preview_job \<Rightarrow> preview_job" where
  "operational_values now will_retry final_error j =
     (if will_retry then
        j\<lparr>pj_status := QUEUED, pj_stage := STAGE_QUEUED, pj_progress := 5, pj_started_at := None,
          pj_completed_at := None, pj_error_message := None\<rparr>
      else
        j\<lparr>pj_status := FAILED, pj_stage := STAGE_FAILED, pj_progress := 100,
          pj_completed_at := Some now, pj_error_message := Some final_error\<rparr>)"

definition FINAL_ERROR :: string where
  "FINAL_ERROR = ''Unable to complete the strategy preview.''"

definition transition_job_after_operational_failure ::
    "timestamp \<Rightarrow> uuid \<Rightarrow> bool \<Rightarrow> string \<Rightarrow> (preview_job, 'z, bool) db" where
  "transition_job_after_operational_failure now job_id will_retry final_error =
     act_bind (db_update (\<lambda>j. pj_id j = job_id \<and> active_status (pj_status j))
                (operational_values now will_retry final_error)) (\<lambda>rowcount.
     if rowcount = 1
     then act_bind (db_execute (find_job job_id)) (\<lambda>_. act_return True)  \<comment> \<open>reloaded for the log\<close>
     else act_return False)"

definition list_reconciliation_candidates :: "nat \<Rightarrow> (preview_job, 'z, preview_job list) db" where
  "list_reconciliation_candidates limit =
     db_execute (\<lambda>rows. take limit
       (sort_key (\<lambda>j. (pj_created_at j, uint (pj_id j))) (filter (\<lambda>j. active_status (pj_status j)) rows)))"

definition delete_expired_jobs :: "timestamp \<Rightarrow> (preview_job, 'z, nat) db" where
  "delete_expired_jobs now =
     act_bind (db_execute (\<lambda>rows. length (filter (\<lambda>j. pj_expires_at j < now) rows))) (\<lambda>rowcount.
     act_then (db_commit table_ok (filter (\<lambda>j. \<not> pj_expires_at j < now))) (act_return rowcount))"

subsection \<open>Advisory locks\<close>

definition signed_key :: "int \<Rightarrow> int" where
  "signed_key v = (if v < 2 ^ 31 then v else v - 2 ^ 32)"

definition advisory_lock_keys :: "uuid \<Rightarrow> int \<times> int" where
  "advisory_lock_keys job_id =
     (signed_key (drop_bit 32 (uint job_id) AND 0xFFFFFFFF), signed_key (uint job_id AND 0xFFFFFFFF))"

definition spend_attempt :: "'z preview_session_scheme \<Rightarrow> 'z preview_session_scheme" where
  \<comment> \<open>the time of one attempt passes, also when its statement fails\<close>
  "spend_attempt s =
     s\<lparr>monotonic_clock := monotonic_clock s + int (attempt_time s (lock_attempts s)),
       lock_attempts := Suc (lock_attempts s)\<rparr>"

definition attempt_lock :: "int \<times> int \<Rightarrow> 'z preview_session_scheme \<Rightarrow> bool \<times> 'z preview_session_scheme" where
  \<comment> \<open>\<open>pg_try_advisory_lock\<close> as this session sees it\<close>
  "attempt_lock keys s =
     (let ok = lock_free s (lock_attempts s) in
      (ok, (spend_attempt s)\<lparr>locks_held := (if ok then [keys] else []) @ locks_held s\<rparr>))"

definition try_acquire_preview_job_lock :: "uuid \<Rightarrow> ('z preview_session_scheme, bool) action" where
  "try_acquire_preview_job_lock job_id s =
     (if \<not> is_postgresql s then (Inr True, s)
      else case db_execute (\<lambda>_. ()) s of
             (Inl e, t) \<Rightarrow> (Inl e, spend_attempt t)
           | (Inr _, t) \<Rightarrow> (case attempt_lock (advisory_lock_keys job_id) t of (ok, u) \<Rightarrow> (Inr ok, u)))"

definition POLL_INTERVAL :: int where
  "POLL_INTERVAL = 50000"

lemma next_fault_clock [simp]: "next_fault s = (f, t) \<Longrightarrow> monotonic_clock t = monotonic_clock s"
  by (auto simp: next_fault_def split: list.splits)

lemma try_acquire_clock:
  assumes "try_acquire_preview_job_lock job_id s = (r, t)"
  shows "monotonic_clock s \<le> monotonic_clock t"
  using assms
  by (auto simp: try_acquire_preview_job_lock_def db_execute_def attempt_lock_def spend_attempt_def Let_def
      split: if_splits prod.splits fault.splits)

function acquire_loop :: "uuid \<Rightarrow> int \<Rightarrow> ('z preview_session_scheme, bool) action" where
  "acquire_loop job_id deadline s =
     (case try_acquire_preview_job_lock job_id s of
        (Inl e, t) \<Rightarrow> (Inl e, t)
      | (Inr acquired, t) \<Rightarrow>
          if acquired then (Inr True, t)
          else let u = snd (db_rollback t) in
            if deadline \<le> monotonic_clock u then (Inr False, u)
            else acquire_loop job_id deadline
                   (u\<lparr>monotonic_clock := monotonic_clock u +
                        min POLL_INTERVAL (max 0 (deadline - monotonic_clock u))\<rparr>))"
  by pat_completeness auto

termination
  by (relation "measure (\<lambda>(job_id, deadline, s). nat (deadline - monotonic_clock s))")
     (auto simp: POLL_INTERVAL_def db_rollback_def dest!: try_acquire_clock[OF sym])

declare acquire_loop.simps [simp del]

definition acquire_preview_job_lock :: "int \<Rightarrow> uuid \<Rightarrow> ('z preview_session_scheme, bool) action" where
  "acquire_preview_job_lock timeout job_id s =
     acquire_loop job_id (monotonic_clock s + timeout) s"

definition release_preview_job_lock :: "uuid \<Rightarrow> ('z preview_session_scheme, unit) action" where
  "release_preview_job_lock job_id s =
     (if \<not> is_postgresql s then (Inr (), s)
      else act_bind (db_execute (\<lambda>_. ())) (\<lambda>_ t.
             (Inr (), t\<lparr>locks_held := remove1 (advisory_lock_keys job_id) (locks_held t)\<rparr>)) s)"

definition session_invalidate :: "('z preview_session_scheme, unit) action" where
  \<comment> \<open>\<open>session.invalidate()\<close> drops the connection, and the server frees its locks\<close>
  "session_invalidate s = (Inr (), s\<lparr>needs_rollback := False, attributes_expired := False, locks_held := []\<rparr>)"

end
