(* ===== verification/Job_Lifecycle.thy ===== *)
theory Job_Lifecycle
  imports Job_Store
begin

text \<open>
  The life cycle of a preview job: which rows are well formed, the steps a row can take, and what
  each operation of \<open>app/services/job_store.py\<close> does to the table, whatever the database does.
  The rows are refined by a machine of four phases.
\<close>

subsection \<open>Well-formed rows and their steps\<close>

fun running_progress :: "job_stage \<Rightarrow> int option" where
  "running_progress PARSING = Some 20"
| "running_progress VALIDATING = Some 35"
| "running_progress COMPILING = Some 50"
| "running_progress LOADING_DATA = Some 70"
| "running_progress BACKTESTING = Some 85"
| "running_progress GENERATING_RESULTS = Some 95"
| "running_progress _ = None"

definition job_ok :: "preview_job \<Rightarrow> bool" where
  "job_ok j \<longleftrightarrow> job_constraints j \<and>
     (case pj_status j of
        QUEUED \<Rightarrow> pj_stage j = STAGE_QUEUED \<and> pj_progress j = 5 \<and> pj_started_at j = None \<and>
          pj_completed_at j = None \<and> pj_error_message j = None \<and> pj_preview_result j = None
      | RUNNING \<Rightarrow> running_progress (pj_stage j) = Some (pj_progress j) \<and> pj_started_at j \<noteq> None \<and>
          pj_completed_at j = None \<and> pj_error_message j = None \<and> pj_preview_result j = None \<and>
          1 \<le> pj_attempt_count j
      | COMPLETED \<Rightarrow> pj_stage j = STAGE_COMPLETED \<and> pj_progress j = 100 \<and> pj_completed_at j \<noteq> None \<and>
          pj_error_message j = None \<and> pj_preview_result j \<noteq> None \<and> 1 \<le> pj_attempt_count j
      | FAILED \<Rightarrow> pj_stage j = STAGE_FAILED \<and> pj_progress j = 100 \<and> pj_completed_at j \<noteq> None \<and>
          pj_error_message j \<noteq> None \<and> pj_preview_result j = None)"

definition store_ok :: "preview_job list \<Rightarrow> bool" where
  "store_ok rows \<longleftrightarrow> list_all job_ok rows \<and> distinct (map pj_id rows)"

definition completed :: "timestamp \<Rightarrow> json \<Rightarrow> preview_job \<Rightarrow> preview_job" where
  "completed now preview j =
     j\<lparr>pj_status := COMPLETED, pj_stage := STAGE_COMPLETED, pj_progress := 100,
       pj_preview_result := Some preview, pj_completed_at := Some now\<rparr>"

definition failed :: "timestamp \<Rightarrow> string \<Rightarrow> preview_job \<Rightarrow> preview_job" where
  "failed now error j =
     j\<lparr>pj_status := FAILED, pj_stage := STAGE_FAILED, pj_progress := 100,
       pj_error_message := Some error, pj_completed_at := Some now\<rparr>"

inductive job_step :: "preview_job \<Rightarrow> preview_job \<Rightarrow> bool" where
  claim: "active_status (pj_status j) \<Longrightarrow> job_step j (claimed now j)"
| progress: "pj_status j = RUNNING \<Longrightarrow> running_progress stage = Some p \<Longrightarrow> pj_progress j \<le> p \<Longrightarrow>
    job_step j (j\<lparr>pj_stage := stage, pj_progress := p\<rparr>)"
| complete: "pj_status j = RUNNING \<Longrightarrow> job_step j (completed now preview j)"
| fail: "active_status (pj_status j) \<Longrightarrow> job_step j (failed now error j)"
| requeue: "active_status (pj_status j) \<Longrightarrow> job_step j (operational_values now True error j)"

inductive_cases job_stepE: "job_step j j'"

abbreviation job_steps :: "preview_job \<Rightarrow> preview_job \<Rightarrow> bool" where
  "job_steps \<equiv> job_step\<^sup>*\<^sup>*"

lemmas row_updates = claimed_def completed_def failed_def operational_values_def

definition submission_of :: "preview_job \<Rightarrow> uuid \<times> uuid \<times> string \<times> string option \<times> timestamp \<times> timestamp" where
  "submission_of j =
     (pj_id j, pj_user_id j, pj_strategy_text j, pj_strategy_name j, pj_created_at j, pj_expires_at j)"

lemma running_progress_bounds: "running_progress st = Some p \<Longrightarrow> 20 \<le> p \<and> p \<le> 95"
  by (cases st) auto

lemma job_step_ok: "job_step j j' \<Longrightarrow> job_ok j \<Longrightarrow> job_ok j'"
proof (induction rule: job_step.induct)
  case (progress j stage p)
  then show ?case
    using running_progress_bounds[of stage p] by (auto simp: job_ok_def job_constraints_def)
qed (auto simp: job_ok_def job_constraints_def row_updates active_status_def)

lemma job_step_active: "job_step j j' \<Longrightarrow> active_status (pj_status j)"
  by (cases rule: job_step.cases) (auto simp: active_status_def)

lemma job_step_submission: "job_step j j' \<Longrightarrow> submission_of j' = submission_of j"
  by (cases rule: job_step.cases) (auto simp: submission_of_def row_updates)

lemma job_step_attempts: "job_step j j' \<Longrightarrow> pj_attempt_count j \<le> pj_attempt_count j'"
  by (cases rule: job_step.cases) (auto simp: row_updates)

lemma job_steps_ok: "job_steps j j' \<Longrightarrow> job_ok j \<Longrightarrow> job_ok j'"
  by (induction rule: rtranclp_induct) (auto intro: job_step_ok)

lemma job_steps_submission: "job_steps j j' \<Longrightarrow> submission_of j' = submission_of j"
  by (induction rule: rtranclp_induct) (auto dest: job_step_submission)

lemma job_steps_attempts: "job_steps j j' \<Longrightarrow> pj_attempt_count j \<le> pj_attempt_count j'"
  by (induction rule: rtranclp_induct) (auto dest: job_step_attempts)

lemma job_steps_id: "job_steps j j' \<Longrightarrow> pj_id j' = pj_id j"
  by (drule job_steps_submission) (simp add: submission_of_def)

lemma job_steps_terminal:
  assumes "job_steps j j'" "\<not> active_status (pj_status j)"
  shows "j' = j"
  using assms by (cases rule: converse_rtranclpE) (auto dest: job_step_active)

subsection \<open>The four phases\<close>

datatype job_phase = Waiting | Working | Succeeded json | Abandoned string

definition phase_of :: "preview_job \<Rightarrow> job_phase" where
  "phase_of j =
     (case pj_status j of
        QUEUED \<Rightarrow> Waiting | RUNNING \<Rightarrow> Working
      | COMPLETED \<Rightarrow> Succeeded (the (pj_preview_result j)) | FAILED \<Rightarrow> Abandoned (the (pj_error_message j)))"

inductive phase_step :: "job_phase \<times> int \<Rightarrow> job_phase \<times> int \<Rightarrow> bool" where
  start: "p = Waiting \<or> p = Working \<Longrightarrow> phase_step (p, n) (Working, n + 1)"
| succeed: "phase_step (Working, n) (Succeeded r, n)"
| abandon: "p = Waiting \<or> p = Working \<Longrightarrow> phase_step (p, n) (Abandoned m, n)"
| retry: "p = Waiting \<or> p = Working \<Longrightarrow> phase_step (p, n) (Waiting, n)"
| work: "phase_step (Working, n) (Working, n)"

lemma phase_active: "active_status (pj_status j) \<Longrightarrow> phase_of j = Waiting \<or> phase_of j = Working"
  by (auto simp: active_status_def phase_of_def)

lemma job_step_refines:
  assumes "job_step j j'"
  shows "phase_step (phase_of j, pj_attempt_count j) (phase_of j', pj_attempt_count j')"
  using assms
proof (cases rule: job_step.cases)
  case (claim now)
  then show ?thesis
    using phase_step.start[OF phase_active] by (simp add: phase_of_def claimed_def)
next
  case (progress stage p)
  then show ?thesis
    using phase_step.work by (simp add: phase_of_def)
next
  case (complete now preview)
  then show ?thesis
    using phase_step.succeed by (simp add: phase_of_def completed_def)
next
  case (fail now error)
  then show ?thesis
    using phase_step.abandon[OF phase_active] by (simp add: phase_of_def failed_def)
next
  case (requeue now error)
  then show ?thesis
    using phase_step.retry[OF phase_active] by (simp add: phase_of_def operational_values_def)
qed

subsection \<open>How the table evolves\<close>

definition rows_evolve :: "uuid set \<Rightarrow> preview_job list \<Rightarrow> preview_job list \<Rightarrow> bool" where
  \<comment> \<open>rows are neither added nor removed, and only rows in the set take steps\<close>
  "rows_evolve ids = list_all2 (\<lambda>j j'. job_steps j j' \<and> (pj_id j \<in> ids \<or> j' = j))"

lemma rows_evolve_refl [simp]: "rows_evolve ids rows rows"
  by (simp add: rows_evolve_def list.rel_refl)

lemma rows_evolve_trans:
  assumes "rows_evolve ids xs ys" "rows_evolve ids ys zs"
  shows "rows_evolve ids xs zs"
  using assms unfolding rows_evolve_def
  by (rule list_all2_trans[rotated]) (auto dest: job_steps_id intro: rtranclp_trans)

lemma rows_evolve_ids: "rows_evolve ids xs ys \<Longrightarrow> map pj_id ys = map pj_id xs"
  unfolding rows_evolve_def by (induction rule: list_all2_induct) (auto dest: job_steps_id)

lemma rows_evolve_ok: "rows_evolve ids xs ys \<Longrightarrow> store_ok xs \<Longrightarrow> store_ok ys"
  using rows_evolve_ids[of ids xs ys]
  unfolding store_ok_def rows_evolve_def list_all2_conv_all_nth list_all_length
  by (metis job_steps_ok)

lemma store_ok_table: "store_ok rows \<Longrightarrow> table_ok rows"
  by (auto simp: store_ok_def table_ok_def job_ok_def list_all_iff)

lemma rows_evolve_update:
  assumes "\<And>j. j \<in> set rows \<Longrightarrow> P j \<Longrightarrow> pj_id j \<in> ids \<and> job_step j (f j)"
  shows "rows_evolve ids rows (update_where P f rows)"
  using assms unfolding rows_evolve_def update_where_def list_all2_conv_all_nth by auto

lemma find_job_evolves:
  assumes "rows_evolve ids xs ys" "find_job job_id xs = Some j"
  shows "\<exists>j'. find_job job_id ys = Some j' \<and> job_steps j j' \<and> (job_id \<in> ids \<or> j' = j)"
  using assms unfolding rows_evolve_def find_job_def
  by (induction rule: list_all2_induct) (auto split: if_splits dest: job_steps_id)

lemma find_job_none_evolves:
  assumes "rows_evolve ids xs ys"
  shows "find_job job_id ys = None \<longleftrightarrow> find_job job_id xs = None"
  using rows_evolve_ids[OF assms] unfolding find_job_def find_None_iff
  by (metis (mono_tags, lifting) image_iff list.set_map)

lemma find_job_SomeD: "find_job job_id rows = Some j \<Longrightarrow> j \<in> set rows \<and> pj_id j = job_id"
  by (auto simp: find_job_def find_Some_iff)

lemma find_job_unique:
  assumes "distinct (map pj_id rows)" "j \<in> set rows"
  shows "find_job (pj_id j) rows = Some j"
proof (cases "find_job (pj_id j) rows")
  case None
  then show ?thesis using assms(2) by (auto simp: find_job_def find_None_iff)
next
  case (Some k)
  then show ?thesis
    using assms find_job_SomeD[OF Some] by (metis distinct_map inj_onD)
qed

lemma find_job_update:
  assumes "\<And>j. pj_id (f j) = pj_id j"
  shows "find_job job_id (update_where P f rows) =
    map_option (\<lambda>j. if P j then f j else j) (find_job job_id rows)"
  using assms unfolding find_job_def update_where_def by (induction rows) auto

subsection \<open>What the operations do\<close>

definition evolved ::
    "preview_job list \<Rightarrow> uuid set \<Rightarrow> bool \<Rightarrow> (preview_job, 'z) session_scheme \<Rightarrow> bool" where
  \<comment> \<open>the flag restricts attention to a database without faults\<close>
  "evolved rows0 ids h s \<longleftrightarrow>
     store_ok rows0 \<and> rows_evolve ids rows0 (table_rows s) \<and> (h \<longrightarrow> healthy s)"

definition crashed ::
    "preview_job list \<Rightarrow> uuid set \<Rightarrow> bool \<Rightarrow> py_error \<Rightarrow> (preview_job, 'z) session_scheme \<Rightarrow> bool" where
  \<comment> \<open>after a failed database operation\<close>
  "crashed rows0 ids h e s \<longleftrightarrow>
     \<not> h \<and> evolved rows0 ids False s \<and> needs_rollback s \<and> db_error e"

definition row_at :: "uuid \<Rightarrow> (preview_job \<Rightarrow> bool) \<Rightarrow> (preview_job, 'z) session_scheme \<Rightarrow> bool" where
  "row_at job_id R s \<longleftrightarrow> (\<exists>j. find_job job_id (table_rows s) = Some j \<and> R j)"

definition running :: "int \<Rightarrow> preview_job \<Rightarrow> bool" where
  \<comment> \<open>running, with a progress that has not passed the bound\<close>
  "running p j \<longleftrightarrow> pj_status j = RUNNING \<and> pj_progress j \<le> p"

definition terminal :: "preview_job \<Rightarrow> bool" where
  "terminal j \<longleftrightarrow> \<not> active_status (pj_status j)"

definition settled :: "uuid \<Rightarrow> (preview_job, 'z) session_scheme \<Rightarrow> bool" where
  \<comment> \<open>the job, if it exists, is in a terminal state\<close>
  "settled job_id s \<longleftrightarrow> (\<forall>j. find_job job_id (table_rows s) = Some j \<longrightarrow> terminal j)"

definition not_running :: "uuid \<Rightarrow> (preview_job, 'z) session_scheme \<Rightarrow> bool" where
  "not_running job_id s \<longleftrightarrow>
     (\<forall>j. find_job job_id (table_rows s) = Some j \<longrightarrow> pj_status j \<noteq> RUNNING)"

lemma evolved_store_ok: "evolved rows0 ids h s \<Longrightarrow> store_ok (table_rows s)"
  by (auto simp: evolved_def dest: rows_evolve_ok)

lemma evolved_rows:
  "evolved rows0 ids h s \<Longrightarrow> table_rows t = table_rows s \<Longrightarrow> healthy s \<longrightarrow> healthy t \<Longrightarrow> evolved rows0 ids h t"
  by (auto simp: evolved_def)

lemma evolved_relax: "evolved rows0 ids h s \<Longrightarrow> table_rows t = table_rows s \<Longrightarrow> evolved rows0 ids False t"
  by (simp add: evolved_def)

lemma evolved_update:
  assumes "evolved rows0 ids h s"
    and "\<And>j. j \<in> set (table_rows s) \<Longrightarrow> P j \<Longrightarrow> pj_id j \<in> ids \<and> job_step j (f j)"
    and "table_rows t = update_where P f (table_rows s)"
    and "h \<longrightarrow> healthy t"
  shows "evolved rows0 ids h t"
  using assms rows_evolve_update[of "table_rows s" P ids f]
  by (auto simp: evolved_def intro: rows_evolve_trans)

lemma row_at_rows: "row_at job_id R s \<Longrightarrow> table_rows t = table_rows s \<Longrightarrow> row_at job_id R t"
  by (simp add: row_at_def)

lemma row_at_elem:
  assumes "store_ok (table_rows s)" "row_at job_id R s" "j \<in> set (table_rows s)" "pj_id j = job_id"
  shows "R j"
  using assms find_job_unique[of "table_rows s" j] by (auto simp: row_at_def store_ok_def)

lemma row_at_mono: "row_at job_id R s \<Longrightarrow> (\<And>j. R j \<Longrightarrow> R' j) \<Longrightarrow> row_at job_id R' s"
  by (auto simp: row_at_def)

lemma running_mono: "running p j \<Longrightarrow> p \<le> q \<Longrightarrow> running q j"
  by (simp add: running_def)

lemma row_at_settled: "row_at job_id terminal s \<Longrightarrow> settled job_id s"
  by (auto simp: row_at_def settled_def)

lemma db_commit_cases:
  assumes "db_commit table_ok change s = (r, t)"
  shows "r = Inr () \<and> table_rows t = change (table_rows s) \<and> (healthy s \<longrightarrow> healthy t) \<or>
    (\<exists>e. r = Inl e \<and> db_error e) \<and> needs_rollback t \<and>
      (table_rows t = table_rows s \<or> table_rows t = change (table_rows s)) \<and>
      \<not> (healthy s \<and> table_ok (change (table_rows s)))"
proof -
  obtain f u where nf: "next_fault s = (f, u)" by (meson surj_pair)
  show ?thesis
    using assms next_fault_fields[OF nf]
    by (auto simp: db_commit_def Let_def nf db_error_def healthy_def failed_flush_def split: if_splits)
qed

lemma db_execute_cases:
  assumes "db_execute f s = (r, t)"
  shows "r = Inr (f (table_rows s)) \<and> table_rows t = table_rows s \<and> (healthy s \<longrightarrow> healthy t) \<or>
    (\<exists>e. r = Inl e \<and> db_error e) \<and> needs_rollback t \<and> table_rows t = table_rows s \<and> \<not> healthy s"
proof -
  obtain g u where nf: "next_fault s = (g, u)" by (meson surj_pair)
  show ?thesis
    using assms next_fault_fields[OF nf]
    by (auto simp: db_execute_def nf db_error_def healthy_def split: if_splits fault.splits)
qed

lemma triple_db_execute:
  assumes "\<And>s t. P s \<Longrightarrow> table_rows t = table_rows s \<Longrightarrow> healthy s \<longrightarrow> healthy t \<Longrightarrow>
           Q (f (table_rows s)) t"
    and "\<And>e s t. P s \<Longrightarrow> \<not> healthy s \<Longrightarrow> table_rows t = table_rows s \<Longrightarrow> needs_rollback t \<Longrightarrow>
           db_error e \<Longrightarrow> E e t"
  shows "triple P (db_execute f) Q E"
  by (rule tripleI; drule db_execute_cases) (use assms in auto)

lemma triple_db_commit:
  assumes "\<And>s t. P s \<Longrightarrow> table_rows t = change (table_rows s) \<Longrightarrow> healthy s \<longrightarrow> healthy t \<Longrightarrow> Q () t"
    and "\<And>e s t. P s \<Longrightarrow> table_rows t = table_rows s \<or> table_rows t = change (table_rows s) \<Longrightarrow>
           \<not> (healthy s \<and> table_ok (change (table_rows s))) \<Longrightarrow> needs_rollback t \<Longrightarrow> db_error e \<Longrightarrow> E e t"
  shows "triple P (db_commit table_ok change) Q E"
  by (rule tripleI; drule db_commit_cases) (use assms in auto)

text \<open>One lemma covers every update of rows that is a step of the life cycle.\<close>

lemma commit_update_outcomes:
  assumes I: "evolved rows0 ids h s"
    and step: "\<And>j. j \<in> set (table_rows s) \<Longrightarrow> P j \<Longrightarrow> pj_id j \<in> ids \<and> job_step j (f j)"
  shows "table_rows t = update_where P f (table_rows s) \<Longrightarrow> healthy s \<longrightarrow> healthy t \<Longrightarrow> evolved rows0 ids h t"
    and "table_rows t = table_rows s \<or> table_rows t = update_where P f (table_rows s) \<Longrightarrow>
      \<not> (healthy s \<and> table_ok (update_where P f (table_rows s))) \<Longrightarrow> needs_rollback t \<Longrightarrow> db_error e \<Longrightarrow>
      crashed rows0 ids h e t"
proof -
  have next_ok: "table_ok (update_where P f (table_rows s))"
    by (rule store_ok_table[OF rows_evolve_ok[OF rows_evolve_update[OF step] evolved_store_ok[OF I]]])
  show "evolved rows0 ids h t"
    if "table_rows t = update_where P f (table_rows s)" "healthy s \<longrightarrow> healthy t"
    by (rule evolved_update[OF I step that(1)]) (use that I in \<open>auto simp: evolved_def\<close>)
  show "crashed rows0 ids h e t"
    if rows: "table_rows t = table_rows s \<or> table_rows t = update_where P f (table_rows s)"
      and bad: "\<not> (healthy s \<and> table_ok (update_where P f (table_rows s)))"
      and end_state: "needs_rollback t" "db_error e"
  proof -
    have "evolved rows0 ids False t"
      using rows evolved_relax[OF I, of t] evolved_update[OF evolved_relax[OF I refl] step, where t = t] by auto
    then show ?thesis
      using I bad next_ok end_state by (auto simp: crashed_def evolved_def)
  qed
qed

lemma triple_db_update:
  assumes step: "\<And>s j. I s \<Longrightarrow> j \<in> set (table_rows s) \<Longrightarrow> P j \<Longrightarrow> pj_id j \<in> ids \<and> job_step j (f j)"
    and ev: "\<And>s. I s \<Longrightarrow> evolved rows0 ids h s"
    and outcome: "\<And>s t. I s \<Longrightarrow> evolved rows0 ids h t \<Longrightarrow> table_rows t = update_where P f (table_rows s) \<Longrightarrow>
           Q (length (filter P (table_rows s))) t"
  shows "triple I (db_update P f) Q (crashed rows0 ids h)"
proof -
  let ?J = "\<lambda>n t. \<exists>s. I s \<and> evolved rows0 ids h t \<and> table_rows t = table_rows s \<and>
    n = length (filter P (table_rows s))"
  have count: "triple I (db_execute (\<lambda>rows. length (filter P rows))) ?J (crashed rows0 ids h)"
  proof (rule triple_db_execute, goal_cases)
    case (1 s t)
    then show ?case using evolved_rows[OF ev[OF 1(1)] 1(2,3)] by auto
  next
    case (2 e s t)
    then show ?case
      using evolved_relax[OF ev[OF 2(1)]] ev[OF 2(1)] by (auto simp: crashed_def evolved_def)
  qed
  have stored: "triple (?J n) (act_then (db_commit table_ok (update_where P f)) (act_return n)) Q
      (crashed rows0 ids h)" for n
  proof (rule triple_then[OF triple_db_commit triple_return], goal_cases)
    case (1 s t)
    then obtain u where u: "I u" "evolved rows0 ids h s" "table_rows s = table_rows u"
      "n = length (filter P (table_rows u))" by blast
    then show ?case
      using outcome[of u t] commit_update_outcomes(1)[OF u(2), where P = P and f = f and t = t] step[OF u(1)] 1(2,3) by auto
  next
    case (2 e s t)
    then obtain u where u: "I u" "evolved rows0 ids h s" "table_rows s = table_rows u" by blast
    then show ?case
      using commit_update_outcomes(2)[OF u(2), where P = P and f = f and t = t and e = e] step[OF u(1)] 2(2-) by auto
  qed
  show ?thesis
    unfolding db_update_def by (rule triple_bind[OF count stored])
qed

lemma triple_save_job:
  assumes step: "\<And>s j. I s \<Longrightarrow> j \<in> set (table_rows s) \<Longrightarrow> pj_id j = job_id \<Longrightarrow> job_step j (f j)"
    and ev: "\<And>s. I s \<Longrightarrow> evolved rows0 ids h s \<and> row_at job_id R s"
    and "job_id \<in> ids"
    and outcome: "\<And>s t. I s \<Longrightarrow> evolved rows0 ids h t \<Longrightarrow>
           table_rows t = update_where (\<lambda>j. pj_id j = job_id) f (table_rows s) \<Longrightarrow> Q () t"
  shows "triple I (save_job job_id f) Q (crashed rows0 ids h)"
proof -
  let ?P = "\<lambda>j. pj_id j = job_id"
  have "triple I (db_commit table_ok (update_where ?P f)) Q (crashed rows0 ids h)"
  proof (rule triple_db_commit, goal_cases)
    case (1 s t)
    then show ?case
      using outcome[OF 1(1), of t] commit_update_outcomes(1)[of rows0 ids h s, where P = ?P and f = f and t = t] ev[OF 1(1)] step[OF 1(1)]
        assms(3) by auto
  next
    case (2 e s t)
    then show ?case
      using commit_update_outcomes(2)[of rows0 ids h s, where P = ?P and f = f and t = t and e = e] ev[OF 2(1)] step[OF 2(1)] assms(3) by auto
  qed
  then show ?thesis
    using ev unfolding triple_def save_job_def row_at_def by fastforce
qed

lemma length_filter_id:
  assumes "distinct (map pj_id rows)"
  shows "length (filter (\<lambda>j. pj_id j = job_id \<and> R j) rows) =
    (case find_job job_id rows of None \<Rightarrow> 0 | Some j \<Rightarrow> if R j then 1 else 0)"
  using assms
proof (induction rows)
  case (Cons j rows)
  have "filter (\<lambda>k. pj_id k = job_id \<and> R k) rows = []" if "pj_id j = job_id"
    using Cons.prems that by (auto simp: filter_empty_conv rev_image_eqI)
  with Cons show ?case by (auto simp: find_job_def)
qed (simp add: find_job_def)

subsection \<open>What the operations do\<close>

lemma triple_reload:
  assumes "\<And>s t. I s \<Longrightarrow> evolved rows0 ids h t \<Longrightarrow> table_rows t = table_rows s \<Longrightarrow> Q (find_job job_id (table_rows t)) t"
    and "\<And>s. I s \<Longrightarrow> evolved rows0 ids h s"
  shows "triple I (db_execute (find_job job_id)) Q (crashed rows0 ids h)"
proof (rule triple_db_execute, goal_cases)
  case (1 s t)
  then show ?case using assms(1)[OF 1(1), of t] evolved_rows[OF assms(2)[OF 1(1)] 1(2,3)] by simp
next
  case (2 e s t)
  then show ?case
    using evolved_relax[OF assms(2)[OF 2(1)] 2(3)] assms(2)[OF 2(1)] by (auto simp: crashed_def evolved_def)
qed

definition claim_outcome ::
    "uuid \<Rightarrow> preview_job option \<Rightarrow> (preview_job, 'z) session_scheme \<Rightarrow> bool" where
  "claim_outcome job_id r s \<longleftrightarrow>
     (case r of None \<Rightarrow> True
      | Some j \<Rightarrow> pj_id j = job_id \<and> find_job job_id (table_rows s) = Some j \<and> running 20 j)"

lemma update_where_none: "filter P rows = [] \<Longrightarrow> update_where P f rows = rows"
  unfolding update_where_def by (rule map_idI) (auto simp: filter_empty_conv)

definition unclaimed ::
    "((preview_job, 'z) session_scheme \<Rightarrow> bool) \<Rightarrow> uuid \<Rightarrow> bool \<Rightarrow> (preview_job, 'z) session_scheme \<Rightarrow> bool" where
  \<comment> \<open>the table is as in a state where the job could not be claimed\<close>
  "unclaimed I job_id allow s \<longleftrightarrow>
     (\<exists>s0. I s0 \<and> table_rows s = table_rows s0 \<and> \<not> row_at job_id (\<lambda>j. claimable allow (pj_status j)) s0)"

definition claimed_from ::
    "((preview_job, 'z) session_scheme \<Rightarrow> bool) \<Rightarrow> timestamp \<Rightarrow> uuid \<Rightarrow> bool \<Rightarrow> preview_job \<Rightarrow> bool" where
  "claimed_from I now job_id allow k \<longleftrightarrow>
     (\<exists>s0 j. I s0 \<and> find_job job_id (table_rows s0) = Some j \<and> claimable allow (pj_status j) \<and> k = claimed now j)"

lemma claimed_from_running: "claimed_from I now job_id allow k \<Longrightarrow> running 20 k"
  by (auto simp: claimed_from_def running_def claimed_def)

lemma triple_claim_job:
  assumes "job_id \<in> ids" and ev: "\<And>s. I s \<Longrightarrow> evolved rows0 ids h s"
  shows "triple I (claim_job now job_id allow)
     (\<lambda>r s. evolved rows0 ids h s \<and> claim_outcome job_id r s \<and>
        (case r of None \<Rightarrow> unclaimed I job_id allow s | Some k \<Rightarrow> claimed_from I now job_id allow k))
     (crashed rows0 ids h)"
    (is "triple _ _ ?Q ?E")
proof -
  let ?P = "\<lambda>j. pj_id j = job_id \<and> claimable allow (pj_status j)"
  let ?R = "\<lambda>n s. evolved rows0 ids h s \<and>
    (if n = 1 then \<exists>k. find_job job_id (table_rows s) = Some k \<and> claimed_from I now job_id allow k
     else unclaimed I job_id allow s)"
  have update: "triple I (db_update ?P (claimed now)) ?R ?E"
  proof (rule triple_db_update, goal_cases)
    case (1 s j)
    then show ?case
      using assms(1) by (auto simp: claimable_def active_status_def intro!: job_step.claim)
  next
    case (3 s t)
    let ?n = "length (filter ?P (table_rows s))"
    have n: "?n = (case find_job job_id (table_rows s) of None \<Rightarrow> 0
        | Some j \<Rightarrow> if claimable allow (pj_status j) then 1 else 0)"
      using evolved_store_ok[OF ev[OF 3(1)]] by (intro length_filter_id) (simp add: store_ok_def)
    show ?case
    proof (cases "?n = 1")
      case True
      then obtain j where j: "find_job job_id (table_rows s) = Some j" "claimable allow (pj_status j)"
        unfolding n by (auto split: option.splits if_splits)
      have "find_job job_id (table_rows t) = Some (claimed now j)"
        unfolding 3(3) by (subst find_job_update) (use j find_job_SomeD[OF j(1)] in \<open>auto simp: claimed_def\<close>)
      then show ?thesis
        using 3(1,2) True j by (auto simp: claimed_from_def)
    next
      case False
      then have "filter ?P (table_rows s) = []" "\<not> row_at job_id (\<lambda>j. claimable allow (pj_status j)) s"
        using n by (auto simp: row_at_def split: option.splits if_splits)
      then have "unclaimed I job_id allow t"
        using 3(1,3) update_where_none[of ?P "table_rows s" "claimed now"] by (auto simp: unclaimed_def)
      then show ?thesis using False 3(2) by simp
    qed
  qed (rule ev)
  have reload: "triple (?R n) (if n \<noteq> 1 then act_return None else db_execute (find_job job_id)) ?Q ?E" for n
  proof (rule triple_cases)
    show "triple (?R n) (act_return None) ?Q ?E" if "n \<noteq> 1"
      using that by (simp add: triple_def claim_outcome_def)
    show "triple (?R n) (db_execute (find_job job_id)) ?Q ?E" if "\<not> n \<noteq> 1"
      using that
      by (intro triple_reload)
         (auto simp: claim_outcome_def dest: find_job_SomeD claimed_from_running)
  qed
  show ?thesis
    unfolding claim_job_def by (rule triple_bind[OF update reload])
qed

lemma triple_update_progress:
  assumes "job_id \<in> ids" "running_progress stage = Some q" "p \<le> q"
  shows "triple (\<lambda>s. evolved rows0 ids h s \<and> row_at job_id (running p) s) (update_progress job_id stage q)
     (\<lambda>_ s. evolved rows0 ids h s \<and> row_at job_id (running q) s) (crashed rows0 ids h)"
  unfolding update_progress_def
proof (rule triple_save_job[where R = "running p"], goal_cases)
  case (1 s j)
  then have "running p j"
    using row_at_elem[OF evolved_store_ok] by blast
  then show ?case
    using assms by (intro job_step.progress) (auto simp: running_def)
next
  case (4 s t)
  then show ?case
    by (force simp: row_at_def running_def find_job_update dest: find_job_SomeD)
qed (use assms in auto)

definition attribute_readable ::
    "uuid \<Rightarrow> (preview_job \<Rightarrow> bool) \<Rightarrow> (preview_job, 'z) session_scheme \<Rightarrow> bool" where
  \<comment> \<open>what is known after an exception: a session still in use sees the row as it was\<close>
  "attribute_readable job_id R s \<longleftrightarrow> needs_rollback s \<or> row_at job_id R s"

text \<open>Completion and failure both start by reading the row's status, then settle the job.\<close>

lemma triple_settle:
  assumes "job_id \<in> ids"
    and step: "\<And>j. R j \<Longrightarrow> job_step j (f j)"
    and final: "\<And>j. terminal (f j) \<and> pj_id (f j) = pj_id j"
  shows "triple (\<lambda>s. evolved rows0 ids h s \<and> attribute_readable job_id R s)
     (act_then db_attribute (save_job job_id f))
     (\<lambda>_ s. evolved rows0 ids h s \<and> row_at job_id terminal s) (crashed rows0 ids h)"
proof (rule triple_then)
  show "triple (\<lambda>s. evolved rows0 ids h s \<and> attribute_readable job_id R s) db_attribute
     (\<lambda>_ s. evolved rows0 ids h s \<and> attribute_readable job_id R s) (crashed rows0 ids h)"
    by (auto simp: triple_def db_attribute_def crashed_def evolved_def healthy_def db_error_def)
  have saved: "triple (\<lambda>s. evolved rows0 ids h s \<and> row_at job_id R s) (save_job job_id f)
     (\<lambda>_ s. evolved rows0 ids h s \<and> row_at job_id terminal s) (crashed rows0 ids h)"
  proof (rule triple_save_job[where R = R], goal_cases)
    case (1 s j)
    then show ?case
      using row_at_elem[OF evolved_store_ok] step by blast
  next
    case (4 s t)
    then show ?case
      using final by (auto simp: row_at_def find_job_update dest: find_job_SomeD)
  qed (use assms in auto)
  have pending: "triple (\<lambda>s. evolved rows0 ids h s \<and> needs_rollback s) (save_job job_id f)
     (\<lambda>_ s. evolved rows0 ids h s \<and> row_at job_id terminal s) (crashed rows0 ids h)"
    by (auto simp: triple_def save_job_def db_commit_def crashed_def evolved_def healthy_def db_error_def)
  show "triple (\<lambda>s. evolved rows0 ids h s \<and> attribute_readable job_id R s) (save_job job_id f)
     (\<lambda>_ s. evolved rows0 ids h s \<and> row_at job_id terminal s) (crashed rows0 ids h)"
    by (rule triple_strengthen[OF triple_disj[OF saved pending]]) (auto simp: attribute_readable_def)
qed

lemma complete_job_eq: "complete_job now job_id r = act_then db_attribute (save_job job_id (completed now r))"
  by (simp add: complete_job_def completed_def[abs_def])

lemma fail_job_eq: "fail_job now job_id m = act_then db_attribute (save_job job_id (failed now m))"
  by (simp add: fail_job_def failed_def[abs_def])

lemma triple_complete_job:
  assumes "job_id \<in> ids"
  shows "triple (\<lambda>s. evolved rows0 ids h s \<and> row_at job_id (running p) s) (complete_job now job_id preview)
     (\<lambda>_ s. evolved rows0 ids h s \<and> row_at job_id terminal s) (crashed rows0 ids h)"
  unfolding complete_job_eq
  by (rule triple_strengthen[OF triple_settle[OF assms, where R = "running p"]])
     (use job_step.complete in \<open>auto simp: completed_def active_status_def running_def terminal_def attribute_readable_def\<close>)

lemma triple_fail_job:
  assumes "job_id \<in> ids" "\<And>j. R j \<Longrightarrow> active_status (pj_status j)"
  shows "triple (\<lambda>s. evolved rows0 ids h s \<and> attribute_readable job_id R s) (fail_job now job_id error)
     (\<lambda>_ s. evolved rows0 ids h s \<and> row_at job_id terminal s) (crashed rows0 ids h)"
  unfolding fail_job_eq
  by (rule triple_settle[OF assms(1)])
     (use assms(2) job_step.fail in \<open>auto simp: failed_def active_status_def terminal_def\<close>)

lemma operational_final: "operational_values now False error j = failed now error j"
  by (cases j) (simp add: operational_values_def failed_def)

lemma operational_step:
  "active_status (pj_status j) \<Longrightarrow> job_step j (operational_values now will_retry error j)"
  by (cases will_retry) (auto simp: operational_final intro: job_step.fail job_step.requeue)

lemma triple_transition:
  assumes "job_id \<in> ids"
  shows "triple (evolved rows0 ids h) (transition_job_after_operational_failure now job_id will_retry error)
     (\<lambda>_ s. evolved rows0 ids h s \<and> not_running job_id s \<and> (\<not> will_retry \<longrightarrow> settled job_id s))
     (crashed rows0 ids h)"
    (is "triple _ _ ?Q ?E")
proof -
  let ?P = "\<lambda>j. pj_id j = job_id \<and> active_status (pj_status j)"
  let ?f = "operational_values now will_retry error"
  let ?R = "\<lambda>s. evolved rows0 ids h s \<and> not_running job_id s \<and> (\<not> will_retry \<longrightarrow> settled job_id s)"
  have update: "triple (evolved rows0 ids h) (db_update ?P ?f) (\<lambda>_. ?R) ?E"
  proof (rule triple_db_update, goal_cases)
    case (1 s j)
    then show ?case
      using assms by (auto intro: operational_step)
  next
    case (3 s t)
    have "pj_status j \<noteq> RUNNING \<and> (\<not> will_retry \<longrightarrow> terminal j)"
      if F: "find_job job_id (table_rows t) = Some j" for j
    proof -
      obtain k where "find_job job_id (table_rows s) = Some k" "j = (if ?P k then ?f k else k)"
        using F 3(3) find_job_update[of ?f job_id ?P] by (auto simp: operational_values_def)
      then show ?thesis
        by (auto simp: operational_values_def active_status_def terminal_def dest: find_job_SomeD split: if_splits)
    qed
    then show ?case
      using 3(2) by (simp add: settled_def not_running_def)
  qed
  have reload: "triple ?R (if n = 1 then act_bind (db_execute (find_job job_id)) (\<lambda>_. act_return True)
      else act_return False) ?Q ?E" for n :: nat
  proof (rule triple_cases)
    show "triple ?R (act_return False) ?Q ?E"
      by (simp add: triple_def)
    have "triple ?R (db_execute (find_job job_id)) (\<lambda>_. ?R) ?E"
      by (rule triple_reload) (auto simp: settled_def not_running_def)
    then show "triple ?R (act_bind (db_execute (find_job job_id)) (\<lambda>_. act_return True)) ?Q ?E"
      by (rule triple_bind) (simp add: triple_def)
  qed
  show ?thesis
    unfolding transition_job_after_operational_failure_def by (rule triple_bind[OF update reload])
qed

lemma triple_save_exact:
  assumes "job_id \<in> ids" "job_step j (f j)" "\<And>k. pj_id (f k) = pj_id k"
  shows "triple (\<lambda>s. evolved rows0 ids h s \<and> row_at job_id ((=) j) s) (save_job job_id f)
     (\<lambda>_ s. evolved rows0 ids h s \<and> row_at job_id ((=) (f j)) s) (crashed rows0 ids h)"
proof (rule triple_save_job[where R = "(=) j"], goal_cases)
  case (1 s k)
  then show ?case
    using row_at_elem[OF evolved_store_ok, of rows0 ids h s job_id "(=) j" k] assms(2) by auto
next
  case (4 s t)
  then show ?case
    using assms(3) by (auto simp: row_at_def find_job_update dest: find_job_SomeD)
qed (use assms in auto)

end
