(* ===== verification/Preview_Job_Service.thy ===== *)
theory Preview_Job_Service
  imports Job_Lifecycle
begin

text \<open>
  The workflow of a durable preview (\<open>app/services/preview_job_service.py\<close>): submission persists
  the job before it is queued, execution claims it, parses, backtests and stores the outcome. The
  queue, the parser and the preview factory are parameters, as in the code. The clock readings that
  end up in the rows are arguments.
\<close>

definition microseconds :: "rat \<Rightarrow> int" where
  "microseconds seconds = \<lfloor>seconds * 1000000\<rfloor>"

type_synonym 's enqueue = "uuid \<Rightarrow> uuid \<Rightarrow> string \<Rightarrow> string option \<Rightarrow> int option \<Rightarrow> ('s, unit) action"

subsection \<open>Submission\<close>

definition release_after_rollback :: "uuid \<Rightarrow> ('z preview_session_scheme, unit) action" where
  \<comment> \<open>the \<open>finally\<close> blocks: a lock that cannot be released goes with its connection\<close>
  "release_after_rollback job_id =
     act_catch (act_then db_rollback (release_preview_job_lock job_id)) (\<lambda>_. session_invalidate)"

definition enqueue_or_fail ::
    "'z preview_session_scheme enqueue \<Rightarrow> timestamp \<Rightarrow> preview_job \<Rightarrow> uuid \<Rightarrow> string \<Rightarrow> string option \<Rightarrow>
     ('z preview_session_scheme, uuid) action" where
  "enqueue_or_fail enqueue later job user_id strategy_text strategy_name =
     act_then
       (act_catch (enqueue (pj_id job) user_id strategy_text strategy_name None)
          (\<lambda>e. act_then (fail_job later (pj_id job) ''Unable to queue the strategy preview.'') (act_raise e)))
       (act_return (pj_id job))"

definition submit_preview_job ::
    "settings \<Rightarrow> 'z preview_session_scheme enqueue \<Rightarrow> timestamp \<Rightarrow> timestamp \<Rightarrow> uuid \<Rightarrow> uuid \<Rightarrow> string \<Rightarrow>
     string option \<Rightarrow> ('z preview_session_scheme, uuid) action" where
  "submit_preview_job settings enqueue now later job_id user_id strategy_text strategy_name =
     act_bind (acquire_preview_job_lock (microseconds (preview_job_lock_wait_seconds settings)) job_id)
       (\<lambda>acquired.
        if \<not> acquired then act_raise (RuntimeError ''Unable to safely submit the preview job.'')
        else act_finally
          (act_bind (create_job now job_id user_id strategy_text strategy_name (preview_job_ttl_hours settings))
             (\<lambda>job. enqueue_or_fail enqueue later job user_id strategy_text strategy_name))
          (release_after_rollback job_id))"

subsection \<open>Execution\<close>

definition raise_transient_failure :: "('z preview_session_scheme, unit) action" where
  "raise_transient_failure =
     act_then db_rollback (act_raise (TransientPreviewJobError ''Transient preview job operation failed.''))"

definition persist_failure :: "timestamp \<Rightarrow> uuid \<Rightarrow> string \<Rightarrow> ('z preview_session_scheme, unit) action" where
  \<comment> \<open>\<open>job.id\<close> is an attribute of the row, read again before the rollback\<close>
  "persist_failure finished job_id message =
     act_catch (fail_job finished job_id message)
       (\<lambda>e. if transient e then act_then db_attribute raise_transient_failure else act_raise e)"

definition error_text :: "py_error \<Rightarrow> string" where
  \<comment> \<open>\<open>str(error)\<close> of the errors shown to the user\<close>
  "error_text e =
     (case e of StrategyValidationError m \<Rightarrow> m | StrategyCompilationError m \<Rightarrow> m
      | MarketDataUnavailableError m \<Rightarrow> m | _ \<Rightarrow> [])"

definition rejected :: "py_error \<Rightarrow> bool" where
  "rejected e \<longleftrightarrow>
     (case e of StrategyValidationError _ \<Rightarrow> True | StrategyCompilationError _ \<Rightarrow> True
      | MarketDataUnavailableError _ \<Rightarrow> True | _ \<Rightarrow> False)"

definition provider_timeout :: "py_error \<Rightarrow> bool" where
  "provider_timeout e \<longleftrightarrow> (case e of StrategyProviderTimeoutError _ \<Rightarrow> True | _ \<Rightarrow> False)"

definition parser_error :: "py_error \<Rightarrow> bool" where
  \<comment> \<open>the class \<open>StrategyParserError\<close> and its subclasses\<close>
  "parser_error e \<longleftrightarrow>
     (case e of StrategyParserError _ \<Rightarrow> True | StrategyProviderError _ \<Rightarrow> True
      | StrategyProviderRefusalError _ \<Rightarrow> True | StrategyProviderTimeoutError _ \<Rightarrow> True
      | StrategyMalformedOutputError _ \<Rightarrow> True | _ \<Rightarrow> False)"

definition handle_run_error ::
    "timestamp \<Rightarrow> uuid \<Rightarrow> preview_job option \<Rightarrow> py_error \<Rightarrow> ('z preview_session_scheme, unit) action" where
  \<comment> \<open>the \<open>except\<close> clauses in their order; the job is \<open>None\<close> when the claim itself failed\<close>
  "handle_run_error finished job_id job e =
     (if rejected e then
        (case job of None \<Rightarrow> act_raise AssertionError
         | Some j \<Rightarrow> persist_failure finished (pj_id j) (error_text e))
      else if provider_timeout e then raise_transient_failure
      else if parser_error e then
        (case job of None \<Rightarrow> act_raise AssertionError
         | Some j \<Rightarrow> persist_failure finished (pj_id j) ''Unable to parse the strategy.'')
      else if transient e then raise_transient_failure
      else
        (case job of
           None \<Rightarrow> act_then db_rollback
             (act_bind (transition_job_after_operational_failure finished job_id False FINAL_ERROR) (\<lambda>_. act_skip))
         | Some j \<Rightarrow> persist_failure finished (pj_id j) FINAL_ERROR))"

definition execute_claimed ::
    "text_format \<Rightarrow> (string \<Rightarrow> parsed_strategy_result result) \<Rightarrow>
     (parsed_strategy_result \<Rightarrow> ('z preview_session_scheme, strategy_preview) action) \<Rightarrow>
     timestamp \<Rightarrow> preview_job \<Rightarrow> ('z preview_session_scheme, unit) action" where
  "execute_claimed tf parser preview_factory finished job =
     act_bind (act_lift (parser (pj_strategy_text job))) (\<lambda>parsed.
     act_then (update_progress (pj_id job) VALIDATING 35)
    (act_then (update_progress (pj_id job) COMPILING 50)
    (act_then (update_progress (pj_id job) LOADING_DATA 70)
    (act_then (update_progress (pj_id job) BACKTESTING 85)
    (act_bind (preview_factory parsed) (\<lambda>preview.
     act_then (update_progress (pj_id job) GENERATING_RESULTS 95)
    (act_bind (act_lift (serialize_preview tf parsed preview))
       (complete_job finished (pj_id job)))))))))"

definition run_preview_job ::
    "text_format \<Rightarrow> (string \<Rightarrow> parsed_strategy_result result) \<Rightarrow>
     (parsed_strategy_result \<Rightarrow> ('z preview_session_scheme, strategy_preview) action) \<Rightarrow>
     timestamp \<Rightarrow> timestamp \<Rightarrow> uuid \<Rightarrow> bool \<Rightarrow> ('z preview_session_scheme, bool) action" where
  "run_preview_job tf parser preview_factory started finished job_id allow_running_retry =
     act_try (claim_job started job_id allow_running_retry)
       (\<lambda>claimed. case claimed of
          None \<Rightarrow> act_return False
        | Some job \<Rightarrow>
            act_then (act_catch (execute_claimed tf parser preview_factory finished job)
                        (handle_run_error finished job_id (Some job)))
              (act_return True))
       (\<lambda>e. act_then (handle_run_error finished job_id None e) (act_return True))"

end
