(* ===== verification/Preview_Queue.thy ===== *)
theory Preview_Queue
  imports Preview_Job_Service
begin

text \<open>
  The queue of previews (\<open>app/queue/preview_queue.py\<close>): what is handed to RQ for a job, and the scan
  for the jobs that RQ still holds. RQ itself is a parameter, the four calls the code makes.
\<close>

datatype registry = StartedJobRegistry | DeferredJobRegistry | ScheduledJobRegistry

record rq_call =
  call_func :: string
  call_args :: "string option list"
  call_timeout :: int
  call_retry :: "(int \<times> int list) option"
  call_result_ttl :: int
  call_failure_ttl :: int
  call_on_failure :: "string \<times> int"

record rq_job =
  func_name :: string
  job_args :: "string option list"

record 's rq_service =
  enqueue_call :: "rq_call \<Rightarrow> ('s, unit) action"
  queue_job_ids :: "int \<Rightarrow> ('s, string list) action"
  registry_job_ids :: "registry \<Rightarrow> int \<Rightarrow> ('s, string list) action"
  fetch_job :: "string \<Rightarrow> ('s, rq_job option) action"

record rq_preview_queue =
  rpq_job_timeout :: int
  rpq_max_retries :: int
  rpq_retry_intervals :: "int list"
  rpq_result_ttl :: int
  rpq_failure_ttl :: int

definition FAILURE_CALLBACK :: string where
  "FAILURE_CALLBACK = ''app.workers.preview_worker.handle_preview_job_failure''"

definition FAILURE_CALLBACK_TIMEOUT_SECONDS :: int where
  "FAILURE_CALLBACK_TIMEOUT_SECONDS = 30"

definition PREVIEW_TASK :: string where
  "PREVIEW_TASK = ''app.workers.preview_worker.process_preview_job''"

definition get_preview_queue :: "settings \<Rightarrow> rq_preview_queue" where
  \<comment> \<open>from \<open>app/queue/connection.py\<close>\<close>
  "get_preview_queue s =
     \<lparr>rpq_job_timeout = preview_job_timeout_seconds s, rpq_max_retries = preview_job_max_retries s,
      rpq_retry_intervals = preview_job_retry_intervals_seconds s,
      rpq_result_ttl = preview_job_result_ttl_seconds s, rpq_failure_ttl = preview_job_failure_ttl_seconds s\<rparr>"

definition last_entries :: "int \<Rightarrow> 'a list \<Rightarrow> 'a list" where
  \<comment> \<open>\<open>xs[-n:]\<close> for positive \<open>n\<close>\<close>
  "last_entries n xs = drop (length xs - nat n) xs"

definition retry_policy :: "rq_preview_queue \<Rightarrow> int option \<Rightarrow> (int \<times> int list) option" where
  "retry_policy q retry_count =
     (let retries = (case retry_count of None \<Rightarrow> rpq_max_retries q | Some n \<Rightarrow> n)
      in if 0 < retries then Some (retries, last_entries retries (rpq_retry_intervals q)) else None)"

definition preview_call ::
    "rq_preview_queue \<Rightarrow> uuid \<Rightarrow> uuid \<Rightarrow> string \<Rightarrow> string option \<Rightarrow> int option \<Rightarrow> rq_call" where
  "preview_call q job_id user_id strategy_text strategy_name retry_count =
     \<lparr>call_func = PREVIEW_TASK,
      call_args = [Some (uuid_text job_id), Some (uuid_text user_id), Some strategy_text, strategy_name],
      call_timeout = rpq_job_timeout q, call_retry = retry_policy q retry_count,
      call_result_ttl = rpq_result_ttl q, call_failure_ttl = rpq_failure_ttl q,
      call_on_failure = (FAILURE_CALLBACK, FAILURE_CALLBACK_TIMEOUT_SECONDS)\<rparr>"

definition enqueue :: "'s rq_service \<Rightarrow> rq_preview_queue \<Rightarrow> 's enqueue" where
  "enqueue rq q job_id user_id strategy_text strategy_name retry_count =
     enqueue_call rq (preview_call q job_id user_id strategy_text strategy_name retry_count)"

subsection \<open>The scan for active jobs\<close>

definition too_many :: "string \<Rightarrow> int \<Rightarrow> string list \<Rightarrow> ('s, string list) action" where
  "too_many message scan_limit ids =
     (if scan_limit < int (length ids) then act_raise (RuntimeError message) else act_return ids)"

primrec scan_registries ::
    "'s rq_service \<Rightarrow> int \<Rightarrow> registry list \<Rightarrow> string list \<Rightarrow> ('s, string list) action" where
  "scan_registries rq scan_limit [] ids = act_return ids"
| "scan_registries rq scan_limit (reg # regs) ids =
     (let remaining = scan_limit - int (length ids) in
      if remaining < 0 then act_raise (RuntimeError ''Preview registries exceed the reconciliation scan limit.'')
      else act_bind (registry_job_ids rq reg remaining) (\<lambda>found.
           act_bind (too_many ''Preview registries exceed the reconciliation scan limit.'' scan_limit (ids @ found))
             (scan_registries rq scan_limit regs)))"

definition preview_id_of :: "rq_job option \<Rightarrow> uuid option" where
  "preview_id_of job =
     (case job of
        None \<Rightarrow> None
      | Some j \<Rightarrow>
          if func_name j \<noteq> PREVIEW_TASK then None
          else case job_args j of
              [] \<Rightarrow> None
            | arg # _ \<Rightarrow> uuid_of_text (case arg of None \<Rightarrow> ''None'' | Some t \<Rightarrow> t))"

primrec collect_preview_ids :: "'s rq_service \<Rightarrow> string list \<Rightarrow> uuid list \<Rightarrow> ('s, uuid list) action" where
  "collect_preview_ids rq [] found = act_return found"
| "collect_preview_ids rq (rq_id # rq_ids) found =
     act_bind
       (act_catch (fetch_job rq rq_id) (\<lambda>e. if e = NoSuchJobError then act_return None else act_raise e))
       (\<lambda>job. collect_preview_ids rq rq_ids
          (case preview_id_of job of None \<Rightarrow> found | Some u \<Rightarrow> u # found))"

definition active_preview_job_ids :: "'s rq_service \<Rightarrow> int \<Rightarrow> ('s, uuid list) action" where
  \<comment> \<open>the result is a set, given by its elements\<close>
  "active_preview_job_ids rq scan_limit =
     act_bind (queue_job_ids rq (scan_limit + 1)) (\<lambda>queued.
     act_bind (too_many ''Preview queue exceeds the bounded reconciliation scan limit.'' scan_limit queued) (\<lambda>ids.
     act_bind (scan_registries rq scan_limit [StartedJobRegistry, DeferredJobRegistry, ScheduledJobRegistry] ids) (\<lambda>all_ids.
     collect_preview_ids rq (remdups all_ids) [])))"

end
