(* ===== verification/Preview_Job_Runs.thy ===== *)
theory Preview_Job_Runs
  imports Preview_Job_Service
begin

text \<open>
  What one execution of a preview job guarantees, for every parser, every preview factory that only
  reads, and every schedule of database faults: the rows follow their life cycle, no other job is
  touched, a normal return leaves the job settled, and only retryable errors escape.
\<close>

definition reads_only :: "('z preview_session_scheme, 'a) action \<Rightarrow> bool" where
  "reads_only m \<longleftrightarrow>
     (\<forall>s r t. m s = (r, t) \<longrightarrow> table_rows t = table_rows s \<and> (healthy s \<longrightarrow> healthy t))"

definition transient_error :: py_error where
  "transient_error = TransientPreviewJobError ''Transient preview job operation failed.''"

definition escapes :: "bool \<Rightarrow> py_error \<Rightarrow> bool" where
  "escapes h e \<longleftrightarrow> e = transient_error \<or> \<not> h \<and> db_error e"

abbreviation failed_run ::
    "preview_job list \<Rightarrow> uuid set \<Rightarrow> bool \<Rightarrow> py_error \<Rightarrow> (preview_job, 'z) session_scheme \<Rightarrow> bool" where
  "failed_run rows0 ids h e s \<equiv> evolved rows0 ids h s \<and> escapes h e"

abbreviation interrupted ::
    "preview_job list \<Rightarrow> uuid set \<Rightarrow> bool \<Rightarrow> uuid \<Rightarrow> (preview_job, 'z) session_scheme \<Rightarrow> bool" where
  "interrupted rows0 ids h job_id s \<equiv>
     evolved rows0 ids h s \<and> attribute_readable job_id (running 95) s"

lemma crashed_evolved: "crashed rows0 ids h e s \<Longrightarrow> evolved rows0 ids h s \<and> \<not> h \<and> db_error e \<and> needs_rollback s"
  by (auto simp: crashed_def evolved_def)

lemma crashed_escapes: "crashed rows0 ids h e s \<Longrightarrow> failed_run rows0 ids h e s"
  by (auto dest: crashed_evolved simp: escapes_def)

lemma crashed_interrupted: "crashed rows0 ids h e s \<Longrightarrow> interrupted rows0 ids h job_id s"
  by (auto dest: crashed_evolved simp: attribute_readable_def)

lemma running_readable:
  "row_at job_id (running p) s \<Longrightarrow> p \<le> 95 \<Longrightarrow> attribute_readable job_id (running 95) s"
  by (auto simp: attribute_readable_def intro: row_at_mono running_mono)

lemma db_error_classes: "db_error e \<Longrightarrow> \<not> rejected e \<and> \<not> provider_timeout e \<and> \<not> parser_error e"
  by (auto simp: db_error_def rejected_def provider_timeout_def parser_error_def)

subsection \<open>Failure handling\<close>

lemma triple_rollback: "triple (evolved rows0 ids h) db_rollback (\<lambda>_. evolved rows0 ids h) E"
  by (auto simp: triple_def db_rollback_def evolved_def healthy_def)

lemma triple_raise_transient:
  "triple (evolved rows0 ids h) raise_transient_failure Q (failed_run rows0 ids h)"
  unfolding raise_transient_failure_def
  by (rule triple_then[OF triple_rollback]) (auto simp: triple_def escapes_def transient_error_def)

lemma triple_persist_failure:
  assumes "job_id \<in> ids"
  shows "triple (interrupted rows0 ids h job_id) (persist_failure now job_id message)
     (\<lambda>_ s. evolved rows0 ids h s \<and> row_at job_id terminal s) (failed_run rows0 ids h)"
  unfolding persist_failure_def
proof (rule triple_catch)
  show "triple (interrupted rows0 ids h job_id) (fail_job now job_id message)
     (\<lambda>_ s. evolved rows0 ids h s \<and> row_at job_id terminal s) (crashed rows0 ids h)"
    by (rule triple_fail_job[OF assms]) (simp add: running_def active_status_def)
next
  fix e
  show "triple (crashed rows0 ids h e)
     (if transient e then act_then db_attribute raise_transient_failure else act_raise e)
     (\<lambda>_ s. evolved rows0 ids h s \<and> row_at job_id terminal s) (failed_run rows0 ids h)"
  proof (rule triple_cases)
    have "triple (crashed rows0 ids h e) db_attribute (\<lambda>_. evolved rows0 ids h) (failed_run rows0 ids h)"
      by (auto simp: triple_def db_attribute_def escapes_def db_error_def dest: crashed_evolved)
    then show "triple (crashed rows0 ids h e) (act_then db_attribute raise_transient_failure)
       (\<lambda>_ s. evolved rows0 ids h s \<and> row_at job_id terminal s) (failed_run rows0 ids h)"
      by (rule triple_then[OF _ triple_raise_transient])
    show "triple (crashed rows0 ids h e) (act_raise e)
       (\<lambda>_ s. evolved rows0 ids h s \<and> row_at job_id terminal s) (failed_run rows0 ids h)"
      by (auto simp: triple_def dest: crashed_escapes)
  qed
qed

lemma triple_handle_job:
  assumes "job_id \<in> ids" "pj_id job = job_id"
  shows "triple (interrupted rows0 ids h job_id) (handle_run_error now job_id (Some job) e)
     (\<lambda>_ s. evolved rows0 ids h s \<and> row_at job_id terminal s) (failed_run rows0 ids h)"
proof -
  have transient: "triple (interrupted rows0 ids h job_id) raise_transient_failure
     (\<lambda>_ s. evolved rows0 ids h s \<and> row_at job_id terminal s) (failed_run rows0 ids h)"
    by (rule triple_strengthen[OF triple_raise_transient]) simp
  show ?thesis
    unfolding handle_run_error_def using assms transient by (auto intro!: triple_cases triple_persist_failure)
qed

lemma triple_handle_claim:
  assumes "job_id \<in> ids"
  shows "triple (crashed rows0 ids h e) (handle_run_error now job_id None e)
     (\<lambda>_ s. evolved rows0 ids h s \<and> settled job_id s) (failed_run rows0 ids h)"
    (is "triple ?P _ ?Q ?E")
proof (cases "db_error e")
  case False
  then show ?thesis by (simp add: triple_def crashed_def)
next
  case True
  let ?fail = "transition_job_after_operational_failure now job_id False FINAL_ERROR"
  have raised: "triple ?P raise_transient_failure ?Q ?E"
    by (rule triple_strengthen[OF triple_raise_transient]) (auto dest: crashed_evolved)
  have "triple ?P (act_then db_rollback (act_bind ?fail (\<lambda>_. act_skip))) ?Q ?E"
  proof (rule triple_then)
    show "triple ?P db_rollback (\<lambda>_. evolved rows0 ids h) ?E"
      by (rule triple_strengthen[OF triple_rollback]) (auto dest: crashed_evolved)
    have "triple (evolved rows0 ids h) ?fail (\<lambda>_. ?Q ()) ?E"
      by (rule triple_conseq[OF triple_transition[OF assms]]) (auto dest: crashed_escapes)
    then show "triple (evolved rows0 ids h) (act_bind ?fail (\<lambda>_. act_skip)) ?Q ?E"
      by (rule triple_bind) (auto simp: triple_def)
  qed
  then show ?thesis
    unfolding handle_run_error_def using raised db_error_classes[OF True] by simp
qed

subsection \<open>Execution\<close>

lemma triple_reads_only:
  assumes "reads_only m"
  shows "triple (\<lambda>s. evolved rows0 ids h s \<and> row_at job_id (running p) s) m
     (\<lambda>_ s. evolved rows0 ids h s \<and> row_at job_id (running p) s)
     (\<lambda>_ s. evolved rows0 ids h s \<and> row_at job_id (running p) s)"
  by (rule tripleI) (use assms in \<open>auto simp: reads_only_def intro: evolved_rows row_at_rows\<close>)

lemma triple_lift_reads_only: "reads_only (act_lift r)"
  by (simp add: reads_only_def)

lemma triple_execute_claimed:
  assumes "job_id \<in> ids" "pj_id job = job_id" "\<And>parsed. reads_only (preview_factory parsed)"
  shows "triple (\<lambda>s. evolved rows0 ids h s \<and> row_at job_id (running 20) s)
     (execute_claimed tf parser preview_factory now job)
     (\<lambda>_ s. evolved rows0 ids h s \<and> row_at job_id terminal s) (\<lambda>e. interrupted rows0 ids h job_id)"
proof -
  have progress: "triple (\<lambda>s. evolved rows0 ids h s \<and> row_at job_id (running p) s) (update_progress job_id stage q)
     (\<lambda>_ s. evolved rows0 ids h s \<and> row_at job_id (running q) s) (\<lambda>e. interrupted rows0 ids h job_id)"
    if "running_progress stage = Some q" "p \<le> q" for stage p q
    by (rule triple_weaken[OF triple_update_progress[OF assms(1) that]]) (auto dest: crashed_interrupted)
  have reading: "triple (\<lambda>s. evolved rows0 ids h s \<and> row_at job_id (running p) s) m
     (\<lambda>_ s. evolved rows0 ids h s \<and> row_at job_id (running p) s) (\<lambda>e. interrupted rows0 ids h job_id)"
    if "reads_only m" "p \<le> 95" for m :: "('b preview_session_scheme, 'c) action" and p
    by (rule triple_weaken[OF triple_reads_only[OF that(1)]]) (use that(2) in \<open>auto intro: running_readable\<close>)
  have lifted: "triple (\<lambda>s. evolved rows0 ids h s \<and> row_at job_id (running p) s)
     (act_lift r :: ('b preview_session_scheme, 'd) action)
     (\<lambda>_ s. evolved rows0 ids h s \<and> row_at job_id (running p) s) (\<lambda>e. interrupted rows0 ids h job_id)"
    if "p \<le> 95" for r and p
    by (rule triple_weaken[OF triple_reads_only[OF triple_lift_reads_only]])
      (use that in \<open>auto intro: running_readable\<close>)
  have completing: "triple (\<lambda>s. evolved rows0 ids h s \<and> row_at job_id (running 95) s) (complete_job now job_id preview)
     (\<lambda>_ s. evolved rows0 ids h s \<and> row_at job_id terminal s) (\<lambda>e. interrupted rows0 ids h job_id)" for preview
    by (rule triple_weaken[OF triple_complete_job[OF assms(1)]]) (auto dest: crashed_interrupted)
  show ?thesis
    unfolding execute_claimed_def assms(2)
    by (rule triple_bind[OF lifted] triple_then[OF progress] triple_bind[OF reading[OF assms(3)]] completing
         | simp)+
qed

lemma triple_run_preview_job:
  assumes "job_id \<in> ids" "\<And>parsed. reads_only (preview_factory parsed)"
    and ev: "\<And>s. I s \<Longrightarrow> evolved rows0 ids h s"
  shows "triple I (run_preview_job tf parser preview_factory started finished job_id allow)
     (\<lambda>r s. evolved rows0 ids h s \<and> (if r then settled job_id s else unclaimed I job_id allow s))
     (failed_run rows0 ids h)"
    (is "triple _ _ ?Q ?E")
proof -
  let ?R = "\<lambda>s. evolved rows0 ids h s \<and> settled job_id s"
  let ?C = "\<lambda>r s. evolved rows0 ids h s \<and> claim_outcome job_id r s \<and>
    (case r of None \<Rightarrow> unclaimed I job_id allow s | Some k \<Rightarrow> claimed_from I started job_id allow k)"
  have yes: "triple ?R (act_return True) ?Q ?E"
    by (simp add: triple_def)
  have run: "triple (?C r)
      (case r of None \<Rightarrow> act_return False
       | Some job \<Rightarrow> act_then (act_catch (execute_claimed tf parser preview_factory finished job)
           (handle_run_error finished job_id (Some job))) (act_return True)) ?Q ?E" for r
  proof (cases r)
    case None
    then show ?thesis by (simp add: triple_def)
  next
    case (Some job)
    show ?thesis
    proof (cases "pj_id job = job_id")
      case False
      then show ?thesis using Some by (simp add: triple_def claim_outcome_def)
    next
      case True
      have "triple (\<lambda>s. evolved rows0 ids h s \<and> row_at job_id (running 20) s)
          (act_catch (execute_claimed tf parser preview_factory finished job)
             (handle_run_error finished job_id (Some job)))
          (\<lambda>_ s. evolved rows0 ids h s \<and> row_at job_id terminal s) ?E"
        by (rule triple_catch[OF triple_execute_claimed[OF assms(1) True assms(2)]
              triple_handle_job[OF assms(1) True]])
      then have "triple (?C r)
          (act_catch (execute_claimed tf parser preview_factory finished job)
             (handle_run_error finished job_id (Some job))) (\<lambda>_. ?R) ?E"
        by (rule triple_conseq) (auto simp: claim_outcome_def row_at_def Some intro: row_at_settled)
      from triple_then[OF this yes] show ?thesis
        using Some by simp
    qed
  qed
  show ?thesis
    unfolding run_preview_job_def
    by (rule triple_try[OF triple_claim_job[OF assms(1) ev] run triple_then[OF triple_handle_claim[OF assms(1)] yes]])
qed

subsection \<open>The successful run\<close>

lemma triple_progress_exact:
  assumes "job_id \<in> ids" "running p j" "running_progress stage = Some q" "p \<le> q"
  shows "triple (\<lambda>s. evolved rows0 ids h s \<and> row_at job_id ((=) j) s) (update_progress job_id stage q)
     (\<lambda>_ s. evolved rows0 ids h s \<and> row_at job_id ((=) (j\<lparr>pj_stage := stage, pj_progress := q\<rparr>)) s)
     (crashed rows0 ids h)"
  unfolding update_progress_def
  by (rule triple_save_exact) (use assms in \<open>auto simp: running_def intro: job_step.progress\<close>)

lemma triple_complete_exact:
  assumes "job_id \<in> ids" "running p j"
  shows "triple (\<lambda>s. evolved rows0 ids h s \<and> row_at job_id ((=) j) s) (complete_job now job_id preview)
     (\<lambda>_ s. evolved rows0 ids h s \<and> row_at job_id ((=) (completed now preview j)) s) (crashed rows0 ids h)"
proof -
  have "triple (\<lambda>s. evolved rows0 ids h s \<and> row_at job_id ((=) j) s) (save_job job_id (completed now preview))
     (\<lambda>_ s. evolved rows0 ids h s \<and> row_at job_id ((=) (completed now preview j)) s) (crashed rows0 ids h)"
    by (rule triple_save_exact) (use assms in \<open>auto simp: running_def completed_def[of now preview] intro: job_step.complete[unfolded completed_def]\<close>)
  moreover have "triple (\<lambda>s. evolved rows0 ids h s \<and> row_at job_id ((=) j) s) db_attribute
     (\<lambda>_ s. evolved rows0 ids h s \<and> row_at job_id ((=) j) s) (crashed rows0 ids h)"
    by (auto simp: triple_def db_attribute_def crashed_def evolved_def healthy_def db_error_def)
  ultimately show ?thesis
    unfolding complete_job_eq by (rule triple_then[rotated])
qed

lemma triple_execute_exact:
  assumes "job_id \<in> ids" "pj_id j = job_id" "running 20 j"
    and parsed: "parser (pj_strategy_text j) = Inr parsed"
    and factory: "\<And>u. healthy u \<Longrightarrow> preview_factory parsed u = (Inr preview, u)"
    and doc: "serialize_preview tf parsed preview = Inr doc"
  shows "triple (\<lambda>s. evolved rows0 ids True s \<and> row_at job_id ((=) j) s)
     (execute_claimed tf parser preview_factory now j)
     (\<lambda>_ s. evolved rows0 ids True s \<and> row_at job_id ((=) (completed now doc j)) s) (\<lambda>_ _. False)"
proof -
  let ?at = "\<lambda>j s. evolved rows0 ids True s \<and> row_at job_id ((=) j) s"
  let ?in = "\<lambda>stage p. j\<lparr>pj_stage := stage, pj_progress := p\<rparr>"
  have progress: "triple (?at k) (update_progress job_id stage q) (\<lambda>_. ?at (?in stage q)) (\<lambda>_ _. False)"
    if "running_progress stage = Some q" "running p k" "p \<le> q"
      "k\<lparr>pj_stage := stage, pj_progress := q\<rparr> = ?in stage q" for k stage p q
    by (rule triple_weaken[OF triple_progress_exact[OF assms(1) that(2,1,3)]]) (auto simp: crashed_def that(4))
  have read: "triple (?at k) (preview_factory parsed) (\<lambda>r s. ?at k s \<and> r = preview) (\<lambda>_ _. False)" for k
    by (auto simp: triple_def factory evolved_def)
  have finish: "triple (?at (?in GENERATING_RESULTS 95)) (complete_job now job_id doc)
     (\<lambda>_. ?at (completed now doc j)) (\<lambda>_ _. False)"
    by (rule triple_weaken[OF triple_complete_exact[OF assms(1), where p = 95]])
       (use assms(3) in \<open>auto simp: running_def crashed_def completed_def\<close>)
  have later: "triple (?at (?in BACKTESTING 85))
      (act_bind (preview_factory parsed) (\<lambda>preview. act_then (update_progress job_id GENERATING_RESULTS 95)
         (act_bind (act_lift (serialize_preview tf parsed preview)) (complete_job now job_id))))
      (\<lambda>_. ?at (completed now doc j)) (\<lambda>_ _. False)"
  proof (rule triple_bind[OF read])
    fix r
    have run: "running 85 (?in BACKTESTING 85)"
      using assms(3) by (simp add: running_def)
    have same: "triple (?at (?in BACKTESTING 85))
        (act_then (update_progress job_id GENERATING_RESULTS 95)
           (act_bind (act_lift (serialize_preview tf parsed preview)) (complete_job now job_id)))
        (\<lambda>_. ?at (completed now doc j)) (\<lambda>_ _. False)"
      unfolding bind_lift_Inr[OF doc] by (rule triple_then[OF progress[OF _ run] finish]) auto
    show "triple (\<lambda>s. ?at (?in BACKTESTING 85) s \<and> r = preview)
        (act_then (update_progress job_id GENERATING_RESULTS 95)
           (act_bind (act_lift (serialize_preview tf parsed r)) (complete_job now job_id)))
        (\<lambda>_. ?at (completed now doc j)) (\<lambda>_ _. False)"
    proof (cases "r = preview")
      case True
      show ?thesis unfolding True by (rule triple_strengthen[OF same]) simp
    qed (simp add: triple_def)
  qed
  have "running 35 (?in VALIDATING 35)" "running 50 (?in COMPILING 50)" "running 70 (?in LOADING_DATA 70)"
    using assms(3) by (simp_all add: running_def)
  then show ?thesis
    unfolding execute_claimed_def assms(2) bind_lift_Inr[OF parsed]
    using assms(3) by (intro triple_then[OF progress] later) auto
qed

end
