(* ===== verification/Preview_Worker.thy ===== *)
theory Preview_Worker
  imports Preview_Job_Runs
begin

text \<open>
  The task the queue executes (\<open>app/workers/preview_worker.py\<close>): it takes the advisory lock of the
  job, runs it, turns database trouble into an error worth a retry, and synchronizes the job when
  an execution fails (the callback the queue is given). When the queue calls them is the business of
  RQ and not modelled.
\<close>

definition worker_error ::
    "timestamp \<Rightarrow> uuid \<Rightarrow> py_error \<Rightarrow> ('z preview_session_scheme, unit) action" where
  \<comment> \<open>the \<open>except\<close> clauses of \<open>process_preview_job\<close>\<close>
  "worker_error later job_id e =
     (if transient e then raise_transient_failure
      else case e of TransientPreviewJobError _ \<Rightarrow> act_raise e
      | _ \<Rightarrow>
        act_then db_rollback
          (act_catch
             (act_bind (transition_job_after_operational_failure later job_id False FINAL_ERROR) (\<lambda>_. act_skip))
             (\<lambda>p. if transient p then raise_transient_failure else db_rollback)))"

definition running_retry_allowed :: "settings \<Rightarrow> int option \<Rightarrow> bool" where
  "running_retry_allowed settings retries_left \<longleftrightarrow>
     (case retries_left of None \<Rightarrow> False | Some n \<Rightarrow> n < preview_job_max_retries settings)"

definition process_acquired ::
    "settings \<Rightarrow> text_format \<Rightarrow> (string \<Rightarrow> parsed_strategy_result result) \<Rightarrow>
     (parsed_strategy_result \<Rightarrow> ('z preview_session_scheme, strategy_preview) action) \<Rightarrow>
     timestamp \<Rightarrow> timestamp \<Rightarrow> timestamp \<Rightarrow> int option \<Rightarrow> uuid \<Rightarrow> ('z preview_session_scheme, unit) action" where
  "process_acquired settings tf parser preview_factory started finished later retries_left job_id =
     act_finally
       (act_catch
          (act_bind (run_preview_job tf parser preview_factory started finished job_id
                       (running_retry_allowed settings retries_left)) (\<lambda>_. act_skip))
          (worker_error later job_id))
       (release_after_rollback job_id)"

definition process_preview_job ::
    "settings \<Rightarrow> text_format \<Rightarrow> (string \<Rightarrow> parsed_strategy_result result) \<Rightarrow>
     (parsed_strategy_result \<Rightarrow> ('z preview_session_scheme, strategy_preview) action) \<Rightarrow>
     timestamp \<Rightarrow> timestamp \<Rightarrow> timestamp \<Rightarrow> int option \<Rightarrow> string \<Rightarrow> ('z preview_session_scheme, unit) action" where
  \<comment> \<open>a new session starts without pending failures, as after a rollback\<close>
  "process_preview_job settings tf parser preview_factory started finished later retries_left job_text =
     (case uuid_of_text job_text of
        None \<Rightarrow> act_skip
      | Some job_id \<Rightarrow>
          act_then db_rollback
            (act_try (acquire_preview_job_lock (microseconds (preview_job_lock_wait_seconds settings)) job_id)
               (\<lambda>acquired.
                  if \<not> acquired then act_skip
                  else process_acquired settings tf parser preview_factory started finished later
                         retries_left job_id)
               (worker_error later job_id)))"

definition handle_preview_job_failure ::
    "timestamp \<Rightarrow> int option \<Rightarrow> string list \<Rightarrow> ('z preview_session_scheme, unit) action" where
  "handle_preview_job_failure now retries_left args =
     (case args of
        [] \<Rightarrow> act_skip
      | job_text # _ \<Rightarrow>
          (case uuid_of_text job_text of
             None \<Rightarrow> act_skip
           | Some job_id \<Rightarrow>
               act_then db_rollback
                 (act_bind (transition_job_after_operational_failure now job_id
                     (0 < (case retries_left of None \<Rightarrow> 0 | Some n \<Rightarrow> n)) FINAL_ERROR) (\<lambda>_. act_skip))))"

end
