(* ===== verification/Preview_Worker_Runs.thy ===== *)
theory Preview_Worker_Runs
  imports Preview_Worker
begin

text \<open>
  What the worker guarantees: only the retryable error escapes \<open>process_preview_job\<close>, the advisory
  lock is given back, and on a working database a delivery of a job that can be claimed settles it or
  ends in the retryable error, after which the failure callback settles it or queues it again.
\<close>

subsection \<open>Locks and the rest of the session\<close>

lemma keeps_save [keeps_intros]: "keeps session.more (save_job job_id f)"
  using keeps_session(2) unfolding keeps_def save_job_def by (auto simp: failed_flush_def)

lemma keeps_store [keeps_intros]:
  "keeps session.more (db_update P f)" "keeps session.more (claim_job now job_id allow)"
  "keeps session.more (update_progress job_id stage p)" "keeps session.more (complete_job now job_id r)"
  "keeps session.more (fail_job now job_id m)"
  "keeps session.more (transition_job_after_operational_failure now job_id w m)"
  "keeps session.more (create_job now job_id user_id tx nm ttl)"
  unfolding db_update_def claim_job_def update_progress_def complete_job_def fail_job_def
    transition_job_after_operational_failure_def create_job_def
  by (auto intro!: keeps_intros split: option.splits)

lemma keeps_handlers [keeps_intros]:
  "keeps session.more raise_transient_failure" "keeps session.more (persist_failure now job_id m)"
  "keeps session.more (handle_run_error now job_id job e)" "keeps session.more (worker_error now job_id e)"
  "keeps session.more (handle_preview_job_failure now left args)"
  unfolding raise_transient_failure_def persist_failure_def handle_run_error_def worker_error_def
    handle_preview_job_failure_def
  by (auto intro!: keeps_intros split: option.splits list.splits py_error.splits)

lemma keeps_run_preview_job [keeps_intros]:
  assumes "\<And>parsed. keeps session.more (preview_factory parsed)"
  shows "keeps session.more (run_preview_job tf parser preview_factory started finished job_id allow)"
  using assms unfolding run_preview_job_def execute_claimed_def
  by (auto intro!: keeps_intros split: option.splits)

lemma spend_attempt_fields [simp]:
  fixes s :: "'z preview_session_scheme"
  shows "table_rows (spend_attempt s) = table_rows s" "needs_rollback (spend_attempt s) = needs_rollback s"
    "healthy (spend_attempt s) = healthy s" "locks_held (spend_attempt s) = locks_held s"
    "is_postgresql (spend_attempt s) = is_postgresql s" "lock_free (spend_attempt s) = lock_free s"
    "attempt_time (spend_attempt s) = attempt_time s" "lock_attempts (spend_attempt s) = Suc (lock_attempts s)"
    "monotonic_clock (spend_attempt s) = monotonic_clock s + int (attempt_time s (lock_attempts s))"
  by (simp_all add: spend_attempt_def healthy_def)

text \<open>The environment's side of the locks, which no action changes.\<close>

definition lock_environment :: "'z preview_session_scheme \<Rightarrow> bool \<times> (nat \<Rightarrow> bool)" where
  "lock_environment s = (is_postgresql s, lock_free s)"

lemma more_environment:
  fixes s t :: "'z preview_session_scheme"
  assumes "session.more t = session.more s"
  shows "lock_environment t = lock_environment s" "locks_held t = locks_held s" "is_postgresql t = is_postgresql s"
  using assms by (cases s, cases t, simp add: lock_environment_def)+

lemma keeps_more_environment:
  fixes m :: "('z preview_session_scheme, 'a) action"
  assumes "keeps session.more m"
  shows "keeps lock_environment m" "keeps locks_held m"
  using assms more_environment unfolding keeps_def by blast+

lemma keeps_own: "keeps lock_environment (\<lambda>t. (Inr (), t\<lparr>locks_held := g t\<rparr>))"
  by (simp add: keeps_def lock_environment_def)

lemma keeps_unless:
  assumes "keeps obs m" "\<And>s. n s = (if c s then (Inr a, s) else m s)"
  shows "keeps obs n"
  using assms by (simp add: keeps_def)

lemma attempt_lock_environment:
  fixes s :: "'z preview_session_scheme"
  assumes "attempt_lock k s = (ok, t)"
  shows "lock_environment t = lock_environment s"
  using assms by (auto simp: attempt_lock_def Let_def lock_environment_def)

lemma keeps_try_acquire: "keeps lock_environment (try_acquire_preview_job_lock job_id)"
proof (rule keepsI)
  fix s t :: "'a preview_session_scheme" and r
  assume run: "try_acquire_preview_job_lock job_id s = (r, t)"
  obtain q u where e: "db_execute (\<lambda>_. ()) s = (q, u)" by (meson surj_pair)
  have "lock_environment u = lock_environment s"
    by (rule keeps_run[OF keeps_more_environment(1)[OF keeps_session(1)] e])
  moreover have "lock_environment (spend_attempt u) = lock_environment u"
    by (simp add: lock_environment_def)
  ultimately show "lock_environment t = lock_environment s"
    using run e
    by (auto simp: try_acquire_preview_job_lock_def dest: attempt_lock_environment
        split: if_splits sum.splits prod.splits)
qed

lemma keeps_acquire: "keeps lock_environment (acquire_preview_job_lock timeout job_id)"
proof -
  have "lock_environment (snd (acquire_loop job_id deadline s)) = lock_environment s"
    for deadline and s :: "'a preview_session_scheme"
  proof (induction job_id deadline s rule: acquire_loop.induct)
    case (1 job_id deadline s)
    obtain r t where a: "try_acquire_preview_job_lock job_id s = (r, t)" by (meson surj_pair)
    show ?case
      using 1 a keeps_run[OF keeps_try_acquire a]
      by (subst acquire_loop.simps)
         (auto simp: db_rollback_def Let_def lock_environment_def split: sum.splits)
  qed
  then show ?thesis
    by (simp add: keeps_def acquire_preview_job_lock_def)
qed

lemma keeps_release: "keeps lock_environment (release_after_rollback job_id)"
proof -
  have "keeps lock_environment (release_preview_job_lock job_id)"
    by (rule keeps_unless[OF keeps_bind[OF keeps_more_environment(1)[OF keeps_session(1)] keeps_own]])
       (simp add: release_preview_job_lock_def)
  moreover have "keeps lock_environment session_invalidate"
    by (simp add: keeps_def session_invalidate_def lock_environment_def)
  ultimately show ?thesis
    unfolding release_after_rollback_def
    by (intro keeps_intros keeps_more_environment(1)[OF keeps_session(3)])
qed

lemma keeps_process:
  assumes "\<And>parsed. keeps session.more (preview_factory parsed)"
  shows "keeps lock_environment
    (process_preview_job settings tf parser preview_factory started finished later left job_text)"
proof -
  have run: "keeps lock_environment (run_preview_job tf parser preview_factory started finished job_id allow)" for job_id allow
    by (rule keeps_more_environment(1)[OF keeps_run_preview_job[OF assms]])
  have err: "keeps lock_environment (worker_error later job_id e)" for job_id e
    by (rule keeps_more_environment(1)[OF keeps_handlers(4)])
  show ?thesis
    unfolding process_preview_job_def process_acquired_def
    by (auto intro!: keeps_simple keeps_then keeps_try keeps_finally keeps_catch keeps_bind run err
        keeps_acquire keeps_release keeps_more_environment(1)[OF keeps_session(3)] split: option.splits)
qed

subsection \<open>Taking and giving back the lock\<close>

definition lock_available :: "'z preview_session_scheme \<Rightarrow> bool" where
  "lock_available s \<longleftrightarrow> \<not> is_postgresql s \<or> (\<forall>n. lock_free s n)"

lemma lock_available_environment:
  "lock_available s \<longleftrightarrow> (case lock_environment s of (pg, free) \<Rightarrow> \<not> pg \<or> (\<forall>n. free n))"
  by (simp add: lock_available_def lock_environment_def)

lemma try_acquire_cases:
  assumes "try_acquire_preview_job_lock job_id s = (r, t)"
  shows "table_rows t = table_rows s \<and>
    ((\<exists>b. r = Inr b \<and> (lock_available s \<longrightarrow> b)) \<and> (healthy s \<longrightarrow> healthy t) \<or>
     (\<exists>e. r = Inl e \<and> db_error e) \<and> needs_rollback t \<and> \<not> healthy s)"
proof (cases "is_postgresql s")
  case False
  then show ?thesis
    using assms by (auto simp: try_acquire_preview_job_lock_def)
next
  case True
  obtain q u where e: "db_execute (\<lambda>_. ()) s = (q, u)" by (meson surj_pair)
  have "lock_environment u = lock_environment s"
    by (rule keeps_run[OF keeps_more_environment(1)[OF keeps_session(1)] e])
  then show ?thesis
    using assms True db_execute_cases[OF e] e
    by (auto simp: try_acquire_preview_job_lock_def attempt_lock_def Let_def healthy_def
        spend_attempt_def lock_available_def lock_environment_def)
qed

lemma acquire_cases:
  assumes "acquire_loop job_id deadline s = (r, t)"
  shows "table_rows t = table_rows s \<and>
    ((\<exists>b. r = Inr b \<and> (lock_available s \<longrightarrow> b)) \<and> (healthy s \<longrightarrow> healthy t) \<or>
     (\<exists>e. r = Inl e \<and> db_error e) \<and> needs_rollback t \<and> \<not> healthy s)"
  using assms
proof (induction job_id deadline s rule: acquire_loop.induct)
  case (1 job_id deadline s)
  obtain q u where a: "try_acquire_preview_job_lock job_id s = (q, u)" by (meson surj_pair)
  note first = try_acquire_cases[OF a]
  show ?case
  proof (cases "q = Inr False")
    case False
    then show ?thesis
      using "1.prems" a first by (subst (asm) acquire_loop.simps) (auto split: sum.splits if_splits)
  next
    case True
    let ?v = "snd (db_rollback u)"
    let ?w = "?v\<lparr>monotonic_clock := monotonic_clock ?v + min POLL_INTERVAL (max 0 (deadline - monotonic_clock ?v))\<rparr>"
    have v: "table_rows ?v = table_rows s" "healthy s \<longrightarrow> healthy ?v" "\<not> lock_available s"
      using first True by (auto simp: db_rollback_def healthy_def)
    show ?thesis
    proof (cases "deadline \<le> monotonic_clock ?v")
      case True
      then show ?thesis
        using "1.prems" a \<open>q = Inr False\<close> v by (subst (asm) acquire_loop.simps) (auto simp: Let_def)
    next
      case late: False
      have "acquire_loop job_id deadline ?w = (r, t)"
        using "1.prems" a \<open>q = Inr False\<close> late by (subst (asm) acquire_loop.simps) (auto simp: Let_def)
      note rest = "1.IH"[OF a[symmetric] \<open>q = Inr False\<close> _ refl late this, simplified]
      then show ?thesis
        using v by (auto simp: healthy_def)
    qed
  qed
qed

lemma triple_acquire:
  "triple (\<lambda>s. evolved rows0 ids h s \<and> table_rows s = rows0 \<and> lock_available s)
     (acquire_preview_job_lock timeout job_id)
     (\<lambda>b s. (evolved rows0 ids h s \<and> table_rows s = rows0) \<and> b) (crashed rows0 ids h)"
  "triple (evolved rows0 ids h) (acquire_preview_job_lock timeout job_id)
     (\<lambda>_. evolved rows0 ids h) (crashed rows0 ids h)"
  by (rule tripleI;
      force simp: acquire_preview_job_lock_def crashed_def evolved_def dest!: acquire_cases)+

lemma release_quiet:
  assumes "release_after_rollback job_id s = (r, t)"
  shows "r = Inr () \<and> table_rows t = table_rows s \<and> (healthy s \<longrightarrow> healthy t)"
proof -
  let ?s = "snd (db_rollback s)"
  obtain q u where e: "db_execute (\<lambda>_. ()) ?s = (q, u)" by (meson surj_pair)
  have "healthy s \<longrightarrow> healthy ?s" "table_rows ?s = table_rows s"
    by (auto simp: db_rollback_def healthy_def)
  then show ?thesis
    using assms db_execute_cases[OF e] e
    by (auto simp: release_after_rollback_def act_catch_def act_then_def act_bind_def db_rollback_def
        release_preview_job_lock_def session_invalidate_def healthy_def split: prod.splits sum.splits if_splits)
qed

lemma triple_release:
  assumes "\<And>s t. I s \<Longrightarrow> table_rows t = table_rows s \<Longrightarrow> healthy s \<longrightarrow> healthy t \<Longrightarrow> Q t"
  shows "triple I (release_after_rollback job_id) (\<lambda>_. Q) E"
  by (rule tripleI; drule release_quiet) (use assms in auto)

subsection \<open>One execution of the task\<close>

definition retryable ::
    "preview_job list \<Rightarrow> uuid set \<Rightarrow> bool \<Rightarrow> py_error \<Rightarrow> (preview_job, 'z) session_scheme \<Rightarrow> bool" where
  "retryable rows0 ids h e s \<longleftrightarrow> evolved rows0 ids h s \<and> e = transient_error"

lemma triple_worker_error:
  assumes "job_id \<in> ids"
  shows "triple (failed_run rows0 ids h e) (worker_error now job_id e)
     (\<lambda>_ s. evolved rows0 ids h s \<and> \<not> h) (retryable rows0 ids h)"
    (is "triple ?P _ ?Q ?E")
proof -
  let ?fail = "transition_job_after_operational_failure now job_id False FINAL_ERROR"
  have raised: "triple (evolved rows0 ids h) raise_transient_failure ?Q ?E"
    unfolding raise_transient_failure_def
    by (rule triple_then[OF triple_rollback]) (auto simp: triple_def retryable_def transient_error_def)
  have inner: "triple (\<lambda>s. evolved rows0 ids h s \<and> \<not> h) (act_bind ?fail (\<lambda>_. act_skip)) ?Q (crashed rows0 ids h)"
  proof (rule triple_bind)
    show "triple (\<lambda>s. evolved rows0 ids h s \<and> \<not> h) ?fail (\<lambda>_ s. evolved rows0 ids h s \<and> \<not> h) (crashed rows0 ids h)"
    proof (cases h)
      case False
      show ?thesis by (rule triple_conseq[OF triple_transition[OF assms]]) (use False in auto)
    qed (simp add: triple_def)
  qed (auto simp: triple_def)
  have outer: "triple (\<lambda>s. evolved rows0 ids h s \<and> \<not> h)
     (act_catch (act_bind ?fail (\<lambda>_. act_skip)) (\<lambda>p. if transient p then raise_transient_failure else db_rollback)) ?Q ?E"
  proof (rule triple_catch[OF inner], rule triple_cases)
    show "triple (crashed rows0 ids h p) raise_transient_failure ?Q ?E" for p
      by (rule triple_strengthen[OF raised]) (auto dest: crashed_evolved)
    show "triple (crashed rows0 ids h p) db_rollback ?Q ?E" for p
      by (auto simp: triple_def db_rollback_def crashed_def evolved_def)
  qed
  have rolled: "triple (\<lambda>s. evolved rows0 ids h s \<and> \<not> h) db_rollback (\<lambda>_ s. evolved rows0 ids h s \<and> \<not> h) ?E"
    by (auto simp: triple_def db_rollback_def evolved_def)
  show ?thesis
  proof (cases "escapes h e")
    case False
    then show ?thesis by (simp add: triple_def)
  next
    case True
    have "triple ?P (act_then db_rollback
        (act_catch (act_bind ?fail (\<lambda>_. act_skip)) (\<lambda>p. if transient p then raise_transient_failure else db_rollback))) ?Q ?E"
      if "\<not> h"
      by (rule triple_strengthen[OF triple_then[OF rolled outer]]) (use that in auto)
    moreover have "triple ?P raise_transient_failure ?Q ?E"
      by (rule triple_strengthen[OF raised]) auto
    moreover have "triple ?P (act_raise transient_error) ?Q ?E"
      by (simp add: triple_def retryable_def)
    ultimately show ?thesis
      using True by (auto simp: escapes_def db_error_def transient_error_def worker_error_def transient_def)
  qed
qed

lemma triple_process_acquired:
  assumes "job_id \<in> ids" "\<And>parsed. reads_only (preview_factory parsed)"
    and ev: "\<And>s. I s \<Longrightarrow> evolved rows0 ids h s"
  shows "triple I
     (process_acquired settings tf parser preview_factory started finished later left job_id)
     (\<lambda>_ s. evolved rows0 ids h s \<and>
        (h \<longrightarrow> settled job_id s \<or> unclaimed I job_id (running_retry_allowed settings left) s))
     (retryable rows0 ids h)"
    (is "triple _ _ ?Q ?E")
proof -
  let ?run = "run_preview_job tf parser preview_factory started finished job_id (running_retry_allowed settings left)"
  have "triple I (act_bind ?run (\<lambda>_. act_skip)) ?Q (failed_run rows0 ids h)"
  proof (rule triple_bind[OF triple_run_preview_job[OF assms(1,2) ev]])
    show "triple (\<lambda>s. evolved rows0 ids h s \<and> (if r then settled job_id s
        else unclaimed I job_id (running_retry_allowed settings left) s)) act_skip ?Q (failed_run rows0 ids h)" for r
      by (auto simp: triple_def)
  qed
  moreover have "triple (failed_run rows0 ids h e) (worker_error later job_id e) ?Q ?E" for e
    by (rule triple_weaken[OF triple_worker_error[OF assms(1)]]) auto
  ultimately have body: "triple I
      (act_catch (act_bind ?run (\<lambda>_. act_skip)) (worker_error later job_id)) ?Q ?E"
    by (rule triple_catch)
  have "triple (?Q ()) (release_after_rollback job_id) (\<lambda>_. ?Q ()) ?E"
    by (rule triple_release) (auto simp: evolved_def settled_def unclaimed_def)
  moreover have "triple (?E e) (release_after_rollback job_id) (\<lambda>_. ?E e) ?E" for e
    by (rule triple_release) (auto simp: evolved_def retryable_def)
  ultimately show ?thesis
    unfolding process_acquired_def by (intro triple_finally[OF body]) auto
qed

lemma triple_process:
  assumes "\<And>job_id. uuid_of_text job_text = Some job_id \<Longrightarrow> job_id \<in> ids"
    and "\<And>parsed. reads_only (preview_factory parsed)"
  shows "triple (evolved rows0 ids h)
     (process_preview_job settings tf parser preview_factory started finished later left job_text)
     (\<lambda>_. evolved rows0 ids h) (retryable rows0 ids h)"
proof (cases "uuid_of_text job_text")
  case None
  then show ?thesis by (simp add: process_preview_job_def triple_def)
next
  case (Some job_id)
  note member = assms(1)[OF Some]
  let ?E = "retryable rows0 ids h"
  have work: "triple (evolved rows0 ids h)
      (if \<not> acquired then act_skip
       else process_acquired settings tf parser preview_factory started finished later left job_id)
      (\<lambda>_. evolved rows0 ids h) ?E" for acquired
    by (rule triple_cases)
       (simp add: triple_def, rule triple_weaken[OF triple_process_acquired[OF member assms(2)]], auto)
  have trouble: "triple (crashed rows0 ids h e) (worker_error later job_id e) (\<lambda>_. evolved rows0 ids h) ?E" for e
    by (rule triple_conseq[OF triple_worker_error[OF member]]) (auto dest: crashed_escapes)
  show ?thesis
    unfolding process_preview_job_def Some option.case
    by (rule triple_then[OF triple_rollback triple_try[OF triple_acquire(2) work trouble]])
qed

text \<open>Without faults, an execution that gets the lock and returns normally settles a job it can claim.\<close>

lemma triple_process_settles:
  assumes "uuid_of_text job_text = Some job_id" "\<And>parsed. reads_only (preview_factory parsed)"
    and "find_job job_id rows0 = Some j" "claimable (running_retry_allowed settings left) (pj_status j)"
  shows "triple (\<lambda>s. evolved rows0 {job_id} True s \<and> table_rows s = rows0 \<and> lock_available s)
     (process_preview_job settings tf parser preview_factory started finished later left job_text)
     (\<lambda>_ s. evolved rows0 {job_id} True s \<and> settled job_id s) (retryable rows0 {job_id} True)"
    (is "triple ?I _ ?Q ?E")
proof -
  let ?J = "\<lambda>s :: 'a preview_session_scheme. evolved rows0 {job_id} True s \<and> table_rows s = rows0"
  have start: "triple ?I db_rollback (\<lambda>_. ?I) ?E"
    by (auto simp: triple_def db_rollback_def evolved_def healthy_def lock_available_def)
  have claimable: "\<not> unclaimed ?J job_id (running_retry_allowed settings left) s" for s :: "'a preview_session_scheme"
    using assms(3,4) by (auto simp: unclaimed_def row_at_def)
  have work: "triple (\<lambda>s. ?J s \<and> acquired)
      (if \<not> acquired then act_skip
       else process_acquired settings tf parser preview_factory started finished later left job_id) ?Q ?E" for acquired
  proof (cases acquired)
    case True
    have "triple ?J (process_acquired settings tf parser preview_factory started finished later left job_id) ?Q ?E"
      by (rule triple_weaken[OF triple_process_acquired[where I = ?J and ids = "{job_id}" and h = True]])
         (use assms(2) claimable in auto)
    then show ?thesis using True by simp
  qed (simp add: triple_def)
  have trouble: "triple (crashed rows0 {job_id} True e) (worker_error later job_id e) ?Q ?E" for e
    by (simp add: triple_def crashed_def)
  show ?thesis
    unfolding process_preview_job_def assms(1) option.case
    by (rule triple_then[OF start triple_try[OF triple_acquire(1) work trouble]])
qed

text \<open>A job that cannot be claimed is left alone.\<close>

lemma run_unclaimable:
  assumes "healthy s" "store_ok (table_rows s)"
    and "\<forall>j \<in> set (table_rows s). pj_id j = job_id \<longrightarrow> \<not> claimable allow (pj_status j)"
  shows "run_preview_job tf parser preview_factory started finished job_id allow s = (Inr False, s)"
proof -
  let ?P = "\<lambda>j. pj_id j = job_id \<and> claimable allow (pj_status j)"
  have none: "filter ?P (table_rows s) = []"
    using assms(3) by (auto simp: filter_empty_conv)
  have "claim_job started job_id allow s = (Inr None, s)"
    using store_ok_table[OF assms(2)] update_where_none[OF none, of "claimed started"]
    by (simp add: claim_job_def db_update_def act_bind_def act_then_def none
        healthy_simps(1)[OF assms(1)] healthy_simps(2)[OF assms(1)])
  then show ?thesis
    by (simp add: run_preview_job_def act_try_def)
qed

lemma process_unclaimable:
  assumes "uuid_of_text job_text = Some job_id" "healthy s" "store_ok (table_rows s)" "lock_available s"
    and "\<forall>j \<in> set (table_rows s). pj_id j = job_id \<longrightarrow>
       \<not> claimable (running_retry_allowed settings left) (pj_status j)"
    and "process_preview_job settings tf parser preview_factory started finished later left job_text s = (r, t)"
  shows "r = Inr () \<and> table_rows t = table_rows s"
proof -
  obtain a u where acq: "acquire_preview_job_lock (microseconds (preview_job_lock_wait_seconds settings)) job_id s = (a, u)"
    by (meson surj_pair)
  have u: "a = Inr True" "table_rows u = table_rows s" "healthy u"
    using acquire_cases[OF acq[unfolded acquire_preview_job_lock_def]] assms(2,4) by auto
  have run: "run_preview_job tf parser preview_factory started finished job_id
      (running_retry_allowed settings left) u = (Inr False, u)"
    by (rule run_unclaimable) (use u assms(3,5) in auto)
  obtain p v where rel: "release_after_rollback job_id u = (p, v)" by (meson surj_pair)
  have "(r, t) = (Inr (), v)"
    using assms(6) acq u(1) run rel release_quiet[OF rel] healthy_simps(4)[OF assms(2)]
    by (simp add: process_preview_job_def assms(1) process_acquired_def act_then_def act_try_def
        act_finally_def act_catch_def act_bind_def)
  then show ?thesis
    using release_quiet[OF rel] u(2) by simp
qed

subsection \<open>The failure callback\<close>

lemma triple_callback:
  assumes "uuid_of_text job_text = Some job_id" "job_id \<in> ids"
  shows "triple (evolved rows0 ids h) (handle_preview_job_failure now left (job_text # rest))
     (\<lambda>_ s. evolved rows0 ids h s \<and> not_running job_id s \<and>
        ((case left of None \<Rightarrow> 0 | Some n \<Rightarrow> n) \<le> 0 \<longrightarrow> settled job_id s))
     (crashed rows0 ids h)"
    (is "triple _ _ ?Q ?E")
proof -
  let ?n = "case left of None \<Rightarrow> 0 | Some n \<Rightarrow> n"
  have "triple (evolved rows0 ids h)
      (transition_job_after_operational_failure now job_id (0 < ?n) FINAL_ERROR) (\<lambda>_. ?Q ()) ?E"
    by (rule triple_weaken[OF triple_transition[OF assms(2)]]) auto
  then have "triple (evolved rows0 ids h)
      (act_bind (transition_job_after_operational_failure now job_id (0 < ?n) FINAL_ERROR) (\<lambda>_. act_skip)) ?Q ?E"
    by (rule triple_bind) (auto simp: triple_def)
  from triple_then[OF triple_rollback this] show ?thesis
    by (simp add: handle_preview_job_failure_def assms(1))
qed

subsection \<open>The lock is given back\<close>

definition with_own_lock :: "uuid \<Rightarrow> bool \<Rightarrow> (int \<times> int) list \<Rightarrow> (int \<times> int) list" where
  "with_own_lock job_id pg held = (if pg then advisory_lock_keys job_id # held else held)"

lemma try_acquire_held:
  assumes "try_acquire_preview_job_lock job_id s = (r, t)"
  shows "locks_held t = (if r = Inr True then with_own_lock job_id (is_postgresql s) (locks_held s) else locks_held s) \<and>
    is_postgresql t = is_postgresql s"
proof (cases "is_postgresql s")
  case False
  then show ?thesis
    using assms by (auto simp: try_acquire_preview_job_lock_def with_own_lock_def)
next
  case True
  obtain q u where e: "db_execute (\<lambda>_. ()) s = (q, u)" by (meson surj_pair)
  have "locks_held u = locks_held s" "is_postgresql u = is_postgresql s"
    using keeps_run[OF keeps_session(1) e] by (auto dest: more_environment)
  then show ?thesis
    using assms True e
    by (auto simp: try_acquire_preview_job_lock_def attempt_lock_def Let_def with_own_lock_def
        split: sum.splits if_splits)
qed

lemma acquire_held:
  assumes "acquire_loop job_id deadline s = (r, t)"
  shows "locks_held t = (if r = Inr True then with_own_lock job_id (is_postgresql s) (locks_held s) else locks_held s) \<and>
    is_postgresql t = is_postgresql s"
  using assms
proof (induction job_id deadline s rule: acquire_loop.induct)
  case (1 job_id deadline s)
  obtain q u where a: "try_acquire_preview_job_lock job_id s = (q, u)" by (meson surj_pair)
  note first = try_acquire_held[OF a]
  let ?v = "snd (db_rollback u)"
  let ?w = "?v\<lparr>monotonic_clock := monotonic_clock ?v + min POLL_INTERVAL (max 0 (deadline - monotonic_clock ?v))\<rparr>"
  consider (free) "q \<noteq> Inr False" | (stop) "q = Inr False" "deadline \<le> monotonic_clock ?v"
    | (again) "q = Inr False" "\<not> deadline \<le> monotonic_clock ?v" by blast
  then show ?case
  proof cases
    case free
    then show ?thesis
      using "1.prems" a first by (subst (asm) acquire_loop.simps) (auto split: sum.splits if_splits)
  next
    case stop
    then show ?thesis
      using "1.prems" a first
      by (subst (asm) acquire_loop.simps) (auto simp: Let_def db_rollback_def)
  next
    case again
    have "acquire_loop job_id deadline ?w = (r, t)"
      using "1.prems" a again by (subst (asm) acquire_loop.simps) (auto simp: Let_def)
    from "1.IH"[OF a[symmetric] again(1) _ refl again(2) this, simplified] show ?thesis
      using first again(1) by (simp add: db_rollback_def)
  qed
qed

lemma release_held:
  assumes "release_after_rollback job_id s = (r, t)"
    and "locks_held s = with_own_lock job_id (is_postgresql s) held"
  shows "locks_held t = held \<or> locks_held t = []"
proof -
  let ?s = "snd (db_rollback s)"
  obtain q u where e: "db_execute (\<lambda>_. ()) ?s = (q, u)" by (meson surj_pair)
  have "locks_held u = locks_held s" "is_postgresql u = is_postgresql s"
    using keeps_run[OF keeps_session(1) e] more_environment[of u ?s]
    by (auto simp: db_rollback_def)
  then show ?thesis
    using assms e
    by (auto simp: release_after_rollback_def act_catch_def act_then_def act_bind_def db_rollback_def
        release_preview_job_lock_def session_invalidate_def with_own_lock_def split: sum.splits if_splits)
qed

lemma locked_section_held:
  assumes "keeps locks_held m" "keeps lock_environment m"
    and "act_finally m (release_after_rollback job_id) s = (r, t)"
    and "locks_held s = with_own_lock job_id (is_postgresql s) held"
  shows "locks_held t = held \<or> locks_held t = []"
proof -
  obtain q u where m: "m s = (q, u)" by (meson surj_pair)
  obtain p v where c: "release_after_rollback job_id u = (p, v)" by (meson surj_pair)
  have "locks_held u = with_own_lock job_id (is_postgresql u) held"
    using keeps_run[OF assms(1) m] keeps_run[OF assms(2) m] assms(4) by (simp add: lock_environment_def)
  from release_held[OF c this] show ?thesis
    using assms(3) m c by (auto simp: act_finally_def split: sum.splits)
qed

lemma process_held:
  assumes "\<And>parsed. keeps session.more (preview_factory parsed)"
    and run: "process_preview_job settings tf parser preview_factory started finished later left job_text s = (r, t)"
  shows "locks_held t = locks_held s \<or> locks_held t = []"
proof (cases "uuid_of_text job_text")
  case None
  then show ?thesis using run by (simp add: process_preview_job_def)
next
  case (Some job_id)
  let ?s = "snd (db_rollback s)"
  let ?timeout = "microseconds (preview_job_lock_wait_seconds settings)"
  let ?body = "act_catch (act_bind (run_preview_job tf parser preview_factory started finished job_id
      (running_retry_allowed settings left)) (\<lambda>_. act_skip)) (worker_error later job_id)"
  have start: "locks_held ?s = locks_held s"
    by (simp add: db_rollback_def)
  have err: "keeps session.more (worker_error later job_id e)" for e
    by (rule keeps_handlers(4))
  have body: "keeps session.more ?body"
    by (intro keeps_intros keeps_run_preview_job assms(1))
  obtain q u where a: "acquire_preview_job_lock ?timeout job_id ?s = (q, u)" by (meson surj_pair)
  have held: "locks_held u = (if q = Inr True then with_own_lock job_id (is_postgresql u) (locks_held s) else locks_held s)"
    using acquire_held[OF a[unfolded acquire_preview_job_lock_def]] start by simp
  have step: "act_try (acquire_preview_job_lock ?timeout job_id)
      (\<lambda>acquired. if \<not> acquired then act_skip
         else act_finally ?body (release_after_rollback job_id)) (worker_error later job_id) ?s = (r, t)"
    using run unfolding process_preview_job_def process_acquired_def Some option.case
    by (simp add: act_then_def act_bind_def db_rollback_def)
  consider (error) e where "q = Inl e" | (denied) "q = Inr False" | (acquired) "q = Inr True"
    by (cases q) auto
  then show ?thesis
  proof cases
    case (error e)
    then have "worker_error later job_id e u = (r, t)"
      using step a by (simp add: act_try_def)
    from keeps_run[OF keeps_more_environment(2)[OF err] this] show ?thesis
      using held error by simp
  next
    case denied
    then show ?thesis using step a held by (simp add: act_try_def)
  next
    case acquired
    then have "act_finally ?body (release_after_rollback job_id) u = (r, t)"
      using step a by (simp add: act_try_def)
    from locked_section_held[OF keeps_more_environment(2)[OF body] keeps_more_environment(1)[OF body] this]
    show ?thesis using held acquired by simp
  qed
qed

end
