(* ===== verification/Preview_Reconciliation.thy ===== *)
theory Preview_Reconciliation
  imports Preview_Queue Preview_Worker_Runs
begin

text \<open>
  The reconciliation of the table with the queue (\<open>app/services/preview_reconciliation.py\<close>): one
  bounded batch of unfinished jobs is compared with the jobs RQ still holds; forgotten jobs are
  queued again or given up. The queue and the lock operations are parameters, as in the code. After
  the rollback of one candidate the objects of the others are reloaded when they are next read.
\<close>

record reconciliation_summary =
  rs_scanned :: nat
  rs_active :: nat
  rs_recovered :: nat
  rs_failed :: nat
  rs_locked :: nat
  rs_not_stale :: nat
  rs_state_changed :: nat

record reconciliation =
  rc_active_ids :: "uuid list"
  rc_summary :: reconciliation_summary
  rc_expired :: bool

record 's recovery_port =
  port_active_ids :: "int \<Rightarrow> ('s, uuid list) action"
  port_enqueue :: "'s enqueue"
  port_acquire :: "uuid \<Rightarrow> ('s, bool) action"
  port_release :: "uuid \<Rightarrow> ('s, unit) action"

definition default_port ::
    "(int \<Rightarrow> ('z preview_session_scheme, uuid list) action) \<Rightarrow> ('z preview_session_scheme) enqueue \<Rightarrow>
     ('z preview_session_scheme) recovery_port" where
  \<comment> \<open>a queue with the default lock operations\<close>
  "default_port active_ids enqueue_job =
     \<lparr>port_active_ids = active_ids, port_enqueue = enqueue_job,
      port_acquire = try_acquire_preview_job_lock, port_release = release_preview_job_lock\<rparr>"

record recovery_limits =
  rl_max_retries :: int
  rl_stale_after_seconds :: int
  rl_batch_size :: nat
  rl_registry_scan_limit :: int

definition RECOVERY_FAILURE_MESSAGE :: string where
  "RECOVERY_FAILURE_MESSAGE = ''Unable to recover the strategy preview. Run the preview again.''"

definition is_stale :: "timestamp \<Rightarrow> timestamp option \<Rightarrow> int \<Rightarrow> bool" where
  "is_stale now started stale_after_seconds \<longleftrightarrow>
     (case started of None \<Rightarrow> True | Some t \<Rightarrow> stale_after_seconds * 1000000 \<le> now - t)"

definition exhausted :: "recovery_limits \<Rightarrow> preview_job \<Rightarrow> bool" where
  "exhausted limits j \<longleftrightarrow> rl_max_retries limits + 1 \<le> pj_attempt_count j"

definition expired :: "timestamp \<Rightarrow> preview_job \<Rightarrow> bool" where
  "expired now j \<longleftrightarrow> pj_expires_at j \<le> now"

definition stale :: "recovery_limits \<Rightarrow> timestamp \<Rightarrow> preview_job \<Rightarrow> bool" where
  "stale limits now j \<longleftrightarrow> pj_status j = RUNNING \<and> is_stale now (pj_started_at j) (rl_stale_after_seconds limits)"

definition reload :: "uuid \<Rightarrow> (preview_job, 'z, preview_job) db" where
  \<comment> \<open>\<open>session.refresh(job)\<close>\<close>
  "reload job_id =
     act_bind (db_execute (find_job job_id)) (\<lambda>r. case r of None \<Rightarrow> act_raise DatabaseFault | Some j \<Rightarrow> act_return j)"

abbreviation count_active where
  "count_active rc \<equiv> rc\<lparr>rc_summary := (rc_summary rc)\<lparr>rs_active := rs_active (rc_summary rc) + 1\<rparr>\<rparr>"

abbreviation count_recovered where
  "count_recovered rc \<equiv> rc\<lparr>rc_summary := (rc_summary rc)\<lparr>rs_recovered := rs_recovered (rc_summary rc) + 1\<rparr>\<rparr>"

abbreviation count_failed where
  "count_failed rc \<equiv> rc\<lparr>rc_summary := (rc_summary rc)\<lparr>rs_failed := rs_failed (rc_summary rc) + 1\<rparr>\<rparr>"

abbreviation count_locked where
  "count_locked rc \<equiv> rc\<lparr>rc_summary := (rc_summary rc)\<lparr>rs_locked := rs_locked (rc_summary rc) + 1\<rparr>\<rparr>"

abbreviation count_not_stale where
  "count_not_stale rc \<equiv> rc\<lparr>rc_summary := (rc_summary rc)\<lparr>rs_not_stale := rs_not_stale (rc_summary rc) + 1\<rparr>\<rparr>"

abbreviation count_state_changed where
  "count_state_changed rc \<equiv>
     rc\<lparr>rc_summary := (rc_summary rc)\<lparr>rs_state_changed := rs_state_changed (rc_summary rc) + 1\<rparr>\<rparr>"

definition give_up ::
    "timestamp \<Rightarrow> preview_job \<Rightarrow> reconciliation \<Rightarrow> (preview_job, 'z, reconciliation) db" where
  "give_up now j rc =
     act_bind (transition_job_after_operational_failure now (pj_id j) False RECOVERY_FAILURE_MESSAGE)
       (\<lambda>changed. act_return (if changed then count_failed rc else rc))"

definition requeue ::
    "('z preview_session_scheme) recovery_port \<Rightarrow> recovery_limits \<Rightarrow> timestamp \<Rightarrow> preview_job \<Rightarrow> reconciliation \<Rightarrow>
     ('z preview_session_scheme, reconciliation) action" where
  \<comment> \<open>a stale running job goes back to the queued state before RQ gets it\<close>
  "requeue port limits now j rc =
     act_bind
       (if pj_status j = RUNNING
        then act_bind (transition_job_after_operational_failure now (pj_id j) True FINAL_ERROR) (\<lambda>_. reload (pj_id j))
        else act_return j) (\<lambda>k.
     act_then (port_enqueue port (pj_id k) (pj_user_id k) (pj_strategy_text k) (pj_strategy_name k)
                 (Some (rl_max_retries limits - pj_attempt_count k)))
       (act_return (count_recovered (rc\<lparr>rc_active_ids := pj_id k # rc_active_ids rc\<rparr>))))"

definition reconcile_locked ::
    "('z preview_session_scheme) recovery_port \<Rightarrow> recovery_limits \<Rightarrow> timestamp \<Rightarrow> uuid \<Rightarrow> reconciliation \<Rightarrow>
     ('z preview_session_scheme, reconciliation) action" where
  \<comment> \<open>the body of the \<open>try\<close> block, under the lock\<close>
  "reconcile_locked port limits now job_id rc =
     act_bind (reload job_id) (\<lambda>j.
     if \<not> active_status (pj_status j) then act_return (count_state_changed rc)
     else act_bind (port_active_ids port (rl_registry_scan_limit limits)) (\<lambda>ids.
       let rc1 = rc\<lparr>rc_active_ids := ids\<rparr> in
       if pj_id j \<in> set ids then act_return (count_active rc1)
       else if exhausted limits j \<or> expired now j then give_up now j rc1
       else if pj_status j = RUNNING \<and> \<not> stale limits now j then act_return (count_not_stale rc1)
       else requeue port limits now j rc1))"

definition release_or_raise ::
    "('z preview_session_scheme) recovery_port \<Rightarrow> uuid \<Rightarrow> ('z preview_session_scheme, unit) action" where
  \<comment> \<open>the \<open>finally\<close> block; \<open>job.id\<close> is reloaded after the rollback\<close>
  "release_or_raise port job_id =
     act_catch
       (act_then db_rollback (act_bind (reload job_id) (\<lambda>j. port_release port (pj_id j))))
       (\<lambda>e. act_then session_invalidate (act_raise e))"

definition reconcile_candidate ::
    "('z preview_session_scheme) recovery_port \<Rightarrow> recovery_limits \<Rightarrow> timestamp \<Rightarrow> preview_job \<Rightarrow> reconciliation \<Rightarrow>
     ('z preview_session_scheme, reconciliation) action" where
  "reconcile_candidate port limits now candidate rc =
     act_bind (if rc_expired rc then reload (pj_id candidate) else act_return candidate) (\<lambda>j.
     if pj_id j \<in> set (rc_active_ids rc) then act_return (count_active rc)
     else if pj_status j = RUNNING \<and> \<not> stale limits now j \<and> \<not> exhausted limits j \<and> \<not> expired now j
     then act_return (count_not_stale rc)
     else act_bind (port_acquire port (pj_id j)) (\<lambda>acquired.
       if \<not> acquired then act_return (count_locked rc)
       else act_bind
              (act_finally (reconcile_locked port limits now (pj_id j) rc) (release_or_raise port (pj_id j)))
              (\<lambda>rc'. act_return (rc'\<lparr>rc_expired := True\<rparr>))))"

primrec reconcile_candidates ::
    "('z preview_session_scheme) recovery_port \<Rightarrow> recovery_limits \<Rightarrow> timestamp \<Rightarrow> preview_job list \<Rightarrow> reconciliation \<Rightarrow>
     ('z preview_session_scheme, reconciliation) action" where
  "reconcile_candidates port limits now [] rc = act_return rc"
| "reconcile_candidates port limits now (j # js) rc =
     act_bind (reconcile_candidate port limits now j rc) (reconcile_candidates port limits now js)"

definition reconcile_preview_jobs ::
    "('z preview_session_scheme) recovery_port \<Rightarrow> recovery_limits \<Rightarrow> timestamp \<Rightarrow>
     ('z preview_session_scheme, reconciliation_summary) action" where
  "reconcile_preview_jobs port limits now =
     act_bind (port_active_ids port (rl_registry_scan_limit limits)) (\<lambda>ids.
     act_bind (list_reconciliation_candidates (rl_batch_size limits)) (\<lambda>candidates.
     act_bind (reconcile_candidates port limits now candidates
        \<lparr>rc_active_ids = ids,
         rc_summary = \<lparr>rs_scanned = length candidates, rs_active = 0, rs_recovered = 0, rs_failed = 0, rs_locked = 0,
                       rs_not_stale = 0, rs_state_changed = 0\<rparr>,
         rc_expired = False\<rparr>) (\<lambda>rc. act_return (rc_summary rc))))"

end
