(* ===== verification/Reconciliation_Runs.thy ===== *)
theory Reconciliation_Runs
  imports Preview_Reconciliation
begin

text \<open>
  What one reconciliation does to the table and to its counters. The lock operations are an
  interface with two laws, provided by the advisory locks of \<open>app/services/job_store.py\<close>; the queue
  is outside the database, so its operations keep the table too. Every triple speaks about all
  faults of the database.
\<close>

subsection \<open>The interface of the locks\<close>

definition quiet :: "('z preview_session_scheme) recovery_port \<Rightarrow> bool" where
  \<comment> \<open>neither the queue nor the locks change the table\<close>
  "quiet port \<longleftrightarrow>
     (\<forall>n. keeps table_rows (port_active_ids port n)) \<and>
     (\<forall>a b c d e. keeps table_rows (port_enqueue port a b c d e)) \<and>
     (\<forall>u. keeps table_rows (port_acquire port u)) \<and> (\<forall>u. keeps table_rows (port_release port u))"

locale preview_lock =
  fixes acquire :: "uuid \<Rightarrow> ('z preview_session_scheme, bool) action"
    and release :: "uuid \<Rightarrow> ('z preview_session_scheme, unit) action"
  assumes acquire_rows: "keeps table_rows (acquire job_id)"
    and release_rows: "keeps table_rows (release job_id)"
begin

lemma quiet_port:
  assumes "\<And>n. keeps table_rows (active_ids n)" "\<And>a b c d e. keeps table_rows (enqueue_job a b c d e)"
  shows "quiet \<lparr>port_active_ids = active_ids, port_enqueue = enqueue_job, port_acquire = acquire, port_release = release\<rparr>"
  using assms acquire_rows release_rows by (simp add: quiet_def)

end

lemma keeps_rows_execute [keeps_intros]: "keeps table_rows (db_execute f)"
  by (rule keepsI, drule db_execute_cases) blast

lemma keeps_rows_session [keeps_intros]: "keeps table_rows db_rollback" "keeps table_rows session_invalidate"
  by (simp_all add: keeps_def db_rollback_def session_invalidate_def)

interpretation advisory: preview_lock try_acquire_preview_job_lock release_preview_job_lock
proof unfold_locales
  show "keeps table_rows (try_acquire_preview_job_lock job_id)" for job_id
    by (rule keepsI, drule try_acquire_cases) blast
  show "keeps table_rows (release_preview_job_lock job_id)" for job_id
  proof (rule keepsI)
    fix s t :: "'z preview_session_scheme" and r
    assume run: "release_preview_job_lock job_id s = (r, t)"
    obtain q u where e: "db_execute (\<lambda>_. ()) s = (q, u)" by (meson surj_pair)
    show "table_rows t = table_rows s"
      using run keeps_run[OF keeps_rows_execute e] e
      by (auto simp: release_preview_job_lock_def act_bind_def split: if_splits sum.splits)
  qed
qed

lemma triple_keeps_obs:
  "keeps obs m \<Longrightarrow> triple (\<lambda>s. K (obs s)) m (\<lambda>_ s. K (obs s)) (\<lambda>_ s. K (obs s))"
  by (rule tripleI; drule (1) keeps_run; simp)


subsection \<open>The steps of a reconciliation\<close>

abbreviation grown :: "preview_job list \<Rightarrow> (preview_job, 'z) session_scheme \<Rightarrow> bool" where
  "grown rows0 \<equiv> evolved rows0 UNIV False"

lemma grown_rows: "grown rows0 s \<longleftrightarrow> store_ok rows0 \<and> rows_evolve UNIV rows0 (table_rows s)"
  by (simp add: evolved_def)

lemma crashed_grown: "crashed rows0 ids h e s \<Longrightarrow> evolved rows0 ids False s"
  by (simp add: crashed_def)

lemma triple_quiet:
  assumes "keeps table_rows m"
  shows "triple (\<lambda>s. grown rows0 s \<and> row_at job_id R s) m (\<lambda>_ s. grown rows0 s \<and> row_at job_id R s) (\<lambda>_. grown rows0)"
    and "triple (grown rows0) m (\<lambda>_. grown rows0) (\<lambda>_. grown rows0)"
  by (rule tripleI; drule keeps_run[OF assms]; simp add: grown_rows row_at_def)+

lemma triple_refresh:
  "triple (grown rows0) (reload job_id)
     (\<lambda>j s. pj_id j = job_id \<and> grown rows0 s \<and> row_at job_id ((=) j) s) (\<lambda>_. grown rows0)"
  unfolding reload_def
proof (rule triple_bind)
  show "triple (grown rows0) (db_execute (find_job job_id))
     (\<lambda>r s. grown rows0 s \<and> r = find_job job_id (table_rows s)) (\<lambda>_. grown rows0)"
    by (rule triple_weaken[OF triple_reload]) (auto dest: crashed_grown)
  show "triple (\<lambda>s. grown rows0 s \<and> r = find_job job_id (table_rows s))
     (case r of None \<Rightarrow> act_raise DatabaseFault | Some j \<Rightarrow> act_return j)
     (\<lambda>j s. pj_id j = job_id \<and> grown rows0 s \<and> row_at job_id ((=) j) s) (\<lambda>_. grown rows0)" for r
    by (auto simp: triple_def row_at_def split: option.splits dest: find_job_SomeD)
qed

lemma triple_transition_exact:
  assumes "pj_id j = job_id" "active_status (pj_status j)"
  shows "triple (\<lambda>s. grown rows0 s \<and> row_at job_id ((=) j) s)
     (transition_job_after_operational_failure now job_id will_retry error)
     (\<lambda>changed s. changed \<and> grown rows0 s \<and> row_at job_id ((=) (operational_values now will_retry error j)) s)
     (\<lambda>_. grown rows0)"
    (is "triple ?I _ ?Q ?E")
proof -
  let ?P = "\<lambda>k. pj_id k = job_id \<and> active_status (pj_status k)"
  let ?f = "operational_values now will_retry error"
  let ?J = "\<lambda>s. grown rows0 s \<and> row_at job_id ((=) (?f j)) s"
  have "triple ?I (db_update ?P ?f) (\<lambda>n s. n = 1 \<and> ?J s) (crashed rows0 UNIV False)"
  proof (rule triple_db_update, goal_cases)
    case (1 s k)
    then show ?case by (auto intro: operational_step)
  next
    case (3 s t)
    then have j: "find_job job_id (table_rows s) = Some j"
      by (auto simp: row_at_def)
    have d: "distinct (map pj_id (table_rows s))"
      using evolved_store_ok 3(1) by (auto simp: store_ok_def)
    have "find_job job_id (table_rows t) = Some (?f j)"
      unfolding 3(3) by (subst find_job_update) (use j assms in \<open>auto simp: operational_values_def\<close>)
    then show ?case
      using length_filter_id[OF d, of job_id "\<lambda>k. active_status (pj_status k)"] j assms 3(2)
      by (simp add: row_at_def)
  qed auto
  then have update: "triple ?I (db_update ?P ?f) (\<lambda>n s. n = 1 \<and> ?J s) ?E"
    by (rule triple_weaken) (auto dest: crashed_grown)
  have "triple ?J (db_execute (find_job job_id)) (\<lambda>_. ?J) ?E"
    by (rule triple_weaken[OF triple_reload[where I = ?J and Q = "\<lambda>_. ?J"]])
       (auto simp: row_at_def dest: crashed_grown)
  then have "triple ?J (act_bind (db_execute (find_job job_id)) (\<lambda>_. act_return True)) ?Q ?E"
    by (rule triple_bind) (simp add: triple_def)
  then have "triple (\<lambda>s. n = 1 \<and> ?J s) (if n = 1 then act_bind (db_execute (find_job job_id)) (\<lambda>_. act_return True)
      else act_return False) ?Q ?E" for n :: nat
    by (cases "n = 1") (simp_all add: triple_def)
  then show ?thesis
    unfolding transition_job_after_operational_failure_def by (rule triple_bind[OF update])
qed

definition counted :: "reconciliation \<Rightarrow> nat" where
  "counted rc =
     (let c = rc_summary rc in rs_active c + rs_recovered c + rs_failed c + rs_locked c + rs_not_stale c + rs_state_changed c)"

definition tallied :: "nat \<Rightarrow> nat \<Rightarrow> reconciliation \<Rightarrow> bool" where
  "tallied scanned n rc \<longleftrightarrow> rs_scanned (rc_summary rc) = scanned \<and> counted rc = n"

lemmas tally = tallied_def counted_def Let_def

lemma triple_give_up:
  assumes "pj_id j = job_id" "active_status (pj_status j)" "tallied k n rc"
  shows "triple (\<lambda>s. grown rows0 s \<and> row_at job_id ((=) j) s) (give_up now j rc)
     (\<lambda>rc' s. tallied k (Suc n) rc' \<and> grown rows0 s) (\<lambda>_. grown rows0)"
  unfolding give_up_def assms(1)
  by (rule triple_bind[OF triple_transition_exact[OF assms(1,2)]]) (use assms(3) in \<open>auto simp: triple_def tally\<close>)

definition requeued :: "timestamp \<Rightarrow> preview_job \<Rightarrow> preview_job" where
  "requeued now j = (if pj_status j = RUNNING then operational_values now True FINAL_ERROR j else j)"

lemma triple_requeue_first:
  assumes "pj_id j = job_id" "active_status (pj_status j)"
  shows "triple (\<lambda>s. grown rows0 s \<and> row_at job_id ((=) j) s)
     (if pj_status j = RUNNING
      then act_bind (transition_job_after_operational_failure now (pj_id j) True FINAL_ERROR) (\<lambda>_. reload (pj_id j))
      else act_return j)
     (\<lambda>k s. k = requeued now j \<and> grown rows0 s \<and> row_at job_id ((=) k) s) (\<lambda>_. grown rows0)"
proof (rule triple_cases)
  show "triple (\<lambda>s. grown rows0 s \<and> row_at job_id ((=) j) s) (act_return j)
     (\<lambda>k s. k = requeued now j \<and> grown rows0 s \<and> row_at job_id ((=) k) s) (\<lambda>_. grown rows0)"
    if "pj_status j \<noteq> RUNNING"
    using that by (simp add: triple_def requeued_def)
  let ?J = "\<lambda>s. grown rows0 s \<and> row_at job_id ((=) (requeued now j)) s"
  have refresh: "triple ?J (reload job_id)
     (\<lambda>k s. k = requeued now j \<and> grown rows0 s \<and> row_at job_id ((=) k) s) (\<lambda>_. grown rows0)"
  proof -
    have reload: "triple ?J (db_execute (find_job job_id)) (\<lambda>r s. r = Some (requeued now j) \<and> ?J s) (\<lambda>_. grown rows0)"
      by (rule triple_weaken[OF triple_reload[where I = ?J and Q = "\<lambda>r s. r = Some (requeued now j) \<and> ?J s"]])
         (auto simp: row_at_def dest: crashed_grown)
    show ?thesis
      unfolding reload_def by (rule triple_bind[OF reload]) (auto simp: triple_def)
  qed
  show "triple (\<lambda>s. grown rows0 s \<and> row_at job_id ((=) j) s)
     (act_bind (transition_job_after_operational_failure now (pj_id j) True FINAL_ERROR) (\<lambda>_. reload (pj_id j)))
     (\<lambda>k s. k = requeued now j \<and> grown rows0 s \<and> row_at job_id ((=) k) s) (\<lambda>_. grown rows0)"
    if "pj_status j = RUNNING"
    unfolding assms(1)
    by (rule triple_bind[OF triple_transition_exact[OF assms]], rule triple_strengthen[OF refresh])
       (use that in \<open>simp add: requeued_def\<close>)
qed

lemma triple_requeue:
  assumes "quiet port" "pj_id j = job_id" "active_status (pj_status j)" "tallied k n rc"
  shows "triple (\<lambda>s. grown rows0 s \<and> row_at job_id ((=) j) s) (requeue port limits now j rc)
     (\<lambda>rc' s. tallied k (Suc n) rc' \<and> grown rows0 s) (\<lambda>_. grown rows0)"
  unfolding requeue_def
proof (rule triple_bind[OF triple_requeue_first[OF assms(2,3)]])
  fix q
  have enqueue: "keeps table_rows (port_enqueue port a b c d e)" for a b c d e
    using assms(1) by (simp add: quiet_def)
  show "triple (\<lambda>s. q = requeued now j \<and> grown rows0 s \<and> row_at job_id ((=) q) s)
     (act_then (port_enqueue port (pj_id q) (pj_user_id q) (pj_strategy_text q) (pj_strategy_name q)
         (Some (rl_max_retries limits - pj_attempt_count q)))
       (act_return (count_recovered (rc\<lparr>rc_active_ids := pj_id q # rc_active_ids rc\<rparr>))))
     (\<lambda>rc' s. tallied k (Suc n) rc' \<and> grown rows0 s) (\<lambda>_. grown rows0)"
    by (rule triple_strengthen[OF triple_then[OF triple_quiet(2)[OF enqueue]]])
       (use assms(4) in \<open>auto simp: triple_def tally\<close>)
qed

lemma quiet_keeps:
  assumes "quiet port"
  shows "keeps table_rows (port_active_ids port n)" "keeps table_rows (port_acquire port u)"
    "keeps table_rows (port_release port u)"
  using assms by (simp_all add: quiet_def)

lemma triple_reconcile_locked:
  assumes "quiet port" "tallied k n rc"
  shows "triple (grown rows0) (reconcile_locked port limits now job_id rc)
     (\<lambda>rc' s. tallied k (Suc n) rc' \<and> grown rows0 s) (\<lambda>_. grown rows0)"
    (is "triple _ _ ?Q ?E")
  unfolding reconcile_locked_def
proof (rule triple_bind[OF triple_refresh], rule triple_cases)
  fix j :: preview_job
  let ?I = "\<lambda>s. pj_id j = job_id \<and> grown rows0 s \<and> row_at job_id ((=) j) s"
  show "triple ?I (act_return (count_state_changed rc)) ?Q ?E"
    using assms(2) by (auto simp: triple_def tally)
  let ?found = "\<lambda>ids. let rc1 = rc\<lparr>rc_active_ids := ids\<rparr> in
       if pj_id j \<in> set ids then act_return (count_active rc1)
       else if exhausted limits j \<or> expired now j then give_up now j rc1
       else if pj_status j = RUNNING \<and> \<not> stale limits now j then act_return (count_not_stale rc1)
       else requeue port limits now j rc1"
  assume "\<not> \<not> active_status (pj_status j)"
  then have active: "active_status (pj_status j)" by simp
  have counted: "tallied k n (rc\<lparr>rc_active_ids := ids\<rparr>)" for ids
    using assms(2) by (simp add: tally)
  have found: "triple (\<lambda>s. grown rows0 s \<and> row_at job_id ((=) j) s) (?found ids) ?Q ?E" if "pj_id j = job_id" for ids
    unfolding Let_def
    by (intro triple_cases triple_give_up[OF that active counted] triple_requeue[OF assms(1) that active counted])
       (use counted in \<open>auto simp: triple_def tally\<close>)
  show "triple ?I (act_bind (port_active_ids port (rl_registry_scan_limit limits)) ?found) ?Q ?E"
  proof (cases "pj_id j = job_id")
    case True
    show ?thesis
      by (rule triple_strengthen[OF triple_bind[OF triple_quiet(1)[OF quiet_keeps(1)[OF assms(1)]] found[OF True]]]) auto
  qed (simp add: triple_def)
qed

lemma triple_release_or_raise:
  assumes "quiet port"
  shows "triple (grown rows0) (release_or_raise port job_id) (\<lambda>_. grown rows0) (\<lambda>_. grown rows0)"
proof -
  note steps = triple_quiet(2)[OF keeps_rows_session(1)] triple_quiet(2)[OF keeps_rows_session(2)]
    triple_quiet(2)[OF quiet_keeps(3)[OF assms]]
  have refresh: "triple (grown rows0) (reload job_id) (\<lambda>_. grown rows0) (\<lambda>_. grown rows0)"
    by (rule triple_weaken[OF triple_refresh]) auto
  show ?thesis
    unfolding release_or_raise_def
    by (rule triple_catch[OF triple_then[OF steps(1) triple_bind[OF refresh steps(3)]] triple_then[OF steps(2)]])
       (simp add: triple_def)
qed

lemma triple_reconcile_candidate:
  assumes "quiet port" "tallied k n rc"
  shows "triple (grown rows0) (reconcile_candidate port limits now candidate rc)
     (\<lambda>rc' s. tallied k (Suc n) rc' \<and> grown rows0 s) (\<lambda>_. grown rows0)"
    (is "triple _ _ ?Q ?E")
proof -
  have start: "triple (grown rows0) (if rc_expired rc then reload (pj_id candidate) else act_return candidate)
      (\<lambda>_. grown rows0) ?E"
    by (intro triple_cases triple_weaken[OF triple_refresh]) (auto simp: triple_def)
  have locked: "triple (grown rows0)
      (act_finally (reconcile_locked port limits now u rc) (release_or_raise port u)) ?Q ?E" for u
  proof (rule triple_finally[OF triple_reconcile_locked[OF assms]])
    show "triple (\<lambda>s. tallied k (Suc n) a \<and> grown rows0 s) (release_or_raise port u) (\<lambda>_. ?Q a) ?E" for a
      by (cases "tallied k (Suc n) a") (use triple_release_or_raise[OF assms(1)] in \<open>auto simp: triple_def\<close>)
  qed (rule triple_release_or_raise[OF assms(1)])
  have body: "triple (grown rows0)
      (act_bind (act_finally (reconcile_locked port limits now u rc) (release_or_raise port u))
        (\<lambda>rc'. act_return (rc'\<lparr>rc_expired := True\<rparr>))) ?Q ?E" for u
    by (rule triple_bind[OF locked]) (auto simp: triple_def tally)
  show ?thesis
    unfolding reconcile_candidate_def
    by (intro triple_bind[OF start] triple_cases triple_bind[OF triple_quiet(2)[OF quiet_keeps(2)[OF assms(1)]]] body)
       (use assms(2) in \<open>auto simp: triple_def tally\<close>)
qed

lemma triple_reconcile_candidates:
  assumes "quiet port" "tallied k n rc"
  shows "triple (grown rows0) (reconcile_candidates port limits now js rc)
     (\<lambda>rc' s. tallied k (n + length js) rc' \<and> grown rows0 s) (\<lambda>_. grown rows0)"
  using assms(2)
proof (induction js arbitrary: n rc)
  case Nil
  then show ?case by (simp add: triple_def)
next
  case (Cons j js)
  have "triple (\<lambda>s. tallied k (Suc n) rc1 \<and> grown rows0 s) (reconcile_candidates port limits now js rc1)
     (\<lambda>rc' s. tallied k (n + length (j # js)) rc' \<and> grown rows0 s) (\<lambda>_. grown rows0)" for rc1
    using Cons.IH[of "Suc n" rc1] by (cases "tallied k (Suc n) rc1") (simp_all add: triple_def)
  then show ?case
    by (simp add: triple_bind[OF triple_reconcile_candidate[OF assms(1) Cons.prems]])
qed

definition candidate_rows :: "nat \<Rightarrow> preview_job list \<Rightarrow> preview_job list" where
  "candidate_rows n rows =
     take n (sort_key (\<lambda>j. (pj_created_at j, uint (pj_id j))) (filter (\<lambda>j. active_status (pj_status j)) rows))"

lemma triple_reconcile:
  assumes "quiet port"
  shows "triple (\<lambda>s. grown rows0 s \<and> table_rows s = rows0) (reconcile_preview_jobs port limits now)
     (\<lambda>c s. grown rows0 s \<and> rs_scanned c = length (candidate_rows (rl_batch_size limits) rows0) \<and>
        rs_scanned c = rs_active c + rs_recovered c + rs_failed c + rs_locked c + rs_not_stale c + rs_state_changed c)
     (\<lambda>_. grown rows0)"
    (is "triple ?I _ ?Q ?E")
proof -
  let ?all = "candidate_rows (rl_batch_size limits)"
  have ids: "triple ?I (port_active_ids port n) (\<lambda>_. ?I) ?E" for n
    by (rule tripleI; drule keeps_run[OF quiet_keeps(1)[OF assms]]; simp add: grown_rows)
  have candidates: "triple ?I (list_reconciliation_candidates (rl_batch_size limits))
      (\<lambda>js s. js = ?all rows0 \<and> grown rows0 s) ?E"
    unfolding list_reconciliation_candidates_def
    by (rule triple_db_execute) (auto simp: candidate_rows_def grown_rows)
  let ?start = "\<lambda>ids js. \<lparr>rc_active_ids = ids,
         rc_summary = \<lparr>rs_scanned = length js, rs_active = 0, rs_recovered = 0, rs_failed = 0, rs_locked = 0,
                       rs_not_stale = 0, rs_state_changed = 0\<rparr>,
         rc_expired = False\<rparr>"
  have "tallied (length js) 0 (?start ids js)" for ids js
    by (simp add: tally)
  note loop = triple_reconcile_candidates[OF assms this]
  have finish: "triple (\<lambda>s. js = ?all rows0 \<and> grown rows0 s)
      (act_bind (reconcile_candidates port limits now js (?start ids js)) (\<lambda>rc. act_return (rc_summary rc))) ?Q ?E" for ids js
  proof (cases "js = ?all rows0")
    case True
    show ?thesis
      by (rule triple_strengthen[OF triple_bind[OF loop]]) (auto simp: triple_def tally True)
  qed (simp add: triple_def)
  show ?thesis
    unfolding reconcile_preview_jobs_def by (intro triple_bind[OF ids] triple_bind[OF candidates] finish)
qed

end
