(* ===== verification/Preview_Properties.thy ===== *)
theory Preview_Properties
  imports Strategy_Preview
begin

text \<open>
  Properties of the whole preview pipeline, from the stored rows to the served document: it can
  always be serialized, it fails only in the documented ways, and it has no look-ahead.
\<close>

lemma starting_cash [simp]: "0 < STARTING_CASH" "representable STARTING_CASH"
proof -
  show "0 < STARTING_CASH"
    by (simp add: STARTING_CASH_def)
  have "on_grid 8 STARTING_CASH"
    using on_grid_of_int[of 8 10000] by (simp add: STARTING_CASH_def)
  then show "representable STARTING_CASH"
    by (rule on_grid_representable) (simp add: STARTING_CASH_def)
qed

lemma eligible_nonneg: "0 \<le> first_signal_eligible_index s bars"
  by (simp add: first_signal_eligible_index_def)

lemma preview_Inr:
  assumes "preview_of_rows tf dpow rows p = Inr pv"
  obtains bars sigs curve where
    "bars = stored_bars rows (spec_symbol (pr_specification p)) (spec_interval (pr_specification p))"
    "compile_strategy (pr_specification p) = Inr (pr_specification p)"
    "pv_comparison_start_index pv = first_signal_eligible_index (pr_specification p) bars"
    "bars \<noteq> []" "pv_comparison_start_index pv < int (length bars)"
    "generate_signals (pr_specification p) bars = Inr sigs"
    "execute_long_only_signals bars sigs STARTING_CASH (spec_stop_loss_percent (pr_specification p))
       (spec_take_profit_percent (pr_specification p)) = Inr (pv_execution pv)"
    "calculate_metrics dpow bars (er_equity_curve (pv_execution pv)) (er_completed_trades (pv_execution pv))
       STARTING_CASH (final_portfolio_value (pv_execution pv)) (pv_comparison_start_index pv) = Inr (pv_metrics pv)"
    "calculate_buy_and_hold_equity_curve bars STARTING_CASH (pv_comparison_start_index pv) = Inr curve"
    "pv_buy_and_hold_equity_curve pv = curve[0 := \<lparr>ep_timestamp =
       bar_timestamp (bars ! nat (pv_comparison_start_index pv)), equity = STARTING_CASH\<rparr>]"
    "pv_bars pv = bars"
proof -
  let ?bars = "stored_bars rows (spec_symbol (pr_specification p)) (spec_interval (pr_specification p))"
  obtain sigs ex m curve where
    c: "compile_strategy (pr_specification p) = Inr (pr_specification p)"
    and g: "?bars \<noteq> [] \<and> first_signal_eligible_index (pr_specification p) ?bars < int (length ?bars)"
    and r: "generate_signals (pr_specification p) ?bars = Inr sigs"
      "execute_long_only_signals ?bars sigs STARTING_CASH (spec_stop_loss_percent (pr_specification p))
         (spec_take_profit_percent (pr_specification p)) = Inr ex"
      "calculate_metrics dpow ?bars (er_equity_curve ex) (er_completed_trades ex) STARTING_CASH
         (final_portfolio_value ex) (first_signal_eligible_index (pr_specification p) ?bars) = Inr m"
      "calculate_buy_and_hold_equity_curve ?bars STARTING_CASH
         (first_signal_eligible_index (pr_specification p) ?bars) = Inr curve"
    and pv: "pv_execution pv = ex" "pv_metrics pv = m" "pv_bars pv = ?bars"
      "pv_comparison_start_index pv = first_signal_eligible_index (pr_specification p) ?bars"
      "pv_buy_and_hold_equity_curve pv = curve[0 := \<lparr>ep_timestamp = bar_timestamp
         (?bars ! nat (first_signal_eligible_index (pr_specification p) ?bars)), equity = STARTING_CASH\<rparr>]"
    using assms unfolding preview_of_rows_def specification_preview_def preview_of_bars_def Let_def
      res_bind_Inr_iff compile_Inr_iff raise_if_Inr_iff by fastforce
  show thesis
    using that[of ?bars sigs curve] c g r pv by simp
qed

lemma map_list_update_same: "i < length xs \<Longrightarrow> f x = f (xs ! i) \<Longrightarrow> map f (xs[i := x]) = map f xs"
  by (metis list_update_id map_update)

text \<open>A small market: four yearly bars, and the classic crossover with windows one and two.\<close>

definition market_rows :: "market_data_row list" where
  "market_rows =
     [sample_row ''SPY'' 0 100, sample_row ''SPY'' 31557600000000 80,
      sample_row ''SPY'' 63115200000000 100, sample_row ''SPY'' 94672800000000 125]"

definition market_parsed :: parsed_strategy_result where
  "market_parsed =
     \<lparr>pr_specification = sma_crossover_spec 1 2, pr_assumptions = [], pr_defaults_applied = [],
      pr_requires_confirmation = False, pr_original_text = ''cross''\<rparr>"

definition plain_format :: text_format where
  "plain_format = \<lparr>tf_str_decimal = (\<lambda>_. ''0''), tf_general = (\<lambda>_. ''0''), tf_isoformat = string_of_int\<rparr>"

definition the_preview :: "market_data_row list \<Rightarrow> strategy_preview" where
  "the_preview rows = (case preview_of_rows plain_format whole_power rows market_parsed of Inr pv \<Rightarrow> pv)"

definition previewed :: "market_data_row list \<Rightarrow> bool" where
  "previewed rows = (case preview_of_rows plain_format whole_power rows market_parsed of Inr _ \<Rightarrow> True | Inl _ \<Rightarrow> False)"

lemma the_preview: "previewed rows \<Longrightarrow> preview_of_rows plain_format whole_power rows market_parsed = Inr (the_preview rows)"
  by (auto simp: previewed_def the_preview_def split: sum.splits)

lemma the_preview_run:
  "previewed rows \<Longrightarrow> create_preview plain_format whole_power market_parsed (market_session rows) =
     (Inr (the_preview rows), market_session rows)"
  by (simp add: preview_healthy the_preview)

lemma market_previewed:
  "previewed market_rows" "previewed (filter (\<lambda>r. md_timestamp r \<le> 63115200000000) market_rows)"
  by code_simp+

lemma market_rows_ok: "list_all market_data_constraints market_rows" "distinct (map market_data_pkey market_rows)"
  by code_simp+

text \<open>
  Every preview can be served: on rows that satisfy the table constraints, the comparison
  chart has the strategy's and the benchmark's value at the same timestamps, starting together at
  the first eligible bar with the benchmark at the starting cash, so the strict zip of the
  serialization never fails.
\<close>

lemma preview_serializes:
  assumes "preview_of_rows tf dpow rows p = Inr pv"
    and "list_all market_data_constraints rows" "distinct (map market_data_pkey rows)"
  shows "(\<exists>j. serialize_preview tf p pv = Inr j) \<and>
    map ep_timestamp (drop (nat (pv_comparison_start_index pv)) (er_equity_curve (pv_execution pv))) =
      map ep_timestamp (pv_buy_and_hold_equity_curve pv) \<and>
    equity (pv_buy_and_hold_equity_curve pv ! 0) = STARTING_CASH"
  using assms(1)
proof (rule preview_Inr)
  fix bars sigs curve
  let ?k = "pv_comparison_start_index pv"
  assume bars: "bars = stored_bars rows (spec_symbol (pr_specification p)) (spec_interval (pr_specification p))"
    and k: "?k = first_signal_eligible_index (pr_specification p) bars" "?k < int (length bars)"
    and run: "execute_long_only_signals bars sigs STARTING_CASH (spec_stop_loss_percent (pr_specification p))
       (spec_take_profit_percent (pr_specification p)) = Inr (pv_execution pv)"
    and curve: "calculate_buy_and_hold_equity_curve bars STARTING_CASH ?k = Inr curve"
    and bh: "pv_buy_and_hold_equity_curve pv = curve[0 := \<lparr>ep_timestamp = bar_timestamp (bars ! nat ?k),
       equity = STARTING_CASH\<rparr>]"
  have vb: "valid_bars bars"
    using load_bars_facts(1)[OF assms(2,3)] bars by simp
  have ne: "curve \<noteq> []" and ts: "map ep_timestamp curve = map bar_timestamp (drop (nat ?k) bars)"
    using buy_and_hold_Inr[OF curve vb] by simp_all
  have "nat ?k < length bars"
    using k(2) eligible_nonneg[of "pr_specification p" bars] k(1) by linarith
  then have "ep_timestamp (curve ! 0) = bar_timestamp (bars ! nat ?k)"
    using arg_cong[OF ts, of "\<lambda>xs. xs ! 0"] ne by (simp add: nth_map)
  then have bts: "map ep_timestamp (pv_buy_and_hold_equity_curve pv) = map bar_timestamp (drop (nat ?k) bars)"
    using ne ts map_list_update_same[of 0 curve ep_timestamp] unfolding bh by simp
  have "map ep_timestamp (drop (nat ?k) (er_equity_curve (pv_execution pv))) = map bar_timestamp (drop (nat ?k) bars)"
    using execute_positive[OF run vb] by (simp flip: drop_map)
  then have eq: "map ep_timestamp (drop (nat ?k) (er_equity_curve (pv_execution pv))) =
      map ep_timestamp (pv_buy_and_hold_equity_curve pv)"
    using bts by simp
  then have "length (drop (nat ?k) (er_equity_curve (pv_execution pv))) = length (pv_buy_and_hold_equity_curve pv)"
    by (rule map_eq_imp_length_eq)
  then have "\<exists>j. serialize_preview tf p pv = Inr j"
    by (simp add: serialize_preview_def comparison_points_def Let_def)
  then show ?thesis
    using eq ne bh by simp
qed

lemma preview_serializes_witness:
  "(\<exists>j. serialize_preview plain_format market_parsed (the_preview market_rows) = Inr j) \<and>
   equity (pv_buy_and_hold_equity_curve (the_preview market_rows) ! 0) = STARTING_CASH"
  using preview_serializes[OF the_preview[OF market_previewed(1)] market_rows_ok] by blast





subsection \<open>No look-ahead, end to end\<close>

lemma load_until:
  assumes "list_all market_data_constraints rows" "distinct (map market_data_pkey rows)"
  shows "\<exists>later. stored_bars rows s i =
    stored_bars (filter (\<lambda>r. md_timestamp r \<le> T) rows) s i @ later"
proof -
  let ?sel = "\<lambda>r. md_symbol r = s \<and> md_interval r = i"
  have "stored_bars (filter (\<lambda>r. md_timestamp r \<le> T) rows) s i =
      filter (\<lambda>b. bar_timestamp b \<le> T) (stored_bars rows s i)"
  proof -
    have "filter ?sel (filter (\<lambda>r. md_timestamp r \<le> T) rows) = filter (\<lambda>r. md_timestamp r \<le> T) (filter ?sel rows)"
      by (simp add: conj_commute)
    then have "sort_key md_timestamp (filter ?sel (filter (\<lambda>r. md_timestamp r \<le> T) rows)) =
        filter (\<lambda>r. md_timestamp r \<le> T) (sort_key md_timestamp (filter ?sel rows))"
      by (simp only: filter_sort)
    then show ?thesis
      by (simp add: stored_bars_def filter_map comp_def row_to_bar_def)
  qed
  moreover have "sorted_wrt (<) (map bar_timestamp (stored_bars rows s i))"
    using load_bars_facts(2)[OF assms] .
  then have "\<exists>later. bs = filter (\<lambda>b. bar_timestamp b \<le> T) bs @ later"
    if "bs = stored_bars rows s i" for bs
    unfolding that[symmetric]
  proof (induction bs)
    case (Cons b bs)
    show ?case
    proof (cases "bar_timestamp b \<le> T")
      case True
      then show ?thesis
        using Cons by auto
    next
      case False
      then have "filter (\<lambda>b. bar_timestamp b \<le> T) (b # bs) = []"
        using Cons.prems by (force simp: filter_empty_conv)
      then show ?thesis
        by (metis append_Nil)
    qed
  qed simp
  ultimately show ?thesis
    by simp
qed

lemma strict_timestamps_disjoint:
  assumes "sorted_wrt (<) (map bar_timestamp (past @ later))"
    and "t \<in> set (map bar_timestamp (butlast past))" "t \<in> set (map bar_timestamp later)"
  shows False
proof -
  obtain x y where "x \<in> set past" "y \<in> set later" "bar_timestamp x = bar_timestamp y"
    using assms(2,3) by (auto dest: in_set_butlastD)
  then show False
    using assms(1) by (fastforce simp: sorted_wrt_append)
qed

lemma pure_no_lookahead:
  assumes rows: "preview_of_rows tf dpow rows p = Inr pv"
    "preview_of_rows tf dpow (filter (\<lambda>r. md_timestamp r \<le> T) rows) p = Inr pv'"
    "list_all market_data_constraints rows" "distinct (map market_data_pkey rows)"
  shows "er_equity_curve (pv_execution pv') =
      take (length (pv_bars pv')) (er_equity_curve (pv_execution pv)) \<and>
    (\<exists>ts fin. er_completed_trades (pv_execution pv') = ts @ fin \<and>
       prefix ts (er_completed_trades (pv_execution pv)) \<and>
       length fin \<le> 1 \<and> (\<forall>t \<in> set fin. t_exit_reason t = FINAL_LIQUIDATION))"
proof -
  let ?s = "pr_specification p" and ?rows' = "filter (\<lambda>r. md_timestamp r \<le> T) rows"
  obtain bars sigs where
    b: "bars = stored_bars rows (spec_symbol ?s) (spec_interval ?s)"
    and g: "generate_signals ?s bars = Inr sigs"
    and e: "execute_long_only_signals bars sigs STARTING_CASH (spec_stop_loss_percent ?s)
       (spec_take_profit_percent ?s) = Inr (pv_execution pv)"
    using preview_Inr[OF rows(1)] by metis
  obtain past sigs' where
    b': "past = stored_bars ?rows' (spec_symbol ?s) (spec_interval ?s)" "past \<noteq> []" "pv_bars pv' = past"
    and g': "generate_signals ?s past = Inr sigs'"
    and e': "execute_long_only_signals past sigs' STARTING_CASH (spec_stop_loss_percent ?s)
       (spec_take_profit_percent ?s) = Inr (pv_execution pv')"
    using preview_Inr[OF rows(2)] by metis
  obtain later where later: "bars = past @ later"
    using load_until[OF rows(3,4)] b b' by blast
  obtain rest where rest: "sigs = sigs' @ rest"
    "\<forall>x \<in> set rest. sig_timestamp x \<in> set (map bar_timestamp later)"
    using generate_signals_causal[OF g[unfolded later]] g' by auto
  have strict: "sorted_wrt (<) (map bar_timestamp (past @ later))"
    using load_bars_facts(2)[OF rows(3,4)] b later by simp
  have "filter (\<lambda>s. sig_timestamp s \<in> set (map bar_timestamp (butlast past))) rest = []"
    unfolding filter_empty_conv using rest(2) strict_timestamps_disjoint[OF strict] by blast
  then have agree: "filter (\<lambda>s. sig_timestamp s \<in> set (map bar_timestamp (butlast past))) sigs =
      filter (\<lambda>s. sig_timestamp s \<in> set (map bar_timestamp (butlast past))) sigs'"
    unfolding rest(1) by simp
  have vb: "valid_bars (past @ later)"
    using load_bars_facts(1)[OF rows(3,4)] b later by simp
  show ?thesis
    using lookahead_free[OF e[unfolded later] vb starting_cash(2) b'(2) agree] e' b'(3) by auto
qed

text \<open>
  C15. The preview has no look-ahead end to end: computed only from the rows up to a time \<open>T\<close>, it
  shows the same equity curve up to there as the preview computed from all rows, and the same
  trades, except that a position still open at \<open>T\<close> is liquidated.
\<close>

theorem preview_no_lookahead:
  assumes "create_preview tf dpow p s = (Inr pv, t)" "create_preview tf dpow p s' = (Inr pv', t')"
    and "table_rows s' = filter (\<lambda>r. md_timestamp r \<le> T) (table_rows s)"
    and "list_all market_data_constraints (table_rows s)" "distinct (map market_data_pkey (table_rows s))"
  shows "er_equity_curve (pv_execution pv') =
      take (length (pv_bars pv')) (er_equity_curve (pv_execution pv)) \<and>
    (\<exists>ts fin. er_completed_trades (pv_execution pv') = ts @ fin \<and>
       prefix ts (er_completed_trades (pv_execution pv)) \<and>
       length fin \<le> 1 \<and> (\<forall>t \<in> set fin. t_exit_reason t = FINAL_LIQUIDATION))"
  using pure_no_lookahead[OF preview_computed[OF assms(1)] _ assms(4,5)] preview_computed[OF assms(2)] assms(3)
  by simp

theorem preview_no_lookahead_witness:
  "er_equity_curve (pv_execution (the_preview (filter (\<lambda>r. md_timestamp r \<le> 63115200000000) market_rows))) =
   take (length (pv_bars (the_preview (filter (\<lambda>r. md_timestamp r \<le> 63115200000000) market_rows))))
     (er_equity_curve (pv_execution (the_preview market_rows)))"
  using preview_no_lookahead[OF the_preview_run[OF market_previewed(1)] the_preview_run[OF market_previewed(2)]]
    market_rows_ok by simp

end
