(* ===== verification/Job_Properties.thy ===== *)
theory Job_Properties
  imports Preview_Worker_Runs Preview_Properties
begin

text \<open>
  The properties of the job subsystem: the advisory lock and its bounded wait, the life cycle of a
  job under any schedule of database faults, the stored result of a successful run, the errors a
  worker lets escape, and what a delivery of the queue leads to.
\<close>

subsection \<open>Advisory locks\<close>

lemma low_half_range: "signed_key (v AND 0xFFFFFFFF) \<in> {- (2 ^ 31) ..< 2 ^ 31}"
proof -
  have "v AND 0xFFFFFFFF = v mod 2 ^ 32"
    using take_bit_eq_mask[of 32 v] by (simp add: mask_eq_exp_minus_1 take_bit_eq_mod)
  moreover have "0 \<le> v mod 2 ^ 32" "v mod 2 ^ 32 < 2 ^ 32"
    by simp_all
  ultimately show ?thesis
    by (auto simp: signed_key_def)
qed

lemma signed_key_inj:
  "signed_key (v AND 0xFFFFFFFF) = signed_key (w AND 0xFFFFFFFF) \<longleftrightarrow> v mod 2 ^ 32 = w mod 2 ^ 32"
proof -
  have m: "x AND 0xFFFFFFFF = x mod 2 ^ 32" for x :: int
    using take_bit_eq_mask[of 32 x] by (simp add: mask_eq_exp_minus_1 take_bit_eq_mod)
  have "0 \<le> x mod 2 ^ 32" "x mod 2 ^ 32 < 2 ^ 32" for x :: int
    by simp_all
  then show ?thesis
    unfolding m signed_key_def by (smt (verit, best))
qed

lemma split_low_halves:
  fixes v w :: int
  shows "v div 2 ^ 32 mod 2 ^ 32 = w div 2 ^ 32 mod 2 ^ 32 \<and> v mod 2 ^ 32 = w mod 2 ^ 32 \<longleftrightarrow>
    v mod 2 ^ 64 = w mod 2 ^ 64"
proof -
  have s: "x mod 2 ^ 64 = 2 ^ 32 * (x div 2 ^ 32 mod 2 ^ 32) + x mod 2 ^ 32" for x :: int
    using zmod_zmult2_eq[of "2 ^ 32" x "2 ^ 32"] by simp
  show ?thesis
  proof
    assume "v mod 2 ^ 64 = w mod 2 ^ 64"
    then have "v mod 2 ^ 64 div 2 ^ 32 = w mod 2 ^ 64 div 2 ^ 32" "v mod 2 ^ 64 mod 2 ^ 32 = w mod 2 ^ 64 mod 2 ^ 32"
      by simp_all
    then show "v div 2 ^ 32 mod 2 ^ 32 = w div 2 ^ 32 mod 2 ^ 32 \<and> v mod 2 ^ 32 = w mod 2 ^ 32"
      unfolding s by simp
  next
    assume "v div 2 ^ 32 mod 2 ^ 32 = w div 2 ^ 32 mod 2 ^ 32 \<and> v mod 2 ^ 32 = w mod 2 ^ 32"
    then show "v mod 2 ^ 64 = w mod 2 ^ 64"
      unfolding s by simp
  qed
qed

text \<open>
  The advisory lock of a job fits PostgreSQL's two signed 32-bit keys, and two jobs share a
  lock exactly when the low 64 bits of their identifiers agree.
\<close>

lemma lock_keys_exact:
  "fst (advisory_lock_keys u) \<in> {- (2 ^ 31) ..< 2 ^ 31} \<and> snd (advisory_lock_keys u) \<in> {- (2 ^ 31) ..< 2 ^ 31} \<and>
   (advisory_lock_keys u = advisory_lock_keys v \<longleftrightarrow> uint u mod 2 ^ 64 = uint v mod 2 ^ 64)"
proof -
  have "advisory_lock_keys u = advisory_lock_keys v \<longleftrightarrow>
      uint u div 2 ^ 32 mod 2 ^ 32 = uint v div 2 ^ 32 mod 2 ^ 32 \<and> uint u mod 2 ^ 32 = uint v mod 2 ^ 32"
    unfolding advisory_lock_keys_def prod.inject signed_key_inj drop_bit_eq_div ..
  then show ?thesis
    unfolding split_low_halves using low_half_range by (simp add: advisory_lock_keys_def)
qed

subsection \<open>The bounded wait\<close>

definition attempts_allowed :: "int \<Rightarrow> nat" where
  "attempts_allowed d = (if d \<le> 0 then 1 else nat (d div POLL_INTERVAL) + 2)"

lemma attempts_allowed_step:
  assumes "d' \<le> d - POLL_INTERVAL \<or> d' \<le> 0" "0 < d"
  shows "Suc (attempts_allowed d') \<le> attempts_allowed d"
proof (cases "d' \<le> 0")
  case True
  then show ?thesis using assms(2) by (simp add: attempts_allowed_def)
next
  case False
  have "d' div POLL_INTERVAL \<le> (d - POLL_INTERVAL) div POLL_INTERVAL"
    by (rule zdiv_mono1) (use False assms(1) in \<open>auto simp: POLL_INTERVAL_def\<close>)
  moreover have "(d - POLL_INTERVAL) div POLL_INTERVAL = d div POLL_INTERVAL - 1"
    using div_add_self2[of POLL_INTERVAL "d - POLL_INTERVAL"] by (simp add: POLL_INTERVAL_def)
  moreover have "0 \<le> d' div POLL_INTERVAL"
    by (rule pos_imp_zdiv_nonneg_iff[THEN iffD2]) (use False in \<open>auto simp: POLL_INTERVAL_def\<close>)
  ultimately have "Suc (nat (d' div POLL_INTERVAL)) \<le> nat (d div POLL_INTERVAL)"
    by linarith
  then show ?thesis
    using False assms(2) unfolding attempts_allowed_def by simp
qed

lemma denied_attempt:
  assumes "try_acquire_preview_job_lock job_id s = (Inr False, t)"
  shows "lock_attempts t = Suc (lock_attempts s) \<and> \<not> lock_free s (lock_attempts s) \<and> lock_free t = lock_free s \<and>
    attempt_time t = attempt_time s \<and>
    monotonic_clock t = monotonic_clock s + int (attempt_time s (lock_attempts s))"
proof -
  have pg: "is_postgresql s"
    using assms by (auto simp: try_acquire_preview_job_lock_def split: if_splits)
  obtain q u where e: "db_execute (\<lambda>_. ()) s = (q, u)" by (meson surj_pair)
  have "lock_attempts u = lock_attempts s \<and> lock_free u = lock_free s \<and> attempt_time u = attempt_time s \<and>
      monotonic_clock u = monotonic_clock s"
    using keeps_run[OF keeps_session(1) e] by (cases s, cases u, simp)
  then show ?thesis
    using assms pg e
    by (auto simp: try_acquire_preview_job_lock_def attempt_lock_def Let_def split: sum.splits)
qed

lemma any_attempt:
  assumes "try_acquire_preview_job_lock job_id s = (r, t)"
  shows "t = s \<or> lock_attempts t = Suc (lock_attempts s) \<and>
    monotonic_clock t = monotonic_clock s + int (attempt_time s (lock_attempts s))"
proof -
  obtain q u where e: "db_execute (\<lambda>_. ()) s = (q, u)" by (meson surj_pair)
  have "lock_attempts u = lock_attempts s \<and> attempt_time u = attempt_time s \<and> monotonic_clock u = monotonic_clock s"
    using keeps_run[OF keeps_session(1) e] by (cases s, cases u, simp)
  then show ?thesis
    using assms e
    by (auto simp: try_acquire_preview_job_lock_def attempt_lock_def Let_def split: sum.splits if_splits)
qed

definition waited ::
    "uuid \<Rightarrow> int \<Rightarrow> bool result \<Rightarrow> 'z preview_session_scheme \<Rightarrow> 'z preview_session_scheme \<Rightarrow> bool" where
  \<comment> \<open>the bounds on attempts and on time, and what a denial means\<close>
  "waited job_id deadline r s t \<longleftrightarrow>
     lock_attempts t \<le> lock_attempts s + attempts_allowed (deadline - monotonic_clock s) \<and>
     monotonic_clock t \<le> max deadline (monotonic_clock s) + int (attempt_time s (lock_attempts t - 1)) \<and>
     (r = Inr False \<longrightarrow> lock_attempts s < lock_attempts t \<and> deadline \<le> monotonic_clock t \<and>
        (\<forall>n. lock_attempts s \<le> n \<and> n < lock_attempts t \<longrightarrow> \<not> lock_free s n))"

lemma acquire_loop_waits:
  assumes "acquire_loop job_id deadline s = (r, t)"
  shows "waited job_id deadline r s t"
  using assms
proof (induction job_id deadline s rule: acquire_loop.induct)
  case (1 job_id deadline s)
  obtain q u where a: "try_acquire_preview_job_lock job_id s = (q, u)" by (meson surj_pair)
  let ?v = "snd (db_rollback u)"
  let ?w = "?v\<lparr>monotonic_clock := monotonic_clock ?v + min POLL_INTERVAL (max 0 (deadline - monotonic_clock ?v))\<rparr>"
  consider (free) "q \<noteq> Inr False" | (stop) "q = Inr False" "deadline \<le> monotonic_clock ?v"
    | (again) "q = Inr False" "\<not> deadline \<le> monotonic_clock ?v" by blast
  then show ?case
  proof cases
    case free
    then have "r \<noteq> Inr False" "t = u"
      using "1.prems" a by (auto simp: acquire_loop.simps[of job_id deadline s] split: sum.splits if_splits)
    then show ?thesis
      using any_attempt[OF a] by (auto simp: waited_def attempts_allowed_def)
  next
    case stop
    then have "r = Inr False" "t = ?v"
      using "1.prems" a by (auto simp: Let_def acquire_loop.simps[of job_id deadline s])
    then show ?thesis
      using denied_attempt[OF a[unfolded stop(1)]] stop(2)
      by (auto simp: waited_def attempts_allowed_def db_rollback_def le_less_Suc_eq)
  next
    case again
    have "acquire_loop job_id deadline ?w = (r, t)"
      using "1.prems" a again by (auto simp: Let_def acquire_loop.simps[of job_id deadline s])
    note rest = "1.IH"[OF a[symmetric] again(1) _ refl again(2) this, simplified]
    note first = denied_attempt[OF a[unfolded again(1)]]
    have "Suc (attempts_allowed (deadline - monotonic_clock ?w)) \<le> attempts_allowed (deadline - monotonic_clock s)"
      by (rule attempts_allowed_step) (use first again(2) in \<open>auto simp: db_rollback_def min_def\<close>)
    moreover have "monotonic_clock t \<le> max deadline (monotonic_clock s) + int (attempt_time s (lock_attempts t - 1))"
      using rest first again(2) by (auto simp: waited_def db_rollback_def)
    ultimately show ?thesis
      using rest first unfolding waited_def
      by (auto simp: db_rollback_def) (metis Suc_leI le_antisym not_less_eq_eq)
  qed
qed

text \<open>
  C27. Waiting for a job's lock is bounded: a wait of timeout \<open>T\<close> is over after at most \<open>T\<close> plus the
  time its last attempt takes, with at most \<open>T / 50 ms + 2\<close> attempts, and it gives up only when the
  time is over and every attempt found the lock taken.
\<close>

theorem lock_wait_bounded:
  assumes "acquire_preview_job_lock timeout job_id s = (r, t)" "0 < timeout"
  shows "lock_attempts t \<le> lock_attempts s + nat (timeout div POLL_INTERVAL) + 2 \<and>
    monotonic_clock t \<le> monotonic_clock s + timeout + int (attempt_time s (lock_attempts t - 1)) \<and>
    (r = Inr False \<longrightarrow> monotonic_clock s + timeout \<le> monotonic_clock t \<and> lock_attempts s < lock_attempts t \<and>
       (\<forall>n. lock_attempts s \<le> n \<and> n < lock_attempts t \<longrightarrow> \<not> lock_free s n))"
  using acquire_loop_waits[OF assms(1)[unfolded acquire_preview_job_lock_def]] assms(2)
  by (auto simp: waited_def attempts_allowed_def)

definition idle_session :: "preview_job list \<Rightarrow> fault list \<Rightarrow> (nat \<Rightarrow> bool) \<Rightarrow> preview_session" where
  \<comment> \<open>a fresh session on PostgreSQL; an attempt to lock takes a millisecond\<close>
  "idle_session rows faults free =
     \<lparr>table_rows = rows, fault_schedule = faults, needs_rollback = False, attributes_expired = False,
      is_postgresql = True, lock_free = free, attempt_time = (\<lambda>_. 1000), lock_attempts = 0,
      locks_held = [], monotonic_clock = 0\<rparr>"

theorem lock_wait_bounded_witness:
  "fst (acquire_preview_job_lock 200000 7 (idle_session [] [] (\<lambda>_. False))) = Inr False \<and>
   lock_attempts (snd (acquire_preview_job_lock 200000 7 (idle_session [] [] (\<lambda>_. False)))) \<le> 6 \<and>
   monotonic_clock (snd (acquire_preview_job_lock 200000 7 (idle_session [] [] (\<lambda>_. False)))) \<le> 201000"
proof -
  let ?run = "acquire_preview_job_lock 200000 7 (idle_session [] [] (\<lambda>_. False))"
  have "fst ?run = Inr False"
    by code_simp
  moreover have "?run = (fst ?run, snd ?run)"
    by simp
  from lock_wait_bounded[OF this] have "lock_attempts (snd ?run) \<le> 6 \<and> monotonic_clock (snd ?run) \<le> 201000"
    by (simp add: idle_session_def POLL_INTERVAL_def)
  ultimately show ?thesis by simp
qed

subsection \<open>The default preview\<close>

text \<open>
  The preview factory the code uses by default runs \<open>create_preview\<close> on the same session: it looks at
  the table of prices, meets the faults of the session, and leaves the jobs and the locks alone.
\<close>

definition preview_on_prices ::
    "text_format \<Rightarrow> (decimal \<Rightarrow> decimal \<Rightarrow> decimal result) \<Rightarrow> market_data_row list \<Rightarrow> parsed_strategy_result \<Rightarrow>
     ('z preview_session_scheme, strategy_preview) action" where
  "preview_on_prices tf dpow prices parsed s =
     (case create_preview tf dpow parsed \<lparr>table_rows = prices, fault_schedule = fault_schedule s,
         needs_rollback = needs_rollback s, attributes_expired = attributes_expired s\<rparr> of
        (r, m) \<Rightarrow> (r, s\<lparr>fault_schedule := fault_schedule m, needs_rollback := needs_rollback m,
                     attributes_expired := attributes_expired m\<rparr>))"

lemma preview_on_prices_healthy:
  assumes "healthy s"
  shows "preview_on_prices tf dpow prices parsed s = (preview_of_rows tf dpow prices parsed, s)"
  using assms preview_healthy[of "\<lparr>table_rows = prices, fault_schedule = [], needs_rollback = False,
      attributes_expired = False\<rparr>" tf dpow parsed]
  by (simp add: preview_on_prices_def healthy_def)

lemma preview_on_prices_reads: "reads_only (preview_on_prices tf dpow prices parsed)"
proof -
  have "table_rows t = table_rows s" if "preview_on_prices tf dpow prices parsed s = (r, t)"
    for r and s t :: "'a preview_session_scheme"
    using that by (auto simp: preview_on_prices_def split: prod.splits)
  then show ?thesis
    using preview_on_prices_healthy by (fastforce simp: reads_only_def)
qed

lemma preview_on_prices_keeps: "keeps session.more (preview_on_prices tf dpow prices parsed)"
  by (auto simp: keeps_def preview_on_prices_def split: prod.splits)

subsection \<open>Executions of a job\<close>

definition waiting_job :: preview_job where
  "waiting_job = new_job 0 7 1 ''golden cross'' None 24"

definition finished_job :: preview_job where
  "finished_job = failed 5 ''Unable to parse the strategy.'' (claimed 3 (new_job 0 9 1 ''death cross'' None 24))"

lemma sample_store_ok: "store_ok [waiting_job, finished_job]"
  by (simp add: store_ok_def job_ok_def job_constraints_def waiting_job_def finished_job_def new_job_def
      failed_def claimed_def)

lemma reads_only_raise: "reads_only (act_raise e)"
  by (simp add: reads_only_def)

lemma keeps_raise: "keeps session.more (act_raise e)"
  by (rule keeps_simple)

lemma evolved_start: "store_ok (table_rows s) \<Longrightarrow> (h \<longrightarrow> healthy s) \<Longrightarrow> evolved (table_rows s) ids h s"
  by (simp add: evolved_def)

lemma rows_evolve_row:
  assumes "rows_evolve {job_id} xs ys" "find_job k xs = Some j"
  shows "\<exists>j'. find_job k ys = Some j' \<and> job_steps j j' \<and> submission_of j' = submission_of j \<and>
    pj_attempt_count j \<le> pj_attempt_count j' \<and> (k \<noteq> job_id \<or> terminal j \<longrightarrow> j' = j)"
  using find_job_evolves[OF assms(1,2)]
  by (auto simp: terminal_def dest: job_steps_terminal job_steps_submission job_steps_attempts)

text \<open>
  C18. One execution of a preview job is safe whatever the parser and the database do, for every
  preview that only reads: every row stays and moves along the steps of the life cycle, keeping its
  submission and never losing an attempt; no other job and no finished job changes, returning true
  leaves the job in a terminal state, returning false leaves the table alone, and only the retryable
  error or a database error escapes.
\<close>

theorem preview_run_safe:
  assumes "run_preview_job tf parser preview_factory started finished job_id allow s = (r, t)"
    and "store_ok (table_rows s)" "\<And>parsed. reads_only (preview_factory parsed)"
  shows "store_ok (table_rows t) \<and>
    map pj_id (table_rows t) = map pj_id (table_rows s) \<and>
    (\<forall>k j. find_job k (table_rows s) = Some j \<longrightarrow>
       (\<exists>j'. find_job k (table_rows t) = Some j' \<and> job_steps j j' \<and> submission_of j' = submission_of j \<and>
          pj_attempt_count j \<le> pj_attempt_count j' \<and> (k \<noteq> job_id \<or> terminal j \<longrightarrow> j' = j))) \<and>
    (case r of Inl e \<Rightarrow> e = transient_error \<or> db_error e
     | Inr b \<Rightarrow> if b then settled job_id t else table_rows t = table_rows s)"
proof -
  let ?I = "\<lambda>u. evolved (table_rows s) {job_id} False u \<and> table_rows u = table_rows s"
  have run: "triple ?I (run_preview_job tf parser preview_factory started finished job_id allow)
      (\<lambda>r t. evolved (table_rows s) {job_id} False t \<and> (if r then settled job_id t else unclaimed ?I job_id allow t))
      (failed_run (table_rows s) {job_id} False)"
    by (rule triple_run_preview_job) (use assms(3) in auto)
  have start: "?I s"
    using evolved_start[OF assms(2)] by simp
  have ev: "evolved (table_rows s) {job_id} False t"
    using triple_Inr[OF run start] triple_Inl[OF run start] assms(1) by (cases r) auto
  have "case r of Inl e \<Rightarrow> e = transient_error \<or> db_error e
     | Inr b \<Rightarrow> if b then settled job_id t else table_rows t = table_rows s"
    using triple_Inr[OF run start] triple_Inl[OF run start] assms(1)
    by (cases r) (auto simp: escapes_def unclaimed_def)
  then show ?thesis
    using evolved_store_ok[OF ev] rows_evolve_row rows_evolve_ids ev unfolding evolved_def by blast
qed

theorem preview_run_safe_witness:
  "settled 7 (snd (run_preview_job plain_format (\<lambda>_. Inr market_parsed)
      (preview_on_prices plain_format (\<lambda>_ _. Inl DivisionByZero) []) 10 20 7 False
      (idle_session [waiting_job, finished_job] [] (\<lambda>_. True)))) \<and>
   find_job 9 (table_rows (snd (run_preview_job plain_format (\<lambda>_. Inr market_parsed)
      (preview_on_prices plain_format (\<lambda>_ _. Inl DivisionByZero) []) 10 20 7 False
      (idle_session [waiting_job, finished_job] [] (\<lambda>_. True))))) = Some finished_job"
proof -
  let ?s = "idle_session [waiting_job, finished_job] [] (\<lambda>_. True)"
  let ?run = "run_preview_job plain_format (\<lambda>_. Inr market_parsed)
      (preview_on_prices plain_format (\<lambda>_ _. Inl DivisionByZero) []) 10 20 7 False ?s"
  have "fst ?run = Inr True"
    by code_simp
  then have run: "?run = (Inr True, snd ?run)"
    by (metis prod.collapse)
  have rows: "table_rows ?s = [waiting_job, finished_job]"
    by (simp add: idle_session_def)
  have other: "find_job 9 (table_rows ?s) = Some finished_job"
    unfolding rows by code_simp
  have ok: "store_ok (table_rows ?s)"
    unfolding rows by (rule sample_store_ok)
  note safe = preview_run_safe[OF run ok preview_on_prices_reads]
  obtain j where "find_job 9 (table_rows (snd ?run)) = Some j" "(9 :: uuid) \<noteq> 7 \<longrightarrow> j = finished_job"
    using safe other by blast
  then show ?thesis
    using safe by simp
qed

text \<open>
  C26. A successful run stores exactly its result: on a working database, a job that can be claimed
  ends as the same submission with one more attempt, completed, with the serialized preview.
\<close>

theorem successful_preview_stored:
  assumes "healthy s" "store_ok (table_rows s)" "find_job job_id (table_rows s) = Some j"
    and "claimable allow (pj_status j)" "parser (pj_strategy_text j) = Inr parsed"
    and "\<And>u. healthy u \<Longrightarrow> preview_factory parsed u = (Inr preview, u)" "serialize_preview tf parsed preview = Inr doc"
  shows "\<exists>t. run_preview_job tf parser preview_factory started finished job_id allow s = (Inr True, t) \<and>
    find_job job_id (table_rows t) = Some (completed finished doc (claimed started j)) \<and> healthy t"
proof -
  let ?I = "\<lambda>u. evolved (table_rows s) {job_id} True u \<and> table_rows u = table_rows s"
  let ?k = "claimed started j"
  let ?done = "\<lambda>u. evolved (table_rows s) {job_id} True u \<and> row_at job_id ((=) (completed finished doc ?k)) u"
  have k: "pj_id ?k = job_id" "running 20 ?k" "pj_strategy_text ?k = pj_strategy_text j"
    using find_job_SomeD[OF assms(3)] by (auto simp: claimed_def running_def)
  have claim: "triple ?I (claim_job started job_id allow)
      (\<lambda>r u. evolved (table_rows s) {job_id} True u \<and> row_at job_id ((=) ?k) u \<and> r = Some ?k) (\<lambda>_ _. False)"
    by (rule triple_weaken[OF triple_claim_job[where I = ?I]])
       (use assms(3,4) in \<open>auto simp: claim_outcome_def claimed_from_def unclaimed_def row_at_def crashed_def
          split: option.splits\<close>)
  have body: "triple (\<lambda>u. evolved (table_rows s) {job_id} True u \<and> row_at job_id ((=) ?k) u)
      (act_catch (execute_claimed tf parser preview_factory finished ?k) (handle_run_error finished job_id (Some ?k)))
      (\<lambda>_. ?done) (\<lambda>_ _. False)"
    by (rule triple_catch[OF triple_execute_exact[OF _ k(1,2), where preview_factory = preview_factory
            and parsed = parsed and preview = preview]])
       (simp_all add: k(3) assms(5-7) triple_def)
  have "triple ?I (run_preview_job tf parser preview_factory started finished job_id allow)
      (\<lambda>r u. r \<and> ?done u) (\<lambda>_ _. False)"
    unfolding run_preview_job_def
  proof (rule triple_try[OF claim])
    fix r
    show "triple (\<lambda>u. evolved (table_rows s) {job_id} True u \<and> row_at job_id ((=) ?k) u \<and> r = Some ?k)
        (case r of None \<Rightarrow> act_return False
         | Some job \<Rightarrow> act_then (act_catch (execute_claimed tf parser preview_factory finished job)
             (handle_run_error finished job_id (Some job))) (act_return True)) (\<lambda>r u. r \<and> ?done u) (\<lambda>_ _. False)"
    proof (cases "r = Some ?k")
      case True
      have "triple ?done (act_return True) (\<lambda>r u. r \<and> ?done u) (\<lambda>_ _. False)"
        by (simp add: triple_def)
      from triple_then[OF body this] show ?thesis
        unfolding True option.case by (rule triple_strengthen) simp
    qed (simp add: triple_def)
  qed (simp add: triple_def)
  from triple_total[OF this, of s] show ?thesis
    using evolved_start[OF assms(2), of True] assms(1) by (auto simp: row_at_def evolved_def)
qed

definition tiny_preview :: strategy_preview where
  "tiny_preview =
     \<lparr>pv_parsed_strategy = market_parsed, pv_interpretation = ''buy'',
      pv_execution = \<lparr>final_portfolio_value = 10000, total_realized_profit_loss = 0, er_completed_trades = [],
        er_equity_curve = [], er_ignored_signals = []\<rparr>,
      pv_metrics = \<lparr>total_return_percentage = 0, buy_and_hold_return_percentage = 0,
        buy_and_hold_start_timestamp = 0, buy_and_hold_start_price = 1, buy_and_hold_end_price = 1,
        win_rate_percentage = 0, maximum_drawdown_percentage = 0, cagr_percentage = None\<rparr>,
      pv_bar_count = 0, pv_start_timestamp = 0, pv_end_timestamp = 0, pv_bars = [],
      pv_comparison_start_index = 0, pv_buy_and_hold_equity_curve = []\<rparr>"

theorem successful_preview_stored_witness:
  "\<exists>doc t. run_preview_job plain_format (\<lambda>_. Inr market_parsed) (\<lambda>_ u. (Inr tiny_preview, u)) 10 20 7 False
      (idle_session [waiting_job, finished_job] [] (\<lambda>_. True)) = (Inr True, t) \<and>
    find_job 7 (table_rows t) = Some (completed 20 doc (claimed 10 waiting_job))"
proof -
  let ?s = "idle_session [waiting_job, finished_job] [] (\<lambda>_. True)"
  have rows: "table_rows ?s = [waiting_job, finished_job]" and ok: "healthy ?s"
    by (simp_all add: idle_session_def healthy_def)
  obtain doc where doc: "serialize_preview plain_format market_parsed tiny_preview = Inr doc"
    by (simp add: serialize_preview_def comparison_points_def tiny_preview_def Let_def)
  have job: "find_job 7 (table_rows ?s) = Some waiting_job"
    unfolding rows by code_simp
  have "claimable False (pj_status waiting_job)"
    by code_simp
  from successful_preview_stored[OF ok _ job this _ _ doc, of "\<lambda>_. Inr market_parsed" "\<lambda>_ u. (Inr tiny_preview, u)" 10 20]
  show ?thesis
    using sample_store_ok by (auto simp: rows)
qed

text \<open>
  C19. A delivery refines the four-phase machine: the row it names moves along the steps of waiting,
  working, succeeded and abandoned, with the attempts counted, and keeps its submission; it touches no
  other row, and no row at all when the payload is not an identifier.
\<close>

theorem process_refines_phases:
  assumes "process_preview_job settings tf parser preview_factory started finished later left job_text s = (r, t)"
    and "store_ok (table_rows s)" "\<And>parsed. reads_only (preview_factory parsed)"
  shows "list_all2 (\<lambda>j j'. if uuid_of_text job_text = Some (pj_id j)
       then phase_step\<^sup>*\<^sup>* (phase_of j, pj_attempt_count j) (phase_of j', pj_attempt_count j') \<and>
         submission_of j' = submission_of j
       else j' = j)
     (table_rows s) (table_rows t)"
proof -
  let ?ids = "case uuid_of_text job_text of None \<Rightarrow> {} | Some job_id \<Rightarrow> {job_id}"
  have run: "triple (evolved (table_rows s) ?ids False)
      (process_preview_job settings tf parser preview_factory started finished later left job_text)
      (\<lambda>_. evolved (table_rows s) ?ids False) (retryable (table_rows s) ?ids False)"
    by (rule triple_process) (use assms(3) in auto)
  have start: "evolved (table_rows s) ?ids False s"
    by (rule evolved_start) (use assms(2) in auto)
  have "rows_evolve ?ids (table_rows s) (table_rows t)"
    using triple_Inr[OF run start] triple_Inl[OF run start] assms(1)
    by (cases r) (auto simp: evolved_def retryable_def)
  moreover have "phase_step\<^sup>*\<^sup>* (phase_of j, pj_attempt_count j) (phase_of j', pj_attempt_count j')"
    if "job_steps j j'" for j j'
    using that by (induction rule: rtranclp_induct) (auto dest: job_step_refines)
  ultimately show ?thesis
    unfolding rows_evolve_def
    by (auto elim!: list_all2_mono split: option.splits dest: job_steps_submission)
qed

text \<open>The queue payload of the waiting job.\<close>

definition waiting_payload :: string where
  "waiting_payload = uuid_text 7"

theorem process_refines_phases_witness:
  "list_all2 (\<lambda>j j'. if uuid_of_text waiting_payload = Some (pj_id j)
       then phase_step\<^sup>*\<^sup>* (phase_of j, pj_attempt_count j) (phase_of j', pj_attempt_count j') \<and>
         submission_of j' = submission_of j
       else j' = j)
     [waiting_job, finished_job]
     (table_rows (snd (process_preview_job default_settings plain_format (\<lambda>_. Inl (StrategyProviderError ''down''))
        (\<lambda>_. act_raise DivisionByZero) 10 20 30 (Some 2) waiting_payload
        (idle_session [waiting_job, finished_job] [] (\<lambda>_. True)))))"
  using process_refines_phases[of default_settings plain_format "\<lambda>_. Inl (StrategyProviderError ''down'')"
      "\<lambda>_. act_raise DivisionByZero" 10 20 30 "Some 2" waiting_payload
      "idle_session [waiting_job, finished_job] [] (\<lambda>_. True)", OF surjective_pairing _ reads_only_raise]
    sample_store_ok
  by (simp add: idle_session_def)

text \<open>
  C20. Only the retryable error escapes the worker, whatever the parser, the factory and the database
  do, and the rows stay well formed.
\<close>

theorem worker_errors_retryable:
  assumes "process_preview_job settings tf parser preview_factory started finished later left job_text s = (r, t)"
    and "store_ok (table_rows s)" "\<And>parsed. reads_only (preview_factory parsed)"
  shows "(case r of Inl e \<Rightarrow> e = TransientPreviewJobError ''Transient preview job operation failed.'' | Inr _ \<Rightarrow> True) \<and>
    store_ok (table_rows t)"
proof -
  have run: "triple (evolved (table_rows s) UNIV False)
      (process_preview_job settings tf parser preview_factory started finished later left job_text)
      (\<lambda>_. evolved (table_rows s) UNIV False) (retryable (table_rows s) UNIV False)"
    by (rule triple_process) (use assms(3) in auto)
  have start: "evolved (table_rows s) UNIV False s"
    by (rule evolved_start) (use assms(2) in auto)
  show ?thesis
    using triple_Inr[OF run start] triple_Inl[OF run start] assms(1)
    by (cases r) (auto simp: retryable_def transient_error_def dest: evolved_store_ok)
qed

theorem worker_errors_retryable_witness:
  "fst (process_preview_job default_settings plain_format (\<lambda>_. Inr market_parsed) (\<lambda>_. act_raise DivisionByZero)
      10 20 30 (Some 2) waiting_payload
      (idle_session [waiting_job, finished_job] [NoFault, NoFault, Lost] (\<lambda>_. True))) =
     Inl (TransientPreviewJobError ''Transient preview job operation failed.'') \<and>
   store_ok (table_rows (snd (process_preview_job default_settings plain_format (\<lambda>_. Inr market_parsed)
      (\<lambda>_. act_raise DivisionByZero) 10 20 30 (Some 2) waiting_payload
      (idle_session [waiting_job, finished_job] [NoFault, NoFault, Lost] (\<lambda>_. True)))))"
proof -
  let ?s = "idle_session [waiting_job, finished_job] [NoFault, NoFault, Lost] (\<lambda>_. True)"
  let ?run = "process_preview_job default_settings plain_format (\<lambda>_. Inr market_parsed) (\<lambda>_. act_raise DivisionByZero)
      10 20 30 (Some 2) waiting_payload ?s"
  have bad: "case fst ?run of Inl _ \<Rightarrow> True | Inr _ \<Rightarrow> False"
    by code_simp
  have ok: "store_ok (table_rows ?s)"
    using sample_store_ok by (simp add: idle_session_def)
  have run: "?run = (fst ?run, snd ?run)"
    by simp
  have "(case fst ?run of Inl e \<Rightarrow> e = TransientPreviewJobError ''Transient preview job operation failed.''
      | Inr _ \<Rightarrow> True) \<and> store_ok (table_rows (snd ?run))"
    by (rule worker_errors_retryable[OF run ok reads_only_raise])
  then show ?thesis
    using bad by (auto split: sum.splits)
qed

text \<open>
  C21. The worker gives its lock back: after an execution, however it ends, the session holds the
  advisory locks it held before, or none because its connection was dropped.
\<close>

theorem worker_returns_lock:
  assumes "process_preview_job settings tf parser preview_factory started finished later left job_text s = (r, t)"
    and "\<And>parsed. keeps session.more (preview_factory parsed)"
  shows "locks_held t = locks_held s \<or> locks_held t = []"
  by (rule process_held[OF assms(2,1)])

theorem worker_returns_lock_witness:
  "locks_held (snd (process_preview_job default_settings plain_format (\<lambda>_. Inr market_parsed)
      (\<lambda>_. act_raise DivisionByZero) 10 20 30 (Some 2) waiting_payload
      (idle_session [waiting_job] [NoFault, NoFault, Lost] (\<lambda>_. True)))) = []"
  using worker_returns_lock[OF surjective_pairing keeps_raise, of default_settings plain_format
      "\<lambda>_. Inr market_parsed" "\<lambda>_. DivisionByZero" 10 20 30 "Some 2" waiting_payload
      "idle_session [waiting_job] [NoFault, NoFault, Lost] (\<lambda>_. True)"]
  by (auto simp: idle_session_def)

subsection \<open>Deliveries\<close>

text \<open>
  C22. A delivery settles its job or leaves it to a retry: when the database works, the lock is free and
  the preview only reads, a job that can be claimed ends in a terminal state, or the delivery raises the
  retryable error and the failure callback then ends the job, or queues it again while retries are left;
  a job that is finished, or running without an allowed retry, is left alone.
\<close>

theorem delivery_settles_or_requeues:
  assumes "uuid_of_text job_text = Some job_id" "healthy s" "store_ok (table_rows s)" "lock_available s"
    and "find_job job_id (table_rows s) = Some j" "\<And>parsed. reads_only (preview_factory parsed)"
    and run: "process_preview_job settings tf parser preview_factory started finished later left job_text s = (r, t)"
  shows "if claimable (running_retry_allowed settings left) (pj_status j)
    then case r of
        Inr _ \<Rightarrow> \<exists>j'. find_job job_id (table_rows t) = Some j' \<and> terminal j' \<and> job_steps j j'
      | Inl e \<Rightarrow> e = TransientPreviewJobError ''Transient preview job operation failed.'' \<and>
          (\<exists>u j'. handle_preview_job_failure now left (job_text # rest) t = (Inr (), u) \<and>
             find_job job_id (table_rows u) = Some j' \<and> job_steps j j' \<and>
             (terminal j' \<or> pj_status j' = QUEUED \<and> (\<exists>n. left = Some n \<and> 0 < n)))
    else r = Inr () \<and> table_rows t = table_rows s"
proof (cases "claimable (running_retry_allowed settings left) (pj_status j)")
  case False
  have "k = j" if "k \<in> set (table_rows s)" "pj_id k = job_id" for k
    using find_job_unique[of "table_rows s" k] that assms(3,5) by (auto simp: store_ok_def)
  then show ?thesis
    using process_unclaimable[OF assms(1-4) _ run] False by auto
next
  case True
  note settle = triple_process_settles[OF assms(1,6,5) True]
  have start: "evolved (table_rows s) {job_id} True s \<and> table_rows s = table_rows s \<and> lock_available s"
    using evolved_start[OF assms(3), of True] assms(2,4) by simp
  have row: "\<exists>j'. find_job job_id (table_rows u) = Some j' \<and> job_steps j j'"
    if "evolved (table_rows s) {job_id} True u" for u :: "'a preview_session_scheme"
    using that find_job_evolves[OF _ assms(5)] by (auto simp: evolved_def)
  show ?thesis
  proof (cases r)
    case (Inr a)
    then show ?thesis
      using triple_Inr[OF settle start] run row True by (fastforce simp: settled_def)
  next
    case (Inl e)
    then have e: "e = transient_error" and t: "evolved (table_rows s) {job_id} True t"
      using triple_Inl[OF settle start] run by (auto simp: retryable_def)
    let ?n = "case left of None \<Rightarrow> 0 | Some n \<Rightarrow> n"
    have "triple (evolved (table_rows s) {job_id} True) (handle_preview_job_failure now left (job_text # rest))
        (\<lambda>_ u. evolved (table_rows s) {job_id} True u \<and> not_running job_id u \<and> (?n \<le> 0 \<longrightarrow> settled job_id u))
        (\<lambda>_ _. False)"
      by (rule triple_weaken[OF triple_callback[OF assms(1)]]) (auto simp: crashed_def)
    from triple_total[OF this t] obtain u where u: "handle_preview_job_failure now left (job_text # rest) t = (Inr (), u)"
      "evolved (table_rows s) {job_id} True u" "not_running job_id u" "?n \<le> 0 \<longrightarrow> settled job_id u"
      by auto
    obtain j' where j': "find_job job_id (table_rows u) = Some j'" "job_steps j j'"
      using row[OF u(2)] by blast
    have "terminal j' \<or> pj_status j' = QUEUED \<and> (\<exists>n. left = Some n \<and> 0 < n)"
      using u(3,4) j'(1)
      by (cases "pj_status j'"; cases left)
         (auto simp: not_running_def settled_def terminal_def active_status_def not_le)
    then show ?thesis
      using Inl e u(1) j' True by (auto simp: transient_error_def)
  qed
qed

theorem delivery_settles_or_requeues_witness:
  "\<exists>t u j'. process_preview_job default_settings plain_format (\<lambda>_. Inl (StrategyProviderTimeoutError ''slow''))
      (preview_on_prices plain_format (\<lambda>_ _. Inl DivisionByZero) []) 10 20 30 (Some 2) waiting_payload
      (idle_session [waiting_job, finished_job] [] (\<lambda>_. True)) =
      (Inl (TransientPreviewJobError ''Transient preview job operation failed.''), t) \<and>
    handle_preview_job_failure 40 (Some 2) [waiting_payload, ''user''] t = (Inr (), u) \<and>
    find_job 7 (table_rows u) = Some j' \<and> job_steps waiting_job j'"
proof -
  let ?s = "idle_session [waiting_job, finished_job] [] (\<lambda>_. True)"
  let ?run = "process_preview_job default_settings plain_format (\<lambda>_. Inl (StrategyProviderTimeoutError ''slow''))
      (preview_on_prices plain_format (\<lambda>_ _. Inl DivisionByZero) []) 10 20 30 (Some 2) waiting_payload ?s"
  have rows: "table_rows ?s = [waiting_job, finished_job]" and ok: "healthy ?s" "lock_available ?s"
    by (simp_all add: idle_session_def healthy_def lock_available_def)
  have id: "uuid_of_text waiting_payload = Some 7"
    by (simp add: waiting_payload_def uuid_roundtrip)
  have store: "store_ok (table_rows ?s)"
    unfolding rows by (rule sample_store_ok)
  have job: "find_job 7 (table_rows ?s) = Some waiting_job"
    unfolding rows by code_simp
  have queued: "claimable (running_retry_allowed default_settings (Some 2)) (pj_status waiting_job)"
    by code_simp
  have raised: "case fst ?run of Inl _ \<Rightarrow> True | Inr _ \<Rightarrow> False"
    by code_simp
  have "?run = (fst ?run, snd ?run)"
    by simp
  from delivery_settles_or_requeues[OF id ok(1) store ok(2) job preview_on_prices_reads this, of 40 "[''user'']"]
  show ?thesis
    using queued raised by (cases "?run"; cases "fst ?run") auto
qed

text \<open>
  A connection lost while a failure is being recorded is not retried: the failed flush expires the
  row, \<open>job.id\<close> cannot be read before the rollback, and the worker settles the job as failed with
  the generic message.
\<close>

lemma lost_connection_fails_job:
  "let run = process_preview_job default_settings plain_format (\<lambda>_. Inl (StrategyValidationError ''no rule''))
      (\<lambda>_. act_raise DivisionByZero) 10 20 30 (Some 2) waiting_payload
      (idle_session [waiting_job] [NoFault, NoFault, NoFault, NoFault, Lost] (\<lambda>_. True))
   in (case fst run of Inr _ \<Rightarrow> True | Inl _ \<Rightarrow> False) \<and>
      map pj_error_message (table_rows (snd run)) = [Some ''Unable to complete the strategy preview.'']"
  by code_simp

subsection \<open>Submission\<close>

lemma create_job_healthy:
  assumes "healthy s" "store_ok (table_rows s)" "find_job job_id (table_rows s) = None" "strategy_text \<noteq> []"
  shows "create_job now job_id user_id strategy_text strategy_name ttl s =
    (Inr (new_job now job_id user_id strategy_text strategy_name ttl),
     s\<lparr>table_rows := table_rows s @ [new_job now job_id user_id strategy_text strategy_name ttl]\<rparr>)"
proof -
  let ?new = "new_job now job_id user_id strategy_text strategy_name ttl"
  have fresh: "job_id \<notin> pj_id ` set (table_rows s)"
    using assms(3) by (auto simp: find_job_def find_None_iff)
  have "table_ok (table_rows s @ [?new])"
    using store_ok_table[OF assms(2)] fresh assms(4)
    by (auto simp: table_ok_def job_constraints_def new_job_def)
  moreover have "find_job job_id (table_rows s @ [?new]) = Some ?new"
    using assms(3) by (induction "table_rows s") (auto simp: find_job_def new_job_def find_None_iff find_Some_iff nth_append)
  ultimately show ?thesis
    using assms(1) by (simp add: create_job_def act_then_def act_bind_def healthy_simps)
qed

lemma new_job_ok: "strategy_text \<noteq> [] \<Longrightarrow> job_ok (new_job now job_id user_id strategy_text strategy_name ttl)"
  by (simp add: job_ok_def job_constraints_def new_job_def)

lemma store_ok_snoc:
  assumes "store_ok rows" "find_job (pj_id j) rows = None" "job_ok j"
  shows "store_ok (rows @ [j])"
  using assms by (auto simp: store_ok_def find_job_def find_None_iff)

lemma fail_last_job:
  assumes "healthy s" "store_ok rows" "find_job (pj_id j) rows = None" "job_ok j" "active_status (pj_status j)"
    and "table_rows s = rows @ [j]"
  shows "fail_job now (pj_id j) m s = (Inr (), s\<lparr>table_rows := rows @ [failed now m j]\<rparr>)"
proof -
  have absent: "\<forall>k \<in> set rows. pj_id k \<noteq> pj_id j"
    using assms(3) by (auto simp: find_job_def find_None_iff)
  have upd: "update_where (\<lambda>k. pj_id k = pj_id j) (failed now m) (rows @ [j]) = rows @ [failed now m j]"
    using absent by (auto simp: update_where_def intro!: map_idI)
  have "job_ok (failed now m j)"
    by (rule job_step_ok[OF job_step.fail[OF assms(5)] assms(4)])
  then have "table_ok (rows @ [failed now m j])"
    using store_ok_snoc[OF assms(2), of "failed now m j"] assms(3) by (simp add: failed_def store_ok_table)
  moreover have "find_job (pj_id j) (rows @ [j]) \<noteq> None"
    by (auto simp: find_job_def find_None_iff)
  ultimately show ?thesis
    using assms(1,6) upd by (simp add: fail_job_eq act_then_def act_bind_def save_job_def healthy_simps)
qed

text \<open>
  C23. A submission is stored before it is queued, and never orphaned: on a working database the
  queue is asked only once the job's row exists; if it accepts, the row waits for a worker and its
  identifier is returned, and if it refuses, the row is a failed job and the error is passed on.
\<close>

theorem submission_stored_first:
  assumes "healthy s" "lock_available s" "store_ok (table_rows s)"
    and "find_job job_id (table_rows s) = None" "strategy_text \<noteq> []"
    and queue: "\<And>u. find_job job_id (table_rows u) =
        Some (new_job now job_id user_id strategy_text strategy_name (preview_job_ttl_hours settings)) \<Longrightarrow>
        enqueue job_id user_id strategy_text strategy_name None u = (q, u)"
    and run: "submit_preview_job settings enqueue now later job_id user_id strategy_text strategy_name s = (r, t)"
  shows "case q of
      Inr _ \<Rightarrow> r = Inr job_id \<and> table_rows t = table_rows s @
        [new_job now job_id user_id strategy_text strategy_name (preview_job_ttl_hours settings)]
    | Inl e \<Rightarrow> r = Inl e \<and> table_rows t = table_rows s @
        [failed later ''Unable to queue the strategy preview.''
           (new_job now job_id user_id strategy_text strategy_name (preview_job_ttl_hours settings))]"
proof -
  let ?ttl = "preview_job_ttl_hours settings"
  let ?new = "new_job now job_id user_id strategy_text strategy_name ?ttl"
  let ?m = "''Unable to queue the strategy preview.''"
  obtain a u where acq: "acquire_preview_job_lock (microseconds (preview_job_lock_wait_seconds settings)) job_id s = (a, u)"
    by (meson surj_pair)
  have u: "a = Inr True" "table_rows u = table_rows s" "healthy u"
    using acquire_cases[OF acq[unfolded acquire_preview_job_lock_def]] assms(1,2) by auto
  let ?u = "u\<lparr>table_rows := table_rows s @ [?new]\<rparr>"
  have create: "create_job now job_id user_id strategy_text strategy_name ?ttl u = (Inr ?new, ?u)"
    using create_job_healthy[of u job_id strategy_text now user_id strategy_name ?ttl] u assms(3-5) by simp
  have "find_job job_id (table_rows ?u) = Some ?new"
    using find_job_unique[of "table_rows ?u" ?new] store_ok_snoc[OF assms(3) _ new_job_ok[OF assms(5)]] assms(4)
    by (simp add: new_job_def store_ok_def)
  then have enq: "enqueue job_id user_id strategy_text strategy_name None ?u = (q, ?u)"
    by (rule queue)
  have fail: "fail_job later job_id ?m ?u = (Inr (), u\<lparr>table_rows := table_rows s @ [failed later ?m ?new]\<rparr>)"
    using fail_last_job[of ?u "table_rows s" ?new later ?m] new_job_ok[OF assms(5)] assms(3,4) u(3)
    by (simp add: new_job_def active_status_def healthy_simps)
  define v where "v = (case q of Inr _ \<Rightarrow> ?u | Inl _ \<Rightarrow> u\<lparr>table_rows := table_rows s @ [failed later ?m ?new]\<rparr>)"
  define o' where "o' = (case q of Inr _ \<Rightarrow> Inr job_id | Inl e \<Rightarrow> Inl e)"
  have body: "act_bind (create_job now job_id user_id strategy_text strategy_name ?ttl)
      (\<lambda>job. enqueue_or_fail enqueue later job user_id strategy_text strategy_name) u = (o', v)"
    using create enq fail
    by (cases q) (simp_all add: act_bind_def act_then_def act_catch_def enqueue_or_fail_def new_job_def v_def o'_def)
  obtain p w where rel: "release_after_rollback job_id v = (p, w)" by (meson surj_pair)
  have "r = o'" "table_rows t = table_rows v"
    using run acq u(1) body rel release_quiet[OF rel]
    by (auto simp: submit_preview_job_def act_bind_def[of "acquire_preview_job_lock _ _"] act_finally_def)
  then show ?thesis
    by (cases q) (simp_all add: v_def o'_def)
qed

theorem submission_stored_first_witness:
  "fst (submit_preview_job default_settings (\<lambda>_ _ _ _ _ u. (Inl RedisError, u)) 0 5 3 1 ''golden cross'' None
      (idle_session [waiting_job, finished_job] [] (\<lambda>_. True))) = Inl RedisError \<and>
   table_rows (snd (submit_preview_job default_settings (\<lambda>_ _ _ _ _ u. (Inl RedisError, u)) 0 5 3 1 ''golden cross'' None
      (idle_session [waiting_job, finished_job] [] (\<lambda>_. True)))) =
     [waiting_job, finished_job, failed 5 ''Unable to queue the strategy preview.'' (new_job 0 3 1 ''golden cross'' None 24)]"
proof -
  let ?s = "idle_session [waiting_job, finished_job] [] (\<lambda>_. True)"
  let ?q = "\<lambda>_ _ _ _ _ u. (Inl RedisError, u)"
  let ?run = "submit_preview_job default_settings ?q 0 5 3 1 ''golden cross'' None ?s"
  have rows: "table_rows ?s = [waiting_job, finished_job]" and ok: "healthy ?s" "lock_available ?s"
    by (simp_all add: idle_session_def healthy_def lock_available_def)
  have absent: "find_job 3 (table_rows ?s) = None"
    unfolding rows by code_simp
  have store: "store_ok (table_rows ?s)"
    unfolding rows by (rule sample_store_ok)
  have ttl: "preview_job_ttl_hours default_settings = 24"
    by (simp add: default_settings_def)
  have run: "?run = (fst ?run, snd ?run)"
    by simp
  show ?thesis
    using submission_stored_first[OF ok store absent _ _ run, of "Inl RedisError"] by (simp add: rows ttl)
qed

end
