(* ===== verification/Reconciliation_Properties.thy ===== *)
theory Reconciliation_Properties
  imports Reconciliation_Runs Job_Properties
begin

text \<open>
  The properties of the reconciliation: it keeps the table well formed and accounts for every job of
  its batch, and it hands a job to the queue only when that is safe.
\<close>

subsection \<open>Equal behaviour under a precondition\<close>

definition same :: "('s \<Rightarrow> bool) \<Rightarrow> ('s, 'a) action \<Rightarrow> ('s, 'a) action \<Rightarrow> bool" where
  "same P m n \<longleftrightarrow> (\<forall>s. P s \<longrightarrow> m s = n s)"

lemma same_refl [simp]: "same P m m"
  by (simp add: same_def)

lemma same_bind:
  assumes "same P m m'" "triple P m Q E" "\<And>a. same (Q a) (f a) (f' a)"
  shows "same P (act_bind m f) (act_bind m' f')"
  unfolding same_def
proof (intro allI impI)
  fix s assume P: "P s"
  obtain r t where m: "m s = (r, t)" "m' s = (r, t)"
    using assms(1) P by (metis same_def surj_pair)
  then show "act_bind m f s = act_bind m' f' s"
    using triple_Inr[OF assms(2) P] assms(3) by (cases r) (auto simp: act_bind_def same_def)
qed

lemma same_finally: "same P m m' \<Longrightarrow> same P (act_finally m c) (act_finally m' c)"
  by (auto simp: same_def act_finally_def)

lemma same_then: "same P m m' \<Longrightarrow> same P (act_then m n) (act_then m' n)"
  by (simp add: same_def act_then_def act_bind_def)

lemma same_cases:
  "(b \<Longrightarrow> same P m m') \<Longrightarrow> (\<not> b \<Longrightarrow> same P n n') \<Longrightarrow> same P (if b then m else n) (if b then m' else n')"
  by simp

lemma same_strengthen: "same P m n \<Longrightarrow> (\<And>s. P' s \<Longrightarrow> P s) \<Longrightarrow> same P' m n"
  by (auto simp: same_def)

subsection \<open>The guard\<close>

definition recoverable ::
    "recovery_limits \<Rightarrow> timestamp \<Rightarrow> uuid \<Rightarrow> string \<Rightarrow> string option \<Rightarrow> int option \<Rightarrow> preview_job \<Rightarrow> bool" where
  "recoverable limits now user_id strategy_text strategy_name retry_count j \<longleftrightarrow>
     pj_status j = QUEUED \<and> now < pj_expires_at j \<and> pj_user_id j = user_id \<and>
     pj_strategy_text j = strategy_text \<and> pj_strategy_name j = strategy_name \<and>
     (case retry_count of None \<Rightarrow> False
      | Some n \<Rightarrow> n = rl_max_retries limits - pj_attempt_count j \<and> 0 \<le> n \<and> n \<le> rl_max_retries limits)"

definition guarded ::
    "recovery_limits \<Rightarrow> timestamp \<Rightarrow> ('z preview_session_scheme) recovery_port \<Rightarrow> ('z preview_session_scheme) recovery_port" where
  \<comment> \<open>a queue that refuses a job unless the table holds it as recoverable\<close>
  "guarded limits now port =
     port\<lparr>port_enqueue := (\<lambda>job_id user_id strategy_text strategy_name retry_count s.
       if (case find_job job_id (table_rows s) of None \<Rightarrow> False
           | Some j \<Rightarrow> recoverable limits now user_id strategy_text strategy_name retry_count j)
       then port_enqueue port job_id user_id strategy_text strategy_name retry_count s
       else (Inl AssertionError, s))\<rparr>"

lemma guarded_sel [simp]:
  "port_active_ids (guarded limits now port) = port_active_ids port"
  "port_acquire (guarded limits now port) = port_acquire port"
  "port_release (guarded limits now port) = port_release port"
  by (simp_all add: guarded_def)

lemma guarded_release [simp]: "release_or_raise (guarded limits now port) job_id = release_or_raise port job_id"
  by (simp add: release_or_raise_def)

lemma row_at_eq: "row_at job_id ((=) k) s \<longleftrightarrow> find_job job_id (table_rows s) = Some k"
  by (auto simp: row_at_def)

lemma requeued_recoverable:
  assumes "active_status (pj_status j)" "\<not> exhausted limits j" "\<not> expired now j" "0 \<le> pj_attempt_count j"
  shows "recoverable limits now (pj_user_id (requeued now j)) (pj_strategy_text (requeued now j))
    (pj_strategy_name (requeued now j)) (Some (rl_max_retries limits - pj_attempt_count (requeued now j))) (requeued now j)"
  using assms
  by (auto simp: recoverable_def requeued_def operational_values_def active_status_def exhausted_def expired_def)

lemma same_requeue:
  assumes "pj_id j = job_id" "active_status (pj_status j)" "\<not> exhausted limits j" "\<not> expired now j"
  shows "same (\<lambda>s. grown rows0 s \<and> row_at job_id ((=) j) s) (requeue port limits now j rc)
    (requeue (guarded limits now port) limits now j rc)"
  unfolding requeue_def
proof (rule same_bind[OF same_refl triple_requeue_first[OF assms(1,2)]])
  fix q
  let ?I = "\<lambda>s. q = requeued now j \<and> grown rows0 s \<and> row_at job_id ((=) q) s"
  have enqueue: "port_enqueue port (pj_id q) (pj_user_id q) (pj_strategy_text q) (pj_strategy_name q)
        (Some (rl_max_retries limits - pj_attempt_count q)) s =
      port_enqueue (guarded limits now port) (pj_id q) (pj_user_id q) (pj_strategy_text q) (pj_strategy_name q)
        (Some (rl_max_retries limits - pj_attempt_count q)) s"
    if I: "?I s" for s
  proof -
    have F: "find_job (pj_id q) (table_rows s) = Some q" "q \<in> set (table_rows s)"
      using I find_job_SomeD by (auto simp: row_at_eq)
    then have "0 \<le> pj_attempt_count q"
      using I evolved_store_ok[of rows0 UNIV False s]
      by (auto simp: store_ok_def job_ok_def job_constraints_def list_all_iff)
    then have "0 \<le> pj_attempt_count j"
      using I by (simp add: requeued_def operational_values_def split: if_splits)
    then show ?thesis
      using F I requeued_recoverable[OF assms(2-4)] by (simp add: guarded_def)
  qed
  show "same ?I
    (act_then (port_enqueue port (pj_id q) (pj_user_id q) (pj_strategy_text q) (pj_strategy_name q)
        (Some (rl_max_retries limits - pj_attempt_count q)))
      (act_return (count_recovered (rc\<lparr>rc_active_ids := pj_id q # rc_active_ids rc\<rparr>))))
    (act_then (port_enqueue (guarded limits now port) (pj_id q) (pj_user_id q) (pj_strategy_text q) (pj_strategy_name q)
        (Some (rl_max_retries limits - pj_attempt_count q)))
      (act_return (count_recovered (rc\<lparr>rc_active_ids := pj_id q # rc_active_ids rc\<rparr>))))"
    by (rule same_then, unfold same_def, intro allI impI, rule enqueue)
qed

lemma same_locked:
  assumes "quiet port"
  shows "same (grown rows0) (reconcile_locked port limits now job_id rc)
    (reconcile_locked (guarded limits now port) limits now job_id rc)"
  unfolding reconcile_locked_def guarded_sel
proof (rule same_bind[OF same_refl triple_refresh], rule same_cases[OF same_refl])
  fix j :: preview_job
  assume "\<not> \<not> active_status (pj_status j)"
  then have active: "active_status (pj_status j)" by simp
  show "same (\<lambda>s. pj_id j = job_id \<and> grown rows0 s \<and> row_at job_id ((=) j) s)
    (act_bind (port_active_ids port (rl_registry_scan_limit limits)) (\<lambda>ids.
       let rc1 = rc\<lparr>rc_active_ids := ids\<rparr> in
       if pj_id j \<in> set ids then act_return (count_active rc1)
       else if exhausted limits j \<or> expired now j then give_up now j rc1
       else if pj_status j = RUNNING \<and> \<not> stale limits now j then act_return (count_not_stale rc1)
       else requeue port limits now j rc1))
    (act_bind (port_active_ids port (rl_registry_scan_limit limits)) (\<lambda>ids.
       let rc1 = rc\<lparr>rc_active_ids := ids\<rparr> in
       if pj_id j \<in> set ids then act_return (count_active rc1)
       else if exhausted limits j \<or> expired now j then give_up now j rc1
       else if pj_status j = RUNNING \<and> \<not> stale limits now j then act_return (count_not_stale rc1)
       else requeue (guarded limits now port) limits now j rc1))"
  proof (cases "pj_id j = job_id")
    case True
    note step = triple_quiet(1)[OF quiet_keeps(1)[OF assms], where ?rows0.0 = rows0 and job_id = job_id and R = "(=) j"]
    show ?thesis
      unfolding Let_def
      by (rule same_strengthen[OF same_bind[OF same_refl step]], intro same_cases same_refl same_requeue[OF True active])
         auto
  qed (simp add: same_def)
qed

lemma triple_candidate_grown:
  assumes "quiet port"
  shows "triple (grown rows0) (reconcile_candidate port limits now j rc) (\<lambda>_. grown rows0) (\<lambda>_. grown rows0)"
proof -
  have "tallied (rs_scanned (rc_summary rc)) (counted rc) rc"
    by (simp add: tallied_def)
  then show ?thesis
    by (rule triple_weaken[OF triple_reconcile_candidate[OF assms]]) auto
qed

lemma same_candidate:
  assumes "quiet port"
  shows "same (grown rows0) (reconcile_candidate port limits now j rc)
    (reconcile_candidate (guarded limits now port) limits now j rc)"
proof -
  have start: "triple (grown rows0) (if rc_expired rc then reload (pj_id j) else act_return j)
      (\<lambda>_. grown rows0) (\<lambda>_. grown rows0)"
    by (intro triple_cases triple_weaken[OF triple_refresh]) (auto simp: triple_def)
  have "same (grown rows0)
      (act_bind (act_finally (reconcile_locked port limits now u rc) (release_or_raise port u))
        (\<lambda>rc'. act_return (rc'\<lparr>rc_expired := True\<rparr>)))
      (act_bind (act_finally (reconcile_locked (guarded limits now port) limits now u rc) (release_or_raise port u))
        (\<lambda>rc'. act_return (rc'\<lparr>rc_expired := True\<rparr>)))" for u
    using same_finally[OF same_locked[OF assms]] by (simp add: same_def act_bind_def)
  then show ?thesis
    unfolding reconcile_candidate_def guarded_sel guarded_release
    by (intro same_bind[OF same_refl start] same_cases same_refl
        same_bind[OF same_refl triple_quiet(2)[OF quiet_keeps(2)[OF assms]]])
qed

lemma same_candidates:
  assumes "quiet port"
  shows "same (grown rows0) (reconcile_candidates port limits now js rc)
    (reconcile_candidates (guarded limits now port) limits now js rc)"
  by (induction js arbitrary: rc)
     (simp_all add: same_bind[OF same_candidate[OF assms] triple_candidate_grown[OF assms]])

subsection \<open>The properties\<close>

definition sample_limits :: recovery_limits where
  "sample_limits = \<lparr>rl_max_retries = 2, rl_stale_after_seconds = 300, rl_batch_size = 100, rl_registry_scan_limit = 1000\<rparr>"

lemma default_quiet:
  assumes "\<And>n. keeps table_rows (active_ids n)" "\<And>a b c d e. keeps table_rows (enqueue_job a b c d e)"
  shows "quiet (default_port active_ids enqueue_job)"
  unfolding default_port_def by (rule advisory.quiet_port) (use assms in auto)

text \<open>
  C24. A reconciliation accounts for its batch: whatever the database, the queue and the locks do, the
  table stays well formed and finished jobs stay as they are; when it returns, every job of the
  batch has been counted exactly once, and the batch is all unfinished jobs up to the batch size.
\<close>

theorem reconciliation_accounts:
  assumes "reconcile_preview_jobs (default_port active_ids enqueue_job) limits now s = (r, t)"
    and "store_ok (table_rows s)"
    and "\<And>n. keeps table_rows (active_ids n)" "\<And>a b c d e. keeps table_rows (enqueue_job a b c d e)"
  shows "store_ok (table_rows t) \<and>
    (\<forall>k j. find_job k (table_rows s) = Some j \<and> terminal j \<longrightarrow> find_job k (table_rows t) = Some j) \<and>
    (case r of Inl _ \<Rightarrow> True
     | Inr c \<Rightarrow>
         rs_scanned c = rs_active c + rs_recovered c + rs_failed c + rs_locked c + rs_not_stale c + rs_state_changed c \<and>
         rs_scanned c = min (rl_batch_size limits) (length (filter (\<lambda>j. active_status (pj_status j)) (table_rows s))))"
proof -
  have quiet: "quiet (default_port active_ids enqueue_job)"
    by (rule default_quiet) (use assms(3,4) in auto)
  note run = triple_reconcile[OF quiet, of "table_rows s" limits now]
  have start: "grown (table_rows s) s \<and> table_rows s = table_rows s"
    using assms(2) by (simp add: evolved_def)
  have grown: "grown (table_rows s) t"
    using triple_Inr[OF run start] triple_Inl[OF run start] assms(1) by (cases r) auto
  have "find_job k (table_rows t) = Some j" if "find_job k (table_rows s) = Some j" "terminal j" for k j
    using find_job_evolves[OF _ that(1), of UNIV "table_rows t"] grown that(2)
    by (auto simp: evolved_def terminal_def dest: job_steps_terminal)
  moreover have "case r of Inl _ \<Rightarrow> True
     | Inr c \<Rightarrow>
         rs_scanned c = rs_active c + rs_recovered c + rs_failed c + rs_locked c + rs_not_stale c + rs_state_changed c \<and>
         rs_scanned c = min (rl_batch_size limits) (length (filter (\<lambda>j. active_status (pj_status j)) (table_rows s)))"
    using triple_Inr[OF run start] assms(1)
    by (cases r) (auto simp: candidate_rows_def min.commute split: sum.splits)
  ultimately show ?thesis
    using evolved_store_ok[OF grown] by blast
qed

theorem reconciliation_accounts_witness:
  "\<exists>c. fst (reconcile_preview_jobs (default_port (\<lambda>_. act_return []) (\<lambda>_ _ _ _ _. act_skip)) sample_limits 100
      (idle_session [waiting_job, finished_job] [] (\<lambda>_. True))) = Inr c \<and> rs_recovered c = 1 \<and> rs_scanned c = 1"
proof -
  let ?s = "idle_session [waiting_job, finished_job] [] (\<lambda>_. True)"
  let ?run = "reconcile_preview_jobs (default_port (\<lambda>_. act_return []) (\<lambda>_ _ _ _ _. act_skip)) sample_limits 100 ?s"
  have recovered: "fst ?run = Inr \<lparr>rs_scanned = 1, rs_active = 0, rs_recovered = 1, rs_failed = 0, rs_locked = 0,
      rs_not_stale = 0, rs_state_changed = 0\<rparr>"
    by code_simp
  then have run: "?run = (Inr \<lparr>rs_scanned = 1, rs_active = 0, rs_recovered = 1, rs_failed = 0, rs_locked = 0,
      rs_not_stale = 0, rs_state_changed = 0\<rparr>, snd ?run)"
    by (metis prod.collapse)
  have "store_ok (table_rows ?s)"
    using sample_store_ok by (simp add: idle_session_def)
  from reconciliation_accounts[OF run this keeps_simple(1) keeps_simple(4)] recovered show ?thesis
    by simp
qed

text \<open>
  C25. Only recoverable jobs are handed to the queue: a queue that refused every job that the table
  does not hold as queued, unexpired, with the same payload and with between zero and the configured
  number of retries left would make no difference to a reconciliation.
\<close>

theorem recovery_guarded:
  assumes "store_ok (table_rows s)"
    and "\<And>n. keeps table_rows (active_ids n)" "\<And>a b c d e. keeps table_rows (enqueue_job a b c d e)"
  shows "reconcile_preview_jobs (default_port active_ids enqueue_job) limits now s =
    reconcile_preview_jobs (guarded limits now (default_port active_ids enqueue_job)) limits now s"
proof -
  let ?port = "default_port active_ids enqueue_job"
  have quiet: "quiet ?port"
    by (rule default_quiet) (use assms(2,3) in auto)
  have grown: "grown (table_rows s) s"
    using assms(1) by (simp add: evolved_def)
  have candidates: "triple (grown (table_rows s)) (list_reconciliation_candidates n) (\<lambda>_. grown (table_rows s))
      (\<lambda>_. grown (table_rows s))" for n
    unfolding list_reconciliation_candidates_def by (rule triple_db_execute) (simp_all add: grown_rows)
  have finish: "same (grown (table_rows s))
      (act_bind (reconcile_candidates ?port limits now js rc) (\<lambda>rc. act_return (rc_summary rc)))
      (act_bind (reconcile_candidates (guarded limits now ?port) limits now js rc) (\<lambda>rc. act_return (rc_summary rc)))"
    for js rc
    using same_candidates[OF quiet] by (simp add: same_def act_bind_def)
  have "same (grown (table_rows s)) (reconcile_preview_jobs ?port limits now)
      (reconcile_preview_jobs (guarded limits now ?port) limits now)"
    unfolding reconcile_preview_jobs_def guarded_sel
    by (intro same_bind[OF same_refl triple_quiet(2)[OF quiet_keeps(1)[OF quiet]]] same_bind[OF same_refl candidates] finish)
  with grown show ?thesis by (simp add: same_def)
qed

theorem recovery_guarded_witness:
  "\<exists>c. fst (reconcile_preview_jobs (guarded sample_limits 100 (default_port (\<lambda>_. act_return []) (\<lambda>_ _ _ _ _. act_skip)))
      sample_limits 100 (idle_session [waiting_job, finished_job] [] (\<lambda>_. True))) = Inr c \<and> rs_recovered c = 1"
proof -
  let ?s = "idle_session [waiting_job, finished_job] [] (\<lambda>_. True)"
  have recovered: "\<exists>c. fst (reconcile_preview_jobs (default_port (\<lambda>_. act_return []) (\<lambda>_ _ _ _ _. act_skip)) sample_limits 100 ?s) =
      Inr c \<and> rs_recovered c = 1"
    by (rule exI[of _ "\<lparr>rs_scanned = 1, rs_active = 0, rs_recovered = 1, rs_failed = 0, rs_locked = 0,
      rs_not_stale = 0, rs_state_changed = 0\<rparr>"]) code_simp
  have "store_ok (table_rows ?s)"
    using sample_store_ok by (simp add: idle_session_def)
  from recovery_guarded[OF this keeps_simple(1) keeps_simple(4), where limits = sample_limits and now = 100] recovered show ?thesis
    by simp
qed

end
