(* ===== verification/Strategy_Store.thy ===== *)
theory Strategy_Store
  imports Preview_Job_Service
begin

text \<open>
  Saved strategies: the table (\<open>app/models/strategy.py\<close>), the request and response models of the API
  (\<open>app/schemas/strategy.py\<close>) and the routes that read and write the table
  (\<open>app/api/routes/strategies.py\<close>). A route is an action on the session of its request. The database
  generates identifiers and times, so they are arguments; the trigger of the migrations sets the
  time of the last update. Rows reference the table of users, which other code owns.
\<close>

subsection \<open>Rows\<close>

type_synonym json_object = "(string \<times> json) list"

record strategy =
  st_id :: uuid
  st_user_id :: uuid
  st_name :: string
  st_source_text :: string
  st_strategy_json :: "json_object option"
  st_created_at :: timestamp
  st_updated_at :: timestamp

definition strategy_constraints :: "strategy \<Rightarrow> bool" where
  "strategy_constraints x \<longleftrightarrow>
     1 \<le> length (st_name x) \<and> length (st_name x) \<le> 200 \<and> 0 < length (st_source_text x)"

definition strategies_ok :: "uuid list \<Rightarrow> strategy list \<Rightarrow> bool" where
  "strategies_ok users rows \<longleftrightarrow>
     list_all strategy_constraints rows \<and> distinct (map st_id rows) \<and> list_all (\<lambda>x. st_user_id x \<in> set users) rows"

record strategy_session = "strategy session" +
  auth_users :: "uuid list"

definition find_strategy :: "uuid \<Rightarrow> strategy list \<Rightarrow> strategy option" where
  "find_strategy strategy_id rows = List.find (\<lambda>x. st_id x = strategy_id) rows"

definition strategy_commit :: "(strategy list \<Rightarrow> strategy list) \<Rightarrow> ('z strategy_session_scheme, unit) action" where
  "strategy_commit change s = db_commit (strategies_ok (auth_users s)) change s"

subsection \<open>Requests\<close>

definition trim_space :: "char \<Rightarrow> bool" where
  "trim_space c \<longleftrightarrow> (let k = (of_char c :: nat) in 9 \<le> k \<and> k \<le> 13 \<or> k = 32 \<or> k = 133 \<or> k = 160)"

definition trim :: "string \<Rightarrow> string" where
  \<comment> \<open>\<open>strip_whitespace=True\<close>\<close>
  "trim t = rev (dropWhile trim_space (rev (dropWhile trim_space t)))"

definition strategy_name :: "string \<Rightarrow> string result" where
  "strategy_name raw =
     (let t = trim raw in
      if t = [] then Inl (ValidationError ''String should have at least 1 character'')
      else if 200 < length t then Inl (ValidationError ''String should have at most 200 characters'')
      else Inr t)"

definition strategy_source_text :: "string \<Rightarrow> string result" where
  "strategy_source_text raw =
     (let t = trim raw in
      if t = [] then Inl (ValidationError ''String should have at least 1 character'') else Inr t)"

record strategy_create =
  sc_name :: string
  sc_source_text :: string
  sc_strategy_json :: "json_object option"

definition build_strategy_create :: "string \<Rightarrow> string \<Rightarrow> json_object option \<Rightarrow> strategy_create result" where
  "build_strategy_create name source_text strategy_json =
     res_bind (strategy_name name) (\<lambda>n.
     res_bind (strategy_source_text source_text) (\<lambda>t.
     Inr \<lparr>sc_name = n, sc_source_text = t, sc_strategy_json = strategy_json\<rparr>))"

text \<open>In a partial update a field can be absent, null or a value.\<close>

record strategy_update =
  su_name :: "string option option"
  su_source_text :: "string option option"
  su_strategy_json :: "json_object option option"

definition optional_field :: "('a \<Rightarrow> 'b result) \<Rightarrow> 'a option option \<Rightarrow> 'b option option result" where
  "optional_field check v =
     (case v of Some (Some x) \<Rightarrow> res_bind (check x) (\<lambda>y. Inr (Some (Some y)))
      | Some None \<Rightarrow> Inr (Some None) | None \<Rightarrow> Inr None)"

definition reject_null_for_required_columns :: "strategy_update \<Rightarrow> strategy_update result" where
  "reject_null_for_required_columns u =
     (if su_name u = Some None then Inl (ValidationError ''name cannot be null'')
      else if su_source_text u = Some None then Inl (ValidationError ''source_text cannot be null'')
      else Inr u)"

definition build_strategy_update ::
    "string option option \<Rightarrow> string option option \<Rightarrow> json_object option option \<Rightarrow> strategy_update result" where
  "build_strategy_update name source_text strategy_json =
     res_bind (optional_field strategy_name name) (\<lambda>n.
     res_bind (optional_field strategy_source_text source_text) (\<lambda>t.
     reject_null_for_required_columns \<lparr>su_name = n, su_source_text = t, su_strategy_json = strategy_json\<rparr>))"

record confirmed_save_request =
  cs_name :: string
  cs_source_text :: string
  cs_specification :: strategy_specification
  cs_defaults_applied :: "applied_default list"
  cs_assumptions :: "strategy_assumption list"
  cs_requires_confirmation :: bool
  cs_confirmed :: bool

definition validate_confirmation_metadata :: "confirmed_save_request \<Rightarrow> confirmed_save_request result" where
  "validate_confirmation_metadata r =
     (if \<not> cs_confirmed r
      then Inl (ValidationError ''Explicit confirmation is required before saving a strategy.'')
      else if cs_requires_confirmation r \<noteq> (cs_assumptions r \<noteq> [])
      then Inl (ValidationError ''Confirmation metadata does not match the strategy assumptions.'')
      else if list_ex (\<lambda>a. \<not> as_requires_confirmation a) (cs_assumptions r)
      then Inl (ValidationError ''All recorded assumptions must require confirmation.'')
      else Inr r)"

definition build_confirmed_save :: "confirmed_save_request \<Rightarrow> confirmed_save_request result" where
  "build_confirmed_save raw =
     res_bind (strategy_name (cs_name raw)) (\<lambda>n.
     res_bind (strategy_source_text (cs_source_text raw)) (\<lambda>t.
     res_bind (construct spec_schema (cs_specification raw)) (\<lambda>spec.
     validate_confirmation_metadata (raw\<lparr>cs_name := n, cs_source_text := t, cs_specification := spec\<rparr>))))"

subsection \<open>Responses\<close>

record strategy_response =
  sr_id :: uuid
  sr_name :: string
  sr_source_text :: string
  sr_strategy_json :: "json_object option"
  sr_created_at :: timestamp
  sr_updated_at :: timestamp

definition strategy_response_of :: "strategy \<Rightarrow> strategy_response" where
  \<comment> \<open>the owner is left out\<close>
  "strategy_response_of x =
     \<lparr>sr_id = st_id x, sr_name = st_name x, sr_source_text = st_source_text x,
      sr_strategy_json = st_strategy_json x, sr_created_at = st_created_at x, sr_updated_at = st_updated_at x\<rparr>"

subsection \<open>Routes\<close>

definition request_session :: "('r, 'z, 'a) db \<Rightarrow> ('r, 'z, 'a) db" where
  \<comment> \<open>\<open>get_db_session\<close>: an exception of the route rolls the session back\<close>
  "request_session m = act_catch m (\<lambda>e. act_then db_rollback (act_raise e))"

definition database_error :: py_error where
  "database_error = HTTPException 500 ''Unable to complete the strategy database operation.''"

definition database_conflict :: py_error where
  "database_conflict = HTTPException 409 ''Strategy violates a database constraint.''"

definition strategy_not_found :: py_error where
  "strategy_not_found = HTTPException 404 ''Strategy not found.''"

definition hide_database_error :: "py_error \<Rightarrow> (strategy, 'z, 'a) db" where
  \<comment> \<open>\<open>except SQLAlchemyError\<close>\<close>
  "hide_database_error e = (if db_error e then act_then db_rollback (act_raise database_error) else act_raise e)"

definition hide_commit_error :: "py_error \<Rightarrow> (strategy, 'z, 'a) db" where
  \<comment> \<open>\<open>except IntegrityError\<close>, then \<open>except SQLAlchemyError\<close>\<close>
  "hide_commit_error e =
     (if e = IntegrityError then act_then db_rollback (act_raise database_conflict) else hide_database_error e)"

definition get_owned_strategy :: "uuid \<Rightarrow> uuid \<Rightarrow> (strategy, 'z, strategy) db" where
  "get_owned_strategy strategy_id user_id =
     act_bind
       (act_catch (db_execute (List.find (\<lambda>x. st_id x = strategy_id \<and> st_user_id x = user_id))) hide_database_error)
       (\<lambda>r. case r of None \<Rightarrow> act_raise strategy_not_found | Some x \<Rightarrow> act_return x)"

definition commit_and_refresh ::
    "(strategy list \<Rightarrow> strategy list) \<Rightarrow> uuid \<Rightarrow> ('z strategy_session_scheme, strategy) action" where
  "commit_and_refresh change strategy_id =
     act_catch
       (act_then (strategy_commit change)
          (act_bind (db_execute (find_strategy strategy_id))
             (\<lambda>r. case r of None \<Rightarrow> act_raise DatabaseFault | Some x \<Rightarrow> act_return x)))
       hide_commit_error"

definition new_strategy ::
    "timestamp \<Rightarrow> uuid \<Rightarrow> uuid \<Rightarrow> string \<Rightarrow> string \<Rightarrow> json_object option \<Rightarrow> strategy" where
  "new_strategy now fresh user_id name source_text strategy_json =
     \<lparr>st_id = fresh, st_user_id = user_id, st_name = name, st_source_text = source_text,
      st_strategy_json = strategy_json, st_created_at = now, st_updated_at = now\<rparr>"

definition create_strategy ::
    "timestamp \<Rightarrow> uuid \<Rightarrow> uuid \<Rightarrow> strategy_create \<Rightarrow> ('z strategy_session_scheme, strategy) action" where
  "create_strategy now fresh user_id payload =
     commit_and_refresh
       (\<lambda>rows. rows @ [new_strategy now fresh user_id (sc_name payload) (sc_source_text payload) (sc_strategy_json payload)])
       fresh"

definition confirmed_json :: "text_format \<Rightarrow> confirmed_save_request \<Rightarrow> json_object" where
  "confirmed_json tf r =
     (let parsed = \<lparr>pr_specification = cs_specification r, pr_assumptions = cs_assumptions r,
                    pr_defaults_applied = cs_defaults_applied r,
                    pr_requires_confirmation = cs_requires_confirmation r, pr_original_text = cs_source_text r\<rparr>
      in [(''specification'', specification_json tf (cs_specification r)),
          (''defaults_applied'', JList (map default_json (cs_defaults_applied r))),
          (''assumptions'', JList (map assumption_json (cs_assumptions r))),
          (''requires_confirmation'', JBool (cs_requires_confirmation r)),
          (''confirmed'', JBool True),
          (''parser_version'', JStr (spec_version (cs_specification r))),
          (''interpretation'', JStr (interpret_strategy (tf_str_decimal tf) (tf_general tf) parsed))])"

definition unprocessable :: "py_error \<Rightarrow> py_error" where
  "unprocessable e =
     (case e of StrategyValidationError m \<Rightarrow> HTTPException 422 m
      | StrategyCompilationError m \<Rightarrow> HTTPException 422 m | _ \<Rightarrow> e)"

definition save_confirmed_strategy ::
    "text_format \<Rightarrow> timestamp \<Rightarrow> uuid \<Rightarrow> uuid \<Rightarrow> confirmed_save_request \<Rightarrow> ('z strategy_session_scheme, strategy) action" where
  "save_confirmed_strategy tf now fresh user_id r =
     act_then
       (act_catch
          (act_then (act_bind (act_lift (validate_strategy_semantics (cs_specification r))) (\<lambda>_. act_skip))
             (act_bind (act_lift (compile_strategy (cs_specification r))) (\<lambda>_. act_skip)))
          (\<lambda>e. act_raise (unprocessable e)))
       (commit_and_refresh
          (\<lambda>rows. rows @ [new_strategy now fresh user_id (cs_name r) (cs_source_text r) (Some (confirmed_json tf r))])
          fresh)"

definition list_strategies :: "uuid \<Rightarrow> (strategy, 'z, strategy list) db" where
  \<comment> \<open>newest first\<close>
  "list_strategies user_id =
     act_catch
       (db_execute (\<lambda>rows. rev (sort_key (\<lambda>x. (st_created_at x, uint (st_id x))) (filter (\<lambda>x. st_user_id x = user_id) rows))))
       hide_database_error"

definition get_strategy :: "uuid \<Rightarrow> uuid \<Rightarrow> (strategy, 'z, strategy) db" where
  "get_strategy user_id strategy_id = get_owned_strategy strategy_id user_id"

definition updated_fields :: "strategy_update \<Rightarrow> strategy \<Rightarrow> strategy" where
  \<comment> \<open>\<open>setattr\<close> for every field that was sent; \<open>reject_null_for_required_columns\<close> excludes nulls\<close>
  "updated_fields u x =
     x\<lparr>st_name := (case su_name u of Some (Some n) \<Rightarrow> n | _ \<Rightarrow> st_name x),
       st_source_text := (case su_source_text u of Some (Some t) \<Rightarrow> t | _ \<Rightarrow> st_source_text x),
       st_strategy_json := (case su_strategy_json u of Some j \<Rightarrow> j | None \<Rightarrow> st_strategy_json x)\<rparr>"

definition stored_update :: "timestamp \<Rightarrow> strategy \<Rightarrow> strategy \<Rightarrow> strategy list \<Rightarrow> strategy list" where
  \<comment> \<open>the flush writes a row only when one of its attributes changed\<close>
  "stored_update now old new rows =
     (if new = old then rows
      else map (\<lambda>x. if st_id x = st_id old then new\<lparr>st_updated_at := now\<rparr> else x) rows)"

definition update_strategy ::
    "timestamp \<Rightarrow> uuid \<Rightarrow> uuid \<Rightarrow> strategy_update \<Rightarrow> ('z strategy_session_scheme, strategy) action" where
  "update_strategy now user_id strategy_id payload =
     act_bind (get_owned_strategy strategy_id user_id) (\<lambda>x.
     commit_and_refresh (stored_update now x (updated_fields payload x)) (st_id x))"

definition delete_strategy :: "uuid \<Rightarrow> uuid \<Rightarrow> ('z strategy_session_scheme, unit) action" where
  "delete_strategy user_id strategy_id =
     act_bind (get_owned_strategy strategy_id user_id) (\<lambda>x.
     act_catch (strategy_commit (filter (\<lambda>y. st_id y \<noteq> st_id x))) hide_commit_error)"

end
