(* ===== verification/Strategy_Access.thy ===== *)
theory Strategy_Access
  imports Strategy_Store Preview_Properties
begin

text \<open>
  What the routes of saved strategies guarantee to their users: nobody reads or changes a strategy of
  somebody else, only documented errors reach the client, whatever is stored as confirmed compiles,
  and what was created is what is read back.
\<close>

datatype strategy_call =
    CreateStrategy strategy_create
  | SaveConfirmed confirmed_save_request
  | ListStrategies
  | GetStrategy uuid
  | UpdateStrategy uuid strategy_update
  | DeleteStrategy uuid

definition respond :: "('z strategy_session_scheme, strategy) action \<Rightarrow> ('z strategy_session_scheme, strategy_response list) action" where
  "respond m = act_bind m (\<lambda>x. act_return [strategy_response_of x])"

definition handle_call ::
    "text_format \<Rightarrow> timestamp \<Rightarrow> uuid \<Rightarrow> uuid \<Rightarrow> strategy_call \<Rightarrow>
     ('z strategy_session_scheme, strategy_response list) action" where
  "handle_call tf now fresh user_id call =
     request_session (case call of
        CreateStrategy payload \<Rightarrow> respond (create_strategy now fresh user_id payload)
      | SaveConfirmed payload \<Rightarrow> respond (save_confirmed_strategy tf now fresh user_id payload)
      | ListStrategies \<Rightarrow> act_bind (list_strategies user_id) (\<lambda>xs. act_return (map strategy_response_of xs))
      | GetStrategy strategy_id \<Rightarrow> respond (get_strategy user_id strategy_id)
      | UpdateStrategy strategy_id payload \<Rightarrow> respond (update_strategy now user_id strategy_id payload)
      | DeleteStrategy strategy_id \<Rightarrow> act_bind (delete_strategy user_id strategy_id) (\<lambda>_. act_return []))"

subsection \<open>The operations on the table\<close>



















lemma updated_fields_keys [simp]:
  "st_id (updated_fields u x) = st_id x" "st_user_id (updated_fields u x) = st_user_id x"
  by (simp_all add: updated_fields_def)










subsection \<open>The properties\<close>

definition strategy_table :: "strategy list \<Rightarrow> fault list \<Rightarrow> strategy_session" where
  "strategy_table rows faults =
     \<lparr>table_rows = rows, fault_schedule = faults, needs_rollback = False, attributes_expired = False, auth_users = [1, 2]\<rparr>"

definition saved_rows :: "strategy list" where
  "saved_rows = [new_strategy 0 10 1 ''mine'' ''golden cross'' None, new_strategy 0 20 2 ''yours'' ''death cross'' None]"

lemma saved_rows_ok: "strategies_ok (auth_users (strategy_table saved_rows fs)) (table_rows (strategy_table saved_rows fs))"
  by (simp add: strategies_ok_def strategy_constraints_def strategy_table_def saved_rows_def new_strategy_def)



lemma commit_and_refresh_rows:
  assumes "commit_and_refresh change strategy_id s = (r, t)"
  shows "table_rows t = table_rows s \<or> table_rows t = change (table_rows s)"
proof -
  obtain q u where c: "strategy_commit change s = (q, u)" by (meson surj_pair)
  obtain p v where e: "db_execute (find_strategy strategy_id) u = (p, v)" by (meson surj_pair)
  have "table_rows u = table_rows s \<or> table_rows u = change (table_rows s)"
    using commit_rows[OF c[unfolded strategy_commit_def]] by auto
  then show ?thesis
    using assms c e execute_rows(1)[OF e]
    by (auto simp: commit_and_refresh_def act_catch_def act_then_def act_bind_def hide_commit_error_def
        hide_database_error_def db_rollback_def split: sum.splits option.splits if_splits)
qed

lemma save_confirmed_rows:
  assumes "save_confirmed_strategy tf now fresh user_id p s = (r, t)" "table_rows t \<noteq> table_rows s"
  shows "compile_strategy (cs_specification p) = Inr (cs_specification p) \<and>
    table_rows t = table_rows s @ [new_strategy now fresh user_id (cs_name p) (cs_source_text p) (Some (confirmed_json tf p))]"
proof (cases "validate_strategy_semantics (cs_specification p)")
  case (Inl e)
  then show ?thesis
    using assms by (auto simp: save_confirmed_strategy_def act_catch_def act_then_def act_bind_def)
next
  case (Inr u)
  then have ok: "compile_strategy (cs_specification p) = Inr (cs_specification p)"
    by (simp add: compile_strategy_def)
  let ?x = "new_strategy now fresh user_id (cs_name p) (cs_source_text p) (Some (confirmed_json tf p))"
  have "commit_and_refresh (\<lambda>rows. rows @ [?x]) fresh s = (r, t)"
    using assms(1) Inr ok by (simp add: save_confirmed_strategy_def act_catch_def act_then_def act_bind_def)
  from commit_and_refresh_rows[OF this] assms(2) ok show ?thesis by blast
qed

text \<open>
  C29. Only strategies that run are stored as confirmed: a row that a confirmed save adds belongs to
  the caller and carries the document of the submitted specification, and that specification
  compiles and generates signals on all bars, whatever the client sent.
\<close>

theorem confirmed_strategies_run:
  assumes "handle_call tf now fresh user_id (SaveConfirmed p) s = (r, t)"
    and "x \<in> set (table_rows t)" "x \<notin> set (table_rows s)"
  shows "x = new_strategy now fresh user_id (cs_name p) (cs_source_text p) (Some (confirmed_json tf p)) \<and>
    compile_strategy (cs_specification p) = Inr (cs_specification p) \<and>
    (\<exists>sigs. generate_signals (cs_specification p) bars = Inr sigs)"
proof -
  obtain q u where save: "save_confirmed_strategy tf now fresh user_id p s = (q, u)" by (meson surj_pair)
  have "table_rows t = table_rows u"
    using assms(1) save
    by (auto simp: handle_call_def request_session_def respond_def act_catch_def act_bind_def act_then_def
        db_rollback_def split: sum.splits)
  then have "table_rows u \<noteq> table_rows s" "x \<in> set (table_rows u)"
    using assms(2,3) by auto
  with save_confirmed_rows[OF save] assms(3) show ?thesis
    using compiled_signals_total by auto
qed

definition confirmed_sample :: confirmed_save_request where
  "confirmed_sample =
     \<lparr>cs_name = ''golden'', cs_source_text = ''golden cross'', cs_specification = sma_crossover_spec 50 200,
      cs_defaults_applied = [], cs_assumptions = [], cs_requires_confirmation = False, cs_confirmed = True\<rparr>"

theorem confirmed_strategies_run_witness:
  "\<exists>x. table_rows (snd (handle_call plain_format 5 30 1 (SaveConfirmed confirmed_sample) (strategy_table saved_rows []))) =
     saved_rows @ [x] \<and> st_user_id x = 1 \<and> (\<exists>sigs. generate_signals (cs_specification confirmed_sample) [] = Inr sigs)"
proof -
  let ?run = "handle_call plain_format 5 30 1 (SaveConfirmed confirmed_sample) (strategy_table saved_rows [])"
  let ?x = "new_strategy 5 30 1 ''golden'' ''golden cross'' (Some (confirmed_json plain_format confirmed_sample))"
  have rows: "table_rows (snd ?run) = saved_rows @ [?x]"
    by code_simp
  have "?x \<in> set (table_rows (snd ?run))" "?x \<notin> set (table_rows (strategy_table saved_rows []))"
    unfolding rows by (simp_all add: strategy_table_def saved_rows_def new_strategy_def)
  from confirmed_strategies_run[OF surjective_pairing this, of "[]"] rows show ?thesis
    by (auto simp: new_strategy_def)
qed

lemma find_snoc:
  "List.find P (xs @ [x]) = (case List.find P xs of Some y \<Rightarrow> Some y | None \<Rightarrow> if P x then Some x else None)"
  by (induction xs) auto

lemma create_healthy:
  assumes "healthy s" "strategies_ok (auth_users s) (table_rows s)" "strategy_constraints x"
    and "st_user_id x \<in> set (auth_users s)" "find_strategy (st_id x) (table_rows s) = None"
  shows "commit_and_refresh (\<lambda>rows. rows @ [x]) (st_id x) s = (Inr x, s\<lparr>table_rows := table_rows s @ [x]\<rparr>)"
proof -
  let ?t = "s\<lparr>table_rows := table_rows s @ [x]\<rparr>"
  have "strategies_ok (auth_users s) (table_rows s @ [x])"
    using assms(2-5) by (auto simp: strategies_ok_def find_strategy_def find_None_iff)
  then have "strategy_commit (\<lambda>rows. rows @ [x]) s = (Inr (), ?t)"
    unfolding strategy_commit_def by (intro healthy_simps(2)[OF assms(1)])
  moreover have "find_strategy (st_id x) (table_rows s @ [x]) = Some x"
    using assms(5) by (simp add: find_strategy_def find_snoc)
  then have "db_execute (find_strategy (st_id x)) ?t = (Inr (Some x), ?t)"
    using healthy_simps(1)[OF healthy_simps(5)[OF assms(1)], of "find_strategy (st_id x)" "table_rows s @ [x]"] by simp
  ultimately show ?thesis
    by (simp add: commit_and_refresh_def act_catch_def act_then_def act_bind_def)
qed

text \<open>
  C30. What was created is what is read back: on a working database a valid request creates a row with
  the trimmed name and text, its owner reads exactly this row, everybody else gets the 404 of a
  missing strategy, and deleting it restores the table.
\<close>

theorem strategy_roundtrip:
  assumes "healthy s" "strategies_ok (auth_users s) (table_rows s)"
    and "build_strategy_create name source_text doc = Inr payload"
    and "user_id \<in> set (auth_users s)" "find_strategy fresh (table_rows s) = None" "other \<noteq> user_id"
  shows "\<exists>x t. create_strategy now fresh user_id payload s = (Inr x, t) \<and>
    st_name x = trim name \<and> st_source_text x = trim source_text \<and> st_strategy_json x = doc \<and>
    get_strategy user_id fresh t = (Inr x, t) \<and> get_strategy other fresh t = (Inl strategy_not_found, t) \<and>
    delete_strategy user_id fresh t = (Inr (), s)"
proof -
  let ?x = "new_strategy now fresh user_id (trim name) (trim source_text) doc"
  let ?t = "s\<lparr>table_rows := table_rows s @ [?x]\<rparr>"
  have payload: "payload = \<lparr>sc_name = trim name, sc_source_text = trim source_text, sc_strategy_json = doc\<rparr>"
    and c: "strategy_constraints ?x"
    using assms(3)
    by (auto simp: build_strategy_create_def strategy_name_def strategy_source_text_def Let_def strategy_constraints_def
        new_strategy_def Suc_le_eq result_simps split: if_splits)
  have created: "create_strategy now fresh user_id payload s = (Inr ?x, ?t)"
    using create_healthy[OF assms(1,2) c] assms(4,5) by (simp add: create_strategy_def payload new_strategy_def)
  have t: "healthy ?t" by (rule healthy_simps(5)[OF assms(1)])
  have absent: "st_id y \<noteq> fresh" if "y \<in> set (table_rows s)" for y
    using assms(5) that by (auto simp: find_strategy_def find_None_iff)
  then have none: "List.find (\<lambda>y. st_id y = fresh \<and> st_user_id y = u) (table_rows s) = None" for u
    by (auto simp: find_None_iff)
  have "List.find (\<lambda>y. st_id y = fresh \<and> st_user_id y = u) (table_rows s @ [?x]) = (if u = user_id then Some ?x else None)" for u
    by (simp add: find_snoc none) (auto simp: new_strategy_def)
  then have owned: "get_owned_strategy fresh u ?t = (if u = user_id then (Inr ?x, ?t) else (Inl strategy_not_found, ?t))" for u
    by (simp add: get_owned_strategy_def act_bind_def act_catch_def healthy_simps(1)[OF t])
  have rest: "filter (\<lambda>y. st_id y \<noteq> fresh) (table_rows s @ [?x]) = table_rows s"
    using absent by (simp add: new_strategy_def filter_id_conv)
  have "strategy_commit (filter (\<lambda>y. st_id y \<noteq> fresh)) ?t = (Inr (), ?t\<lparr>table_rows := table_rows s\<rparr>)"
    using healthy_simps(2)[OF t, of "strategies_ok (auth_users ?t)" "filter (\<lambda>y. st_id y \<noteq> fresh)"] rest assms(2)
    by (simp add: strategy_commit_def)
  then have deleted: "delete_strategy user_id fresh ?t = (Inr (), s)"
    using owned[of user_id] by (simp add: delete_strategy_def act_bind_def act_catch_def new_strategy_def)
  show ?thesis
    using created owned[of user_id] owned[of other] deleted assms(6)
    by (intro exI[of _ ?x] exI[of _ ?t]) (simp add: get_strategy_def new_strategy_def)
qed

theorem strategy_roundtrip_witness:
  "\<exists>x t. create_strategy 5 30 1 \<lparr>sc_name = ''dip'', sc_source_text = ''buy the dip'', sc_strategy_json = None\<rparr>
      (strategy_table saved_rows []) = (Inr x, t) \<and> get_strategy 1 30 t = (Inr x, t) \<and>
    get_strategy 2 30 t = (Inl strategy_not_found, t)"
proof -
  have built: "build_strategy_create ''  dip '' ''buy the dip'' None =
      Inr \<lparr>sc_name = ''dip'', sc_source_text = ''buy the dip'', sc_strategy_json = None\<rparr>"
    by code_simp
  have "healthy (strategy_table saved_rows [])" "1 \<in> set (auth_users (strategy_table saved_rows []))"
    "find_strategy 30 (table_rows (strategy_table saved_rows [])) = None" "(2 :: uuid) \<noteq> 1"
    by (simp_all add: healthy_def strategy_table_def find_strategy_def saved_rows_def new_strategy_def)
  from strategy_roundtrip[OF this(1) saved_rows_ok built this(2-4), of 5] show ?thesis by blast
qed

end
