(* ===== verification/Market_Import.thy ===== *)
theory Market_Import
  imports App_Settings Database_Session Market_Models
begin

text \<open>
  The import of daily bars from a CSV file (\<open>app/scripts/import_market_csv.py\<close>): parsing and checking
  every record, and the upsert of the accepted rows in one transaction. The input is the list of
  records that \<open>csv.reader\<close> yields; opening and tokenizing the file is left out. Dates, decimals and
  integers are read as \<open>date.fromisoformat\<close>, \<open>Decimal\<close> and \<open>int\<close> of CPython 3.12 read them.
\<close>

subsection \<open>Literals of the standard library\<close>

definition split_sign :: "string \<Rightarrow> int \<times> string" where
  "split_sign t =
     (case t of [] \<Rightarrow> (1, [])
      | c # r \<Rightarrow> if c = CHR ''-'' then (- 1, r) else if c = CHR ''+'' then (1, r) else (1, t))"

definition only_digits :: "string \<Rightarrow> bool" where
  "only_digits t \<longleftrightarrow> t \<noteq> [] \<and> list_all is_digit t"

datatype parsed_decimal = Finite decimal | NotFinite

definition special_number :: "string \<Rightarrow> bool" where
  \<comment> \<open>infinities, and NaNs with a payload of digits\<close>
  "special_number t \<longleftrightarrow>
     (let w = takeWhile (\<lambda>c. \<not> is_digit c) (str_lower t); rest = drop (length w) t
      in (w = ''inf'' \<or> w = ''infinity'') \<and> rest = [] \<or> (w = ''nan'' \<or> w = ''snan'') \<and> list_all is_digit rest)"

definition exponent_value :: "string \<Rightarrow> int option" where
  \<comment> \<open>what follows the digits: nothing, or a decimal exponent\<close>
  "exponent_value t =
     (case t of [] \<Rightarrow> Some 0
      | c # r \<Rightarrow>
          if c \<noteq> CHR ''e'' \<and> c \<noteq> CHR ''E'' then None
          else case split_sign r of (sign, ds) \<Rightarrow>
            if only_digits ds then Some (sign * int_of_digits ds) else None)"

definition scaled :: "int \<Rightarrow> int \<Rightarrow> decimal" where
  "scaled n e = (if 0 \<le> e then of_int n * 10 ^ nat e else of_int n / 10 ^ nat (- e))"

definition MAX_EMAX :: int where
  "MAX_EMAX = 999999999999999999"

definition within_limits :: "string \<Rightarrow> int \<Rightarrow> bool" where
  \<comment> \<open>what a decimal can represent exactly: any zero, else bounds on the least digit's exponent and on the
    first digit's; beyond them the constructor raises \<open>InvalidOperation\<close>\<close>
  "within_limits ds e \<longleftrightarrow>
     (let significant = dropWhile (\<lambda>c. c = CHR ''0'') ds
      in significant = [] \<or> - MAX_EMAX - (MAX_EMAX - 1) \<le> e \<and> e + int (length significant) - 1 \<le> MAX_EMAX)"

definition exponent_decimal :: "string \<Rightarrow> decimal option" where
  "exponent_decimal t =
     (let whole = takeWhile is_digit t;
          r = drop (length whole) t;
          fraction = (case r of c # r' \<Rightarrow> if c = CHR ''.'' then takeWhile is_digit r' else [] | [] \<Rightarrow> []);
          r2 = (case r of c # r' \<Rightarrow> if c = CHR ''.'' then drop (length fraction) r' else r | [] \<Rightarrow> [])
      in if whole @ fraction = [] then None
         else case exponent_value r2 of
                None \<Rightarrow> None
              | Some written \<Rightarrow>
                  let e = written - int (length fraction)
                  in if within_limits (whole @ fraction) e then Some (scaled (int_of_digits (whole @ fraction)) e) else None)"

definition decimal_literal :: "string \<Rightarrow> parsed_decimal option" where
  \<comment> \<open>\<open>Decimal(text)\<close>; underscores are ignored\<close>
  "decimal_literal text =
     (case split_sign (filter (\<lambda>c. c \<noteq> CHR ''_'') text) of (sign, t) \<Rightarrow>
        if special_number t then Some NotFinite
        else map_option (\<lambda>v. Finite (of_int sign * v)) (exponent_decimal t))"

fun underscored_digits :: "bool \<Rightarrow> string \<Rightarrow> bool" where
  \<comment> \<open>digits with single underscores between them; the flag tells that a digit must follow\<close>
  "underscored_digits required [] = (\<not> required)"
| "underscored_digits required (c # t) =
     (if is_digit c then underscored_digits False t
      else c = CHR ''_'' \<and> \<not> required \<and> underscored_digits True t)"

definition int_literal :: "string \<Rightarrow> int option" where
  \<comment> \<open>\<open>int(text)\<close> of a stripped text, with the limit of 4300 digits\<close>
  "int_literal text =
     (case split_sign text of (sign, t) \<Rightarrow>
        let ds = filter is_digit t in
        if underscored_digits True t \<and> length ds \<le> 4300 then Some (sign * int_of_digits ds) else None)"

subsection \<open>Dates\<close>

definition is_leap :: "int \<Rightarrow> bool" where
  "is_leap y \<longleftrightarrow> y mod 4 = 0 \<and> (y mod 100 \<noteq> 0 \<or> y mod 400 = 0)"

definition days_in_month :: "int \<Rightarrow> int \<Rightarrow> int" where
  "days_in_month y m =
     (if m = 2 then if is_leap y then 29 else 28 else if m \<in> {4, 6, 9, 11} then 30 else 31)"

definition ymd_to_ord :: "int \<Rightarrow> int \<Rightarrow> int \<Rightarrow> int" where
  "ymd_to_ord y m d =
     (y - 1) * 365 + (y - 1) div 4 - (y - 1) div 100 + (y - 1) div 400 +
     sum_list (map (days_in_month y) [1..m - 1]) + d"

definition MAX_ORDINAL :: int where
  "MAX_ORDINAL = 3652059"

definition checked_date :: "int \<Rightarrow> int \<Rightarrow> int \<Rightarrow> int option" where
  "checked_date y m d =
     (if 1 \<le> y \<and> y \<le> 9999 \<and> 1 \<le> m \<and> m \<le> 12 \<and> 1 \<le> d \<and> d \<le> days_in_month y m then Some (ymd_to_ord y m d) else None)"

definition checked_week :: "int \<Rightarrow> int \<Rightarrow> int \<Rightarrow> int option" where
  \<comment> \<open>\<open>iso_to_ymd\<close>: the week and day of an ISO year\<close>
  "checked_week y w d =
     (let first_day = ymd_to_ord y 1 1;
          weekday = (first_day + 6) mod 7;
          monday = first_day - weekday + (if 3 < weekday then 7 else 0);
          long = weekday = 3 \<or> weekday = 2 \<and> is_leap y;
          n = monday + (w - 1) * 7 + d - 1
      in if 1 \<le> y \<and> 1 \<le> w \<and> (w \<le> 52 \<or> w = 53 \<and> long) \<and> 1 \<le> d \<and> d \<le> 7 \<and> 1 \<le> n \<and> n \<le> MAX_ORDINAL then Some n
         else None)"

definition digits_at :: "nat \<Rightarrow> nat \<Rightarrow> string \<Rightarrow> int option" where
  "digits_at start len t =
     (let ds = take len (drop start t) in
      if length ds = len \<and> list_all is_digit ds then Some (int_of_digits ds) else None)"

definition char_is :: "nat \<Rightarrow> char \<Rightarrow> string \<Rightarrow> bool" where
  "char_is n c t \<longleftrightarrow> n < length t \<and> t ! n = c"

definition date_fromisoformat :: "string \<Rightarrow> int option" where
  \<comment> \<open>the ordinal of the date\<close>
  "date_fromisoformat t =
     (if length t \<notin> {7, 8, 10} then None
      else Option.bind (digits_at 0 4 t) (\<lambda>y.
        let sep = char_is 4 (CHR ''-'') t; p = (if sep then 5 else 4) in
        if char_is p (CHR ''W'') t then
          Option.bind (digits_at (p + 1) 2 t) (\<lambda>w.
            if length t \<le> p + 3 then checked_week y w 1
            else if sep \<and> \<not> char_is (p + 3) (CHR ''-'') t then None
            else Option.bind (digits_at (if sep then p + 4 else p + 3) 1 t) (checked_week y w))
        else
          Option.bind (digits_at p 2 t) (\<lambda>m.
            if sep \<and> \<not> char_is (p + 2) (CHR ''-'') t then None
            else let q = (if sep then p + 3 else p + 2) in
              Option.bind (digits_at q 2 t) (\<lambda>d. if length t = q + 2 then checked_date y m d else None))))"

definition EPOCH_ORDINAL :: int where
  "EPOCH_ORDINAL = 719163"

definition midnight :: "int \<Rightarrow> timestamp" where
  \<comment> \<open>\<open>datetime.combine(day, datetime.min.time(), UTC)\<close>\<close>
  "midnight ordinal = (ordinal - EPOCH_ORDINAL) * 86400 * 10 ^ 6"

subsection \<open>Records\<close>

definition REQUIRED_COLUMNS :: "string list" where
  \<comment> \<open>a set in the code, here in the order of \<open>sorted\<close>\<close>
  "REQUIRED_COLUMNS = [''adjusted_close'', ''close'', ''date'', ''high'', ''low'', ''open'', ''volume'']"

type_synonym csv_row = "(string \<times> string option) list"

definition dict_row :: "string list \<Rightarrow> string list \<Rightarrow> csv_row" where
  \<comment> \<open>a record of \<open>csv.DictReader\<close>: missing values are \<open>None\<close>; later columns of the same name win\<close>
  "dict_row header record =
     rev (zip header (map Some record) @ map (\<lambda>k. (k, None)) (drop (length record) header))"

definition column :: "csv_row \<Rightarrow> string \<Rightarrow> string option" where
  \<comment> \<open>\<open>raw_row.get(name)\<close>\<close>
  "column raw name = (case map_of raw name of None \<Rightarrow> None | Some v \<Rightarrow> v)"

definition blank :: "string option \<Rightarrow> bool" where
  "blank v \<longleftrightarrow> (case v of None \<Rightarrow> True | Some t \<Rightarrow> strip t = [])"

definition stripped :: "string option \<Rightarrow> string" where
  "stripped v = (case v of None \<Rightarrow> [] | Some t \<Rightarrow> strip t)"

record import_row =
  ir_timestamp :: timestamp
  ir_open_price :: decimal
  ir_high_price :: decimal
  ir_low_price :: decimal
  ir_close_price :: decimal
  ir_volume :: int
  ir_adjusted_close :: "decimal option"

record skipped_row =
  sk_row_number :: nat
  sk_reason :: string

definition parse_date :: "string option \<Rightarrow> int result" where
  "parse_date v =
     (if v = None \<or> v = Some [] then Inl (ValueError ''date is required'')
      else case date_fromisoformat (stripped v) of
          None \<Rightarrow> Inl (ValueError ''date must use ISO format YYYY-MM-DD'')
        | Some d \<Rightarrow> Inr d)"

definition parse_decimal :: "string option \<Rightarrow> string \<Rightarrow> decimal result" where
  "parse_decimal v field_name =
     (if blank v then Inl (ValueError (field_name @ '' is required''))
      else case decimal_literal (stripped v) of
          None \<Rightarrow> Inl (ValueError (field_name @ '' must be a decimal number''))
        | Some NotFinite \<Rightarrow> Inl (ValueError (field_name @ '' must be finite''))
        | Some (Finite x) \<Rightarrow> Inr x)"

definition parse_positive_decimal :: "string option \<Rightarrow> string \<Rightarrow> decimal result" where
  "parse_positive_decimal v field_name =
     res_bind (parse_decimal v field_name) (\<lambda>x.
     if x \<le> 0 then Inl (ValueError (field_name @ '' must be positive'')) else Inr x)"

definition parse_optional_positive_decimal :: "string option \<Rightarrow> string \<Rightarrow> decimal option result" where
  "parse_optional_positive_decimal v field_name =
     (if blank v then Inr None else res_bind (parse_positive_decimal v field_name) (\<lambda>x. Inr (Some x)))"

definition parse_nonnegative_integer :: "string option \<Rightarrow> string \<Rightarrow> int result" where
  "parse_nonnegative_integer v field_name =
     (if blank v then Inl (ValueError (field_name @ '' is required''))
      else case int_literal (stripped v) of
          None \<Rightarrow> Inl (ValueError (field_name @ '' must be an integer''))
        | Some n \<Rightarrow> if n < 0 then Inl (ValueError (field_name @ '' must be nonnegative'')) else Inr n)"

definition parse_market_row :: "csv_row \<Rightarrow> import_row result" where
  "parse_market_row raw =
     res_bind (parse_date (column raw ''date'')) (\<lambda>day.
     res_bind (parse_positive_decimal (column raw ''open'') ''open'') (\<lambda>open_value.
     res_bind (parse_positive_decimal (column raw ''high'') ''high'') (\<lambda>high_value.
     res_bind (parse_positive_decimal (column raw ''low'') ''low'') (\<lambda>low_value.
     res_bind (parse_positive_decimal (column raw ''close'') ''close'') (\<lambda>close_value.
     res_bind (parse_optional_positive_decimal (column raw ''adjusted_close'') ''adjusted_close'') (\<lambda>adjusted_value.
     res_bind (parse_nonnegative_integer (column raw ''volume'') ''volume'') (\<lambda>volume_value.
     res_bind (raise_if (high_value < open_value \<or> high_value < low_value \<or> high_value < close_value)
                (ValueError ''high must be greater than or equal to open, low, and close'')) (\<lambda>_.
     res_bind (raise_if (low_value > open_value \<or> low_value > high_value \<or> low_value > close_value)
                (ValueError ''low must be less than or equal to open, high, and close'')) (\<lambda>_.
     Inr \<lparr>ir_timestamp = midnight day, ir_open_price = open_value, ir_high_price = high_value,
          ir_low_price = low_value, ir_close_price = close_value, ir_volume = volume_value,
          ir_adjusted_close = adjusted_value\<rparr>)))))))))"

record parse_state =
  ps_total :: nat
  ps_rows :: "import_row list"
  ps_skipped :: "skipped_row list"

definition accept_record :: "parse_state \<Rightarrow> import_row \<Rightarrow> import_row result" where
  "accept_record st row =
     res_bind (raise_if (ir_timestamp row \<in> ir_timestamp ` set (ps_rows st))
                (ValueError ''duplicate timestamp in CSV'')) (\<lambda>_. Inr row)"

definition parse_record :: "string list \<Rightarrow> parse_state \<Rightarrow> nat \<times> string list \<Rightarrow> parse_state result" where
  \<comment> \<open>the loop body: a \<open>ValueError\<close> skips the record, anything else would stop the import\<close>
  "parse_record header st numbered =
     (case res_bind (parse_market_row (dict_row header (snd numbered))) (accept_record st) of
        Inr row \<Rightarrow> Inr (st\<lparr>ps_total := ps_total st + 1, ps_rows := ps_rows st @ [row]\<rparr>)
      | Inl (ValueError m) \<Rightarrow>
          Inr (st\<lparr>ps_total := ps_total st + 1,
                  ps_skipped := ps_skipped st @ [\<lparr>sk_row_number = fst numbered, sk_reason = m\<rparr>]\<rparr>)
      | Inl e \<Rightarrow> Inl e)"

definition parse_market_csv :: "string list list \<Rightarrow> parse_state result" where
  \<comment> \<open>the records of the file; \<open>DictReader\<close> drops empty ones and numbering starts at 2\<close>
  "parse_market_csv records =
     (let header = (case records of [] \<Rightarrow> [] | h # _ \<Rightarrow> h);
          data = filter (\<lambda>r. r \<noteq> []) (drop 1 records);
          missing = filter (\<lambda>c. c \<notin> set header) REQUIRED_COLUMNS
      in if missing \<noteq> []
         then Inl (ValueError (''CSV is missing required columns: '' @ join '', '' missing @ ''.''))
         else res_fold (parse_record header) \<lparr>ps_total = 0, ps_rows = [], ps_skipped = []\<rparr>
                (zip [2..<2 + length data] data))"

subsection \<open>The upsert\<close>

definition stored_price :: "decimal \<Rightarrow> decimal" where
  \<comment> \<open>what a \<open>numeric(18, 8)\<close> column keeps: eight places, halves away from zero\<close>
  "stored_price x = (if 0 \<le> x then of_int \<lfloor>x * 10 ^ 8 + 1 / 2\<rfloor> else - of_int \<lfloor>- x * 10 ^ 8 + 1 / 2\<rfloor>) / 10 ^ 8"

definition too_large :: "decimal \<Rightarrow> bool" where
  "too_large x \<longleftrightarrow> 10 ^ 10 \<le> \<bar>stored_price x\<bar>"

definition as_database_values :: "string \<Rightarrow> string \<Rightarrow> import_row \<Rightarrow> market_data_row" where
  \<comment> \<open>as the columns store them\<close>
  "as_database_values symbol interval r =
     \<lparr>md_symbol = symbol, md_interval = interval, md_timestamp = ir_timestamp r,
      md_open_price = stored_price (ir_open_price r), md_high_price = stored_price (ir_high_price r),
      md_low_price = stored_price (ir_low_price r), md_close_price = stored_price (ir_close_price r),
      md_adjusted_close = map_option stored_price (ir_adjusted_close r), md_volume = ir_volume r\<rparr>"

definition out_of_range :: "import_row \<Rightarrow> bool" where
  \<comment> \<open>values the column types refuse\<close>
  "out_of_range r \<longleftrightarrow>
     too_large (ir_open_price r) \<or> too_large (ir_high_price r) \<or> too_large (ir_low_price r) \<or>
     too_large (ir_close_price r) \<or> (case ir_adjusted_close r of None \<Rightarrow> False | Some a \<Rightarrow> too_large a) \<or>
     2 ^ 63 \<le> ir_volume r"

definition market_table_ok :: "market_data_row list \<Rightarrow> bool" where
  "market_table_ok rows \<longleftrightarrow> list_all market_data_constraints rows \<and> distinct (map market_data_pkey rows)"

definition upsert_row :: "market_data_row \<Rightarrow> market_data_row list \<Rightarrow> market_data_row list" where
  \<comment> \<open>\<open>insert ... on conflict do update\<close> of one row\<close>
  "upsert_row r rows =
     (if market_data_pkey r \<in> market_data_pkey ` set rows
      then map (\<lambda>x. if market_data_pkey x = market_data_pkey r then r else x) rows else rows @ [r])"

record import_session = "market_data_row session" +
  pending_rows :: "market_data_row list"

definition begin_transaction :: "('z import_session_scheme, unit) action" where
  "begin_transaction s = (Inr (), s\<lparr>pending_rows := table_rows s\<rparr>)"

definition existing_timestamps :: "string \<Rightarrow> string \<Rightarrow> timestamp list \<Rightarrow> ('z import_session_scheme, timestamp set) action" where
  \<comment> \<open>\<open>set(session.scalars(existing_timestamp_query(...)))\<close>\<close>
  "existing_timestamps symbol interval timestamps s =
     db_execute (\<lambda>_. md_timestamp ` set (filter (\<lambda>r. md_symbol r = symbol \<and> md_interval r = interval \<and>
       md_timestamp r \<in> set timestamps) (pending_rows s))) s"

definition execute_upsert :: "string \<Rightarrow> string \<Rightarrow> import_row list \<Rightarrow> ('z import_session_scheme, unit) action" where
  "execute_upsert symbol interval batch =
     act_bind (db_execute (\<lambda>_. ())) (\<lambda>_ s.
       let rows = fold upsert_row (map (as_database_values symbol interval) batch) (pending_rows s) in
       if list_ex out_of_range batch then (Inl DatabaseFault, s\<lparr>needs_rollback := True\<rparr>)
       else if \<not> market_table_ok rows then (Inl IntegrityError, s\<lparr>needs_rollback := True\<rparr>)
       else (Inr (), s\<lparr>pending_rows := rows\<rparr>))"

definition batched :: "nat \<Rightarrow> 'a list \<Rightarrow> 'a list list" where
  \<comment> \<open>the slices from the starts in \<open>range(0, len(rows), batch_size)\<close>\<close>
  "batched n xs = map (\<lambda>k. take n (drop (k * n) xs)) [0..<(length xs + n - 1) div n]"

primrec import_batches ::
    "string \<Rightarrow> string \<Rightarrow> import_row list list \<Rightarrow> nat \<times> nat \<Rightarrow> ('z import_session_scheme, nat \<times> nat) action" where
  \<comment> \<open>the counters are the inserted and the updated rows\<close>
  "import_batches symbol interval [] counts = act_return counts"
| "import_batches symbol interval (batch # batches) counts =
     act_bind (existing_timestamps symbol interval (map ir_timestamp batch)) (\<lambda>found.
     act_then (execute_upsert symbol interval batch)
       (import_batches symbol interval batches (fst counts + (length batch - card found), snd counts + card found)))"

definition commit_transaction :: "('z import_session_scheme, unit) action" where
  "commit_transaction s = db_commit (\<lambda>_. True) (\<lambda>_. pending_rows s) s"

definition in_transaction :: "('z import_session_scheme, 'a) action \<Rightarrow> ('z import_session_scheme, 'a) action" where
  \<comment> \<open>\<open>with session.begin():\<close>\<close>
  "in_transaction m =
     act_then begin_transaction
       (act_bind (act_catch m (\<lambda>e. act_then db_rollback (act_raise e)))
          (\<lambda>x. act_then (act_catch commit_transaction (\<lambda>e. act_then db_rollback (act_raise e))) (act_return x)))"

record import_summary =
  im_total_csv_rows :: nat
  im_inserted_rows :: nat
  im_updated_rows :: nat
  im_skipped_rows :: "skipped_row list"
  im_earliest :: "timestamp option"
  im_latest :: "timestamp option"
  im_total_symbol_rows :: nat

definition of_symbol :: "string \<Rightarrow> string \<Rightarrow> market_data_row list \<Rightarrow> timestamp list" where
  "of_symbol symbol interval rows =
     map md_timestamp (filter (\<lambda>r. md_symbol r = symbol \<and> md_interval r = interval) rows)"

definition extreme :: "(timestamp \<Rightarrow> timestamp \<Rightarrow> timestamp) \<Rightarrow> timestamp list \<Rightarrow> timestamp option" where
  "extreme f ts = (case ts of [] \<Rightarrow> None | t # r \<Rightarrow> Some (fold f r t))"

definition check_arguments :: "bool \<Rightarrow> string \<Rightarrow> string \<Rightarrow> string \<Rightarrow> int \<Rightarrow> unit result" where
  "check_arguments is_file path symbol interval batch_size =
     (if \<not> is_file then Inl (ValueError (''CSV file does not exist: '' @ path))
      else if symbol = [] \<or> symbol \<noteq> str_upper symbol \<or> 20 < length symbol
      then Inl (ValueError ''symbol must be an uppercase value between 1 and 20 characters'')
      else if interval \<noteq> ''1d'' then Inl (ValueError ''interval must be 1d'')
      else if batch_size \<le> 0 then Inl (ValueError ''batch_size must be positive'')
      else Inr ())"

definition import_rows ::
    "string \<Rightarrow> string \<Rightarrow> int \<Rightarrow> parse_state \<Rightarrow> ('z import_session_scheme, import_summary) action" where
  "import_rows symbol interval batch_size parsed =
     act_bind (in_transaction (import_batches symbol interval (batched (nat batch_size) (ps_rows parsed)) (0, 0))) (\<lambda>counts.
     act_bind (db_execute (\<lambda>rows. extreme min (of_symbol symbol interval rows))) (\<lambda>earliest.
     act_bind (db_execute (\<lambda>rows. extreme max (of_symbol symbol interval rows))) (\<lambda>latest.
     act_bind (db_execute (\<lambda>rows. length (of_symbol symbol interval rows))) (\<lambda>total.
     act_return
       \<lparr>im_total_csv_rows = ps_total parsed, im_inserted_rows = fst counts, im_updated_rows = snd counts,
        im_skipped_rows = ps_skipped parsed, im_earliest = earliest, im_latest = latest, im_total_symbol_rows = total\<rparr>))))"

definition import_market_csv ::
    "bool \<Rightarrow> string \<Rightarrow> string list list \<Rightarrow> string \<Rightarrow> string \<Rightarrow> int \<Rightarrow> ('z import_session_scheme, import_summary) action" where
  "import_market_csv is_file path records symbol interval batch_size =
     act_bind (act_lift (check_arguments is_file path symbol interval batch_size)) (\<lambda>_.
     act_bind (act_lift (parse_market_csv records)) (\<lambda>parsed.
     act_catch (import_rows symbol interval batch_size parsed)
       (\<lambda>e. if db_error e then act_then db_rollback (act_raise e) else act_raise e)))"

end
