(* ===== verification/Market_Import_Properties.thy ===== *)
theory Market_Import_Properties
  imports Market_Import
begin

text \<open>
  The import of bars is correct: the accepted records are sound daily bars at distinct times and
  every other record is reported; the table changes as a whole or not at all, and it changes by
  overriding the stored bars with the accepted ones.
\<close>

subsection \<open>Parsing\<close>

definition value_error :: "py_error \<Rightarrow> bool" where
  "value_error e \<longleftrightarrow> (\<exists>m. e = ValueError m)"

lemma parse_field_errors:
  "parse_date v = Inl e \<Longrightarrow> value_error e"
  "parse_decimal v nm = Inl e \<Longrightarrow> value_error e"
  "parse_positive_decimal v nm = Inl e \<Longrightarrow> value_error e"
  "parse_optional_positive_decimal v nm = Inl e \<Longrightarrow> value_error e"
  "parse_nonnegative_integer v nm = Inl e \<Longrightarrow> value_error e"
proof -
  show dec: "parse_decimal v nm = Inl e \<Longrightarrow> value_error e" for v nm
    by (auto simp: parse_decimal_def value_error_def split: if_splits option.splits parsed_decimal.splits)
  show pos: "parse_positive_decimal v nm = Inl e \<Longrightarrow> value_error e" for v nm
    using dec[of v nm]
    by (auto simp: parse_positive_decimal_def res_bind_def value_error_def split: if_splits sum.splits)
  show "parse_optional_positive_decimal v nm = Inl e \<Longrightarrow> value_error e"
    using pos[of v nm] by (auto simp: parse_optional_positive_decimal_def res_bind_def split: if_splits sum.splits)
qed (auto simp: parse_date_def parse_nonnegative_integer_def value_error_def split: if_splits option.splits)

lemma res_bind_error:
  assumes "res_bind m f = Inl e" "\<And>e. m = Inl e \<Longrightarrow> value_error e" "\<And>x. f x = Inl e \<Longrightarrow> value_error e"
  shows "value_error e"
  using assms by (cases m) (auto simp: res_bind_def)

lemma raise_if_error: "raise_if b (ValueError m) = Inl e \<Longrightarrow> value_error e"
  by (auto simp: raise_if_def value_error_def split: if_splits)

lemma parse_market_row_error: "parse_market_row raw = Inl e \<Longrightarrow> value_error e"
  unfolding parse_market_row_def
  by (elim res_bind_error parse_field_errors raise_if_error; (elim raise_if_error)?; simp)

definition sound_row :: "import_row \<Rightarrow> bool" where
  "sound_row r \<longleftrightarrow>
     0 < ir_low_price r \<and> ir_low_price r \<le> ir_open_price r \<and> ir_open_price r \<le> ir_high_price r \<and>
     ir_low_price r \<le> ir_close_price r \<and> ir_close_price r \<le> ir_high_price r \<and> 0 \<le> ir_volume r \<and>
     86400 * 10 ^ 6 dvd ir_timestamp r \<and> (case ir_adjusted_close r of None \<Rightarrow> True | Some a \<Rightarrow> 0 < a)"

lemma parse_positive: "parse_positive_decimal v nm = Inr x \<Longrightarrow> 0 < x"
  by (auto simp: parse_positive_decimal_def res_bind_def split: sum.splits if_splits)

lemma parse_optional_positive: "parse_optional_positive_decimal v nm = Inr (Some x) \<Longrightarrow> 0 < x"
  using parse_positive[of v nm]
  by (auto simp: parse_optional_positive_decimal_def res_bind_def split: sum.splits if_splits)

lemma parse_nonnegative: "parse_nonnegative_integer v nm = Inr n \<Longrightarrow> 0 \<le> n"
  by (auto simp: parse_nonnegative_integer_def split: if_splits option.splits)

lemma parse_market_row_sound:
  assumes "parse_market_row raw = Inr r"
  shows "sound_row r"
proof -
  obtain day p_open p_high p_low p_close adjusted vol where
    v: "parse_positive_decimal (column raw ''open'') ''open'' = Inr p_open"
       "parse_positive_decimal (column raw ''low'') ''low'' = Inr p_low"
       "parse_optional_positive_decimal (column raw ''adjusted_close'') ''adjusted_close'' = Inr adjusted"
       "parse_nonnegative_integer (column raw ''volume'') ''volume'' = Inr vol"
    and order: "\<not> (p_high < p_open \<or> p_high < p_low \<or> p_high < p_close)"
       "\<not> (p_low > p_open \<or> p_low > p_high \<or> p_low > p_close)"
    and r: "r = \<lparr>ir_timestamp = midnight day, ir_open_price = p_open, ir_high_price = p_high,
          ir_low_price = p_low, ir_close_price = p_close, ir_volume = vol, ir_adjusted_close = adjusted\<rparr>"
    using assms unfolding parse_market_row_def res_bind_def raise_if_def
    by (auto split: sum.splits if_splits)
  have "86400 * 10 ^ 6 dvd midnight day"
    by (simp add: midnight_def)
  then show ?thesis
    using parse_positive[OF v(2)] parse_optional_positive[of "column raw ''adjusted_close''" "''adjusted_close''"]
      v(3) parse_nonnegative[OF v(4)] order
    by (auto simp: sound_row_def r split: option.splits)
qed

definition parsed_ok :: "parse_state \<Rightarrow> bool" where
  "parsed_ok st \<longleftrightarrow>
     distinct (map ir_timestamp (ps_rows st)) \<and> list_all sound_row (ps_rows st) \<and>
     ps_total st = length (ps_rows st) + length (ps_skipped st)"

lemma parse_record_step:
  assumes "parsed_ok st"
  shows "\<exists>st'. parse_record header st r = Inr st' \<and> parsed_ok st' \<and> ps_total st' = ps_total st + 1"
proof (cases "res_bind (parse_market_row (dict_row header (snd r))) (accept_record st)")
  case (Inl e)
  then have "value_error e"
    by (auto simp: accept_record_def result_simps value_error_def dest: parse_market_row_error[unfolded value_error_def])
  then show ?thesis
    using assms Inl by (auto simp: parse_record_def value_error_def parsed_ok_def)
next
  case (Inr row)
  then have "parse_market_row (dict_row header (snd r)) = Inr row" "ir_timestamp row \<notin> ir_timestamp ` set (ps_rows st)"
    by (auto simp: accept_record_def result_simps)
  then show ?thesis
    using assms Inr parse_market_row_sound by (auto simp: parse_record_def parsed_ok_def)
qed

lemma parse_records_total:
  "parsed_ok st \<Longrightarrow>
    \<exists>st'. res_fold (parse_record header) st rs = Inr st' \<and> parsed_ok st' \<and> ps_total st' = ps_total st + length rs"
proof (induction rs arbitrary: st)
  case (Cons r rs)
  obtain st1 where st1: "parse_record header st r = Inr st1" "parsed_ok st1" "ps_total st1 = ps_total st + 1"
    using parse_record_step[OF Cons.prems] by blast
  then show ?case
    using Cons.IH[OF st1(2)] by auto
qed simp

definition header_of :: "string list list \<Rightarrow> string list" where
  "header_of records = (case records of [] \<Rightarrow> [] | h # _ \<Rightarrow> h)"

lemma parse_market_csv_cases:
  "if set REQUIRED_COLUMNS \<subseteq> set (header_of records)
   then \<exists>st. parse_market_csv records = Inr st \<and> parsed_ok st \<and>
     ps_total st = length (filter (\<lambda>r. r \<noteq> []) (drop 1 records))
   else \<exists>m. parse_market_csv records = Inl (ValueError m)"
proof (cases "set REQUIRED_COLUMNS \<subseteq> set (header_of records)")
  case True
  let ?data = "filter (\<lambda>r. r \<noteq> []) (drop 1 records)"
  let ?start = "\<lparr>ps_total = 0, ps_rows = [], ps_skipped = []\<rparr>"
  let ?rs = "zip [2..<2 + length ?data] ?data"
  have none: "filter (\<lambda>c. c \<notin> set (header_of records)) REQUIRED_COLUMNS = []"
    using True by (auto simp: filter_empty_conv)
  have start: "parsed_ok ?start"
    by (simp add: parsed_ok_def)
  have eq: "parse_market_csv records = res_fold (parse_record (header_of records)) ?start ?rs"
    using none by (simp add: parse_market_csv_def Let_def header_of_def)
  obtain st where st: "res_fold (parse_record (header_of records)) ?start ?rs = Inr st" "parsed_ok st"
    "ps_total st = ps_total ?start + length ?rs"
    using parse_records_total[OF start] by blast
  have "length ?rs = length ?data"
    unfolding length_zip length_upt by arith
  then have "ps_total st = length ?data"
    using st(3) by (simp only: parse_state.select_convs add_0)
  then show ?thesis
    unfolding if_P[OF True] eq using st(1,2) by blast
next
  case False
  then have "filter (\<lambda>c. c \<notin> set (header_of records)) REQUIRED_COLUMNS \<noteq> []"
    by (auto simp: filter_empty_conv)
  then show ?thesis
    using False by (simp add: parse_market_csv_def Let_def header_of_def)
qed

text \<open>
  C32. Parsing a file of bars fails only when a column is missing; otherwise every record that is not
  empty is either accepted or reported as skipped, and the accepted rows are sound daily bars:
  ordered positive prices, no negative volume, midnight timestamps, and no timestamp twice.
\<close>

theorem csv_rows_sound:
  "(parse_market_csv records = Inr st \<longrightarrow>
      list_all sound_row (ps_rows st) \<and> distinct (map ir_timestamp (ps_rows st)) \<and>
      length (ps_rows st) + length (ps_skipped st) = length (filter (\<lambda>r. r \<noteq> []) (drop 1 records))) \<and>
   ((\<exists>e. parse_market_csv records = Inl e) \<longleftrightarrow>
      \<not> set REQUIRED_COLUMNS \<subseteq> set (header_of records))"
  using parse_market_csv_cases[of records] by (auto simp: parsed_ok_def split: if_splits)

definition sample_csv :: "string list list" where
  "sample_csv =
     [[''date'', ''open'', ''high'', ''low'', ''close'', ''volume'', ''adjusted_close''],
      [''2024-01-02'', ''10.5'', ''11'', ''10'', ''10.25'', ''1_000'', []],
      [''2024-01-02'', ''10.5'', ''11'', ''10'', ''10.25'', ''5'', []],
      [''2024-01-03'', ''10'', ''9'', ''8'', ''8.5'', ''7'', ''8.5''],
      [''2024W013'', ''1e1'', ''+12'', ''9.5'', ''11'', ''0'', ''10.75'']]"

theorem csv_rows_sound_witness:
  "\<exists>st. parse_market_csv sample_csv = Inr st \<and> list_all sound_row (ps_rows st) \<and> length (ps_rows st) = 2 \<and>
     map sk_row_number (ps_skipped st) = [3, 4]"
proof -
  have run: "(case parse_market_csv sample_csv of Inl _ \<Rightarrow> False
      | Inr st \<Rightarrow> length (ps_rows st) = 2 \<and> map sk_row_number (ps_skipped st) = [3, 4])"
    by code_simp
  show ?thesis
  proof (cases "parse_market_csv sample_csv")
    case (Inl e)
    then show ?thesis using run by simp
  next
    case (Inr st)
    then show ?thesis
      using run csv_rows_sound[of sample_csv st] by simp
  qed
qed

subsection \<open>The upsert as a map\<close>

definition price_table :: "market_data_row list \<Rightarrow> (string \<times> string \<times> timestamp) \<rightharpoonup> market_data_row" where
  "price_table rows = map_of (map (\<lambda>r. (market_data_pkey r, r)) rows)"

lemma price_table_simps [simp]:
  "price_table [] = Map.empty"
  "price_table (r # rows) = (price_table rows)(market_data_pkey r \<mapsto> r)"
  by (simp_all add: price_table_def)

lemma price_table_append: "price_table (xs @ ys) = price_table ys ++ price_table xs"
  by (simp add: price_table_def)

lemma dom_price_table: "dom (price_table rows) = market_data_pkey ` set rows"
  by (simp add: price_table_def dom_map_of_conv_image_fst image_image)

lemma price_table_replace:
  "price_table (map (\<lambda>x. if market_data_pkey x = market_data_pkey r then r else x) rows) k =
     (if k = market_data_pkey r \<and> k \<in> market_data_pkey ` set rows then Some r else price_table rows k)"
  by (induction rows) auto

lemma price_table_upsert: "price_table (upsert_row r rows) = (price_table rows)(market_data_pkey r \<mapsto> r)"
proof
  fix k
  have "price_table rows (market_data_pkey r) = None" if "market_data_pkey r \<notin> market_data_pkey ` set rows"
    using that by (metis dom_price_table domIff)
  then show "price_table (upsert_row r rows) k = ((price_table rows)(market_data_pkey r \<mapsto> r)) k"
    by (auto simp: upsert_row_def price_table_replace price_table_append map_add_def split: option.splits)
qed

lemma price_table_fold:
  "distinct (map market_data_pkey xs) \<Longrightarrow> price_table (fold upsert_row xs rows) = price_table rows ++ price_table xs"
proof (induction xs arbitrary: rows)
  case (Cons x xs)
  then have x: "market_data_pkey x \<notin> dom (price_table xs)" "distinct (map market_data_pkey xs)"
    by (simp_all add: dom_price_table)
  then have "price_table (fold upsert_row (x # xs) rows) = (price_table rows ++ price_table xs)(market_data_pkey x \<mapsto> x)"
    using Cons.IH[OF x(2), of "upsert_row x rows"] map_add_upd_left[OF x(1), of "price_table rows" x]
    by (simp only: fold_simps price_table_upsert)
  then show ?case
    by (simp only: price_table_simps map_add_upd)
qed simp

lemma keys_fold:
  "market_data_pkey ` set (fold upsert_row xs rows) = market_data_pkey ` set rows \<union> market_data_pkey ` set xs"
proof (induction xs arbitrary: rows)
  case (Cons x xs)
  have "market_data_pkey ` set (upsert_row x rows) = insert (market_data_pkey x) (market_data_pkey ` set rows)"
    using dom_price_table[of "upsert_row x rows"] dom_price_table[of rows] by (simp add: price_table_upsert)
  then show ?case
    using Cons.IH[of "upsert_row x rows"] by auto
qed simp

subsection \<open>Batches\<close>

lemma concat_batched:
  assumes "0 < n"
  shows "concat (batched n xs) = xs"
proof -
  have "concat (map (\<lambda>k. take n (drop (k * n) xs)) [0..<m]) = take (m * n) xs" for m
    by (induction m) (simp_all add: add.commute[of n] take_add)
  moreover have "length xs \<le> (length xs + n - 1) div n * n"
    using div_mult_mod_eq[of "length xs + n - 1" n] mod_less_divisor[OF assms, of "length xs + n - 1"] by linarith
  ultimately show ?thesis by (simp add: batched_def)
qed

subsection \<open>The transaction\<close>

lemma keeps_pending:
  fixes m :: "('z import_session_scheme, 'a) action"
  assumes "keeps session.more m"
  shows "keeps pending_rows m"
proof -
  have "pending_rows t = pending_rows s" if "session.more t = session.more s" for s t :: "'z import_session_scheme"
    using that by (cases s, cases t, simp)
  then show ?thesis
    using assms unfolding keeps_def by blast
qed

lemma execute_import:
  fixes s t :: "'z import_session_scheme"
  assumes "db_execute f s = (r, t)"
  shows "table_rows t = table_rows s" "pending_rows t = pending_rows s"
    "r = Inr (f (table_rows s)) \<or> (\<exists>e. r = Inl e \<and> db_error e)"
  using execute_rows[OF assms] keeps_run[OF keeps_pending[OF keeps_session(1)] assms] by auto

definition new_bars :: "string \<Rightarrow> string \<Rightarrow> import_row list \<Rightarrow> market_data_row list" where
  "new_bars symbol interval rows = map (as_database_values symbol interval) rows"

definition known :: "string \<Rightarrow> string \<Rightarrow> market_data_row list \<Rightarrow> import_row list \<Rightarrow> nat" where
  \<comment> \<open>how many of the bars have a stored predecessor\<close>
  "known symbol interval stored rows =
     length (filter (\<lambda>r. market_data_pkey r \<in> market_data_pkey ` set stored) (new_bars symbol interval rows))"

lemma new_bars_key: "market_data_pkey (as_database_values symbol interval r) = (symbol, interval, ir_timestamp r)"
  by (simp add: market_data_pkey_def as_database_values_def)

lemma new_bars_distinct:
  "distinct (map ir_timestamp rows) \<Longrightarrow> distinct (map market_data_pkey (new_bars symbol interval rows))"
  by (simp add: new_bars_def comp_def new_bars_key distinct_conv_nth)

lemma known_card:
  assumes "distinct (map ir_timestamp rows)"
  shows "card (md_timestamp ` set (filter (\<lambda>r. md_symbol r = symbol \<and> md_interval r = interval \<and>
      md_timestamp r \<in> set (map ir_timestamp rows)) stored)) = known symbol interval stored rows"
proof -
  let ?P = "\<lambda>u. (symbol, interval, u) \<in> market_data_pkey ` set stored"
  have "md_timestamp ` set (filter (\<lambda>r. md_symbol r = symbol \<and> md_interval r = interval \<and>
      md_timestamp r \<in> set (map ir_timestamp rows)) stored) = set (filter ?P (map ir_timestamp rows))"
    by (auto simp: market_data_pkey_def image_iff) metis
  moreover have "card (set (filter ?P (map ir_timestamp rows))) = length (filter ?P (map ir_timestamp rows))"
    by (rule distinct_card) (use assms in simp)
  ultimately show ?thesis
    by (simp add: known_def new_bars_def filter_map comp_def new_bars_key)
qed

lemma new_bars_append: "new_bars symbol interval (xs @ ys) = new_bars symbol interval xs @ new_bars symbol interval ys"
  by (simp add: new_bars_def)

lemma known_append: "known symbol interval stored (xs @ ys) = known symbol interval stored xs + known symbol interval stored ys"
  by (simp add: known_def new_bars_def)

lemma known_fold:
  assumes "distinct (map ir_timestamp (xs @ ys))"
  shows "known symbol interval (fold upsert_row (new_bars symbol interval xs) stored) ys = known symbol interval stored ys"
proof -
  have "market_data_pkey r \<notin> market_data_pkey ` set (new_bars symbol interval xs)" if "r \<in> set (new_bars symbol interval ys)" for r
    using assms that by (auto simp: new_bars_def new_bars_key) blast
  then have "filter (\<lambda>r. market_data_pkey r \<in> market_data_pkey ` set (fold upsert_row (new_bars symbol interval xs) stored))
      (new_bars symbol interval ys) =
    filter (\<lambda>r. market_data_pkey r \<in> market_data_pkey ` set stored) (new_bars symbol interval ys)"
    by (intro filter_cong) (auto simp: keys_fold)
  then show ?thesis by (simp add: known_def)
qed

lemma known_le: "known symbol interval stored rows \<le> length rows"
  unfolding known_def by (rule order_trans[OF length_filter_le]) (simp add: new_bars_def)

lemma execute_upsert_effect:
  assumes "execute_upsert symbol interval batch s = (r, t)"
  shows "table_rows t = table_rows s"
    and "r = Inr () \<and> pending_rows t = fold upsert_row (new_bars symbol interval batch) (pending_rows s) \<and>
        market_table_ok (pending_rows t) \<or> (\<exists>e. r = Inl e \<and> db_error e)"
proof -
  obtain q u where e: "db_execute (\<lambda>_. ()) s = (q, u)" by (meson surj_pair)
  note facts = execute_import[OF e]
  show "table_rows t = table_rows s"
    using assms e facts(1) by (auto simp: execute_upsert_def act_bind_def Let_def split: sum.splits if_splits)
  show "r = Inr () \<and> pending_rows t = fold upsert_row (new_bars symbol interval batch) (pending_rows s) \<and>
        market_table_ok (pending_rows t) \<or> (\<exists>e. r = Inl e \<and> db_error e)"
    using assms e facts(2,3)
    by (auto simp: execute_upsert_def act_bind_def Let_def new_bars_def db_error_def split: sum.splits if_splits)
qed

lemma import_batches_effect:
  assumes "import_batches symbol interval batches counts s = (r, t)"
    and "distinct (map ir_timestamp (concat batches))" "market_table_ok (pending_rows s)"
  shows "table_rows t = table_rows s \<and>
    ((\<exists>e. r = Inl e \<and> db_error e) \<or>
     r = Inr (fst counts + (length (concat batches) - known symbol interval (pending_rows s) (concat batches)),
              snd counts + known symbol interval (pending_rows s) (concat batches)) \<and>
       pending_rows t = fold upsert_row (new_bars symbol interval (concat batches)) (pending_rows s) \<and>
       market_table_ok (pending_rows t))"
  using assms
proof (induction batches arbitrary: counts s)
  case Nil
  then show ?case by (simp add: known_def new_bars_def)
next
  case (Cons batch batches)
  obtain q u where found: "existing_timestamps symbol interval (map ir_timestamp batch) s = (q, u)" by (meson surj_pair)
  obtain p v where upsert: "execute_upsert symbol interval batch u = (p, v)" by (meson surj_pair)
  note read = execute_import[OF found[unfolded existing_timestamps_def]]
  note wrote = execute_upsert_effect[OF upsert]
  have batch: "distinct (map ir_timestamp batch)" and rest: "distinct (map ir_timestamp (concat batches))"
    using Cons.prems(2) by auto
  let ?n = "known symbol interval (pending_rows s) batch"
  consider (read_error) e where "q = Inl e" "db_error e" "(r, t) = (Inl e, u)"
    | (write_error) e where "p = Inl e" "db_error e" "(r, t) = (Inl e, v)"
    | (stored) "p = Inr ()"
        "import_batches symbol interval batches (fst counts + (length batch - ?n), snd counts + ?n) v = (r, t)"
        "pending_rows v = fold upsert_row (new_bars symbol interval batch) (pending_rows s)" "market_table_ok (pending_rows v)"
    using Cons.prems(1) found upsert read wrote(2) known_card[OF batch, of symbol interval "pending_rows s"]
    by (auto simp: act_bind_def act_then_def split: sum.splits)
  then show ?case
  proof cases
    case stored
    have n: "known symbol interval (pending_rows v) (concat batches) = known symbol interval (pending_rows s) (concat batches)"
      unfolding stored(3) by (rule known_fold) (use Cons.prems(2) in simp)
    show ?thesis
      using Cons.IH[OF stored(2) rest stored(4)] read(1) wrote(1) known_le[of symbol interval "pending_rows s" batch]
        known_le[of symbol interval "pending_rows s" "concat batches"]
      by (auto simp: n stored(3)[symmetric] known_append new_bars_append)
  qed (use read(1) wrote(1) in auto)
qed

lemma in_transaction_effect:
  assumes run: "in_transaction m s = (r, t)" and body: "m (s\<lparr>pending_rows := table_rows s\<rparr>) = (q, u)"
    and "table_rows u = table_rows s"
  shows "(\<exists>e. q = Inl e \<and> r = Inl e \<and> table_rows t = table_rows s) \<or>
    (\<exists>x. q = Inr x \<and>
       (r = Inr x \<and> table_rows t = pending_rows u \<or>
        (\<exists>e. r = Inl e \<and> db_error e) \<and> (table_rows t = table_rows s \<or> table_rows t = pending_rows u)))"
proof (cases q)
  case (Inl e)
  then show ?thesis
    using assms
    by (auto simp: in_transaction_def begin_transaction_def act_then_def act_bind_def act_catch_def db_rollback_def)
next
  case (Inr x)
  obtain p v where c: "commit_transaction u = (p, v)" by (meson surj_pair)
  have "p = Inr () \<and> table_rows v = pending_rows u \<or>
      (\<exists>e. p = Inl e \<and> db_error e) \<and> (table_rows v = table_rows s \<or> table_rows v = pending_rows u)"
    using commit_rows[OF c[unfolded commit_transaction_def]] assms(3) by auto
  then show ?thesis
    using run body Inr c
    by (auto simp: in_transaction_def begin_transaction_def act_then_def act_bind_def act_catch_def db_rollback_def)
qed

definition imported :: "string \<Rightarrow> string \<Rightarrow> import_row list \<Rightarrow> market_data_row list \<Rightarrow> market_data_row list \<Rightarrow> bool" where
  \<comment> \<open>the second table is the first one overridden by the new bars\<close>
  "imported symbol interval rows before after \<longleftrightarrow>
     market_table_ok after \<and> price_table after = price_table before ++ price_table (new_bars symbol interval rows)"

lemma imported_fold:
  assumes "distinct (map ir_timestamp rows)" "market_table_ok (fold upsert_row (new_bars symbol interval rows) stored)"
  shows "imported symbol interval rows stored (fold upsert_row (new_bars symbol interval rows) stored)"
  using assms price_table_fold[OF new_bars_distinct] by (simp add: imported_def)

lemma import_rows_effect:
  assumes run: "import_rows symbol interval n parsed s = (r, t)" and "0 < n" and ok: "market_table_ok (table_rows s)"
    and distinct: "distinct (map ir_timestamp (ps_rows parsed))"
  shows "(\<exists>e. r = Inl e \<and> db_error e) \<and>
      (table_rows t = table_rows s \<or> imported symbol interval (ps_rows parsed) (table_rows s) (table_rows t)) \<or>
    (\<exists>c. r = Inr c \<and> imported symbol interval (ps_rows parsed) (table_rows s) (table_rows t) \<and>
      im_inserted_rows c + im_updated_rows c = length (ps_rows parsed) \<and>
      im_updated_rows c = known symbol interval (table_rows s) (ps_rows parsed) \<and>
      im_total_symbol_rows c = length (of_symbol symbol interval (table_rows t)))"
proof -
  let ?rows = "ps_rows parsed"
  let ?batches = "batched (nat n) ?rows"
  let ?import = "import_batches symbol interval ?batches (0, 0)"
  have concat: "concat ?batches = ?rows"
    by (rule concat_batched) (use assms(2) in simp)
  obtain q u where body: "?import (s\<lparr>pending_rows := table_rows s\<rparr>) = (q, u)" by (meson surj_pair)
  note effect = import_batches_effect[OF body, unfolded concat, OF distinct]
  obtain p v where txn: "in_transaction ?import s = (p, v)" by (meson surj_pair)
  have kept: "table_rows u = table_rows s"
    using effect ok by simp
  have after: "(\<exists>e. p = Inl e \<and> db_error e) \<and> (table_rows v = table_rows s \<or> imported symbol interval ?rows (table_rows s) (table_rows v)) \<or>
      p = Inr (length ?rows - known symbol interval (table_rows s) ?rows, known symbol interval (table_rows s) ?rows) \<and>
        imported symbol interval ?rows (table_rows s) (table_rows v)"
    using in_transaction_effect[OF txn body kept] effect ok imported_fold[OF distinct, of symbol interval "table_rows s"] by auto
  obtain p1 v1 where q1: "db_execute (\<lambda>rows. extreme min (of_symbol symbol interval rows)) v = (p1, v1)" by (meson surj_pair)
  obtain p2 v2 where q2: "db_execute (\<lambda>rows. extreme max (of_symbol symbol interval rows)) v1 = (p2, v2)" by (meson surj_pair)
  obtain p3 v3 where q3: "db_execute (\<lambda>rows. length (of_symbol symbol interval rows)) v2 = (p3, v3)" by (meson surj_pair)
  note queries = execute_rows[OF q1] execute_rows[OF q2] execute_rows[OF q3]
  show ?thesis
    using run txn q1 q2 q3 after queries known_le[of symbol interval "table_rows s" ?rows]
    by (auto simp: import_rows_def act_bind_def split: sum.splits)
qed

lemma imported_loaded:
  assumes "imported symbol interval rows before after" "distinct (map ir_timestamp rows)"
  shows "row_to_bar ` set (new_bars symbol interval rows) \<subseteq> set (stored_bars after symbol interval)"
proof -
  have "x \<in> set after" if "x \<in> set (new_bars symbol interval rows)" for x
  proof -
    have "price_table (new_bars symbol interval rows) (market_data_pkey x) = Some x"
      unfolding price_table_def using new_bars_distinct[OF assms(2), of symbol interval] that
      by (intro map_of_is_SomeI) (auto simp: comp_def)
    then have "price_table after (market_data_pkey x) = Some x"
      using assms(1) by (simp add: imported_def)
    then show ?thesis
      unfolding price_table_def by (auto dest: map_of_SomeD)
  qed
  then show ?thesis
    by (fastforce simp: stored_bars_def new_bars_def as_database_values_def)
qed

text \<open>
  C33. An import replaces bars exactly and as a whole: whatever the database does, the table either
  stays as it was or becomes the old table overridden, key by key, with the accepted rows of the
  file rounded to the columns' precision, whatever the batch size; the constraints hold in both
  cases. A success has overridden the table and reports how many rows were new and how many
  replaced, and every accepted row is among the bars the backtester loads.
\<close>

theorem import_overrides_table:
  assumes "import_market_csv is_file path records symbol interval batch_size s = (r, t)"
    and "market_table_ok (table_rows s)"
  shows "market_table_ok (table_rows t) \<and>
    (table_rows t = table_rows s \<or>
      (\<exists>st. parse_market_csv records = Inr st \<and>
        price_table (table_rows t) = price_table (table_rows s) ++ price_table (new_bars symbol interval (ps_rows st)))) \<and>
    (case r of
       Inl e \<Rightarrow> (\<exists>m. e = ValueError m) \<and> t = s \<or> db_error e
     | Inr c \<Rightarrow> \<exists>st. parse_market_csv records = Inr st \<and>
         price_table (table_rows t) = price_table (table_rows s) ++ price_table (new_bars symbol interval (ps_rows st)) \<and>
         im_inserted_rows c + im_updated_rows c = length (ps_rows st) \<and>
         im_updated_rows c = known symbol interval (table_rows s) (ps_rows st) \<and>
         im_total_symbol_rows c = length (stored_bars (table_rows t) symbol interval) \<and>
         row_to_bar ` set (new_bars symbol interval (ps_rows st)) \<subseteq> set (stored_bars (table_rows t) symbol interval))"
proof -
  have total: "length (of_symbol symbol interval rows) = length (stored_bars rows symbol interval)" for rows
    by (simp add: of_symbol_def stored_bars_def)
  show ?thesis
  proof (cases "check_arguments is_file path symbol interval batch_size")
    case (Inl e)
    then have "\<exists>m. e = ValueError m"
      by (auto simp: check_arguments_def split: if_splits)
    then show ?thesis
      using assms Inl by (auto simp: import_market_csv_def act_bind_def)
  next
    case (Inr x)
    then have n: "0 < batch_size"
      by (auto simp: check_arguments_def split: if_splits)
    show ?thesis
    proof (cases "parse_market_csv records")
      case (Inl e)
      then have "\<exists>m. e = ValueError m"
        using parse_market_csv_cases[of records] by (auto split: if_splits)
      then show ?thesis
        using assms Inl Inr by (auto simp: import_market_csv_def act_bind_def)
    next
      case parsed: (Inr st)
      then have d: "distinct (map ir_timestamp (ps_rows st))"
        using parse_market_csv_cases[of records] by (auto simp: parsed_ok_def split: if_splits)
      obtain q u where body: "import_rows symbol interval batch_size st s = (q, u)" by (meson surj_pair)
      note effect = import_rows_effect[OF body n assms(2) d]
      have "table_rows t = table_rows u" "r = q"
        using assms(1) Inr parsed body
        by (auto simp: import_market_csv_def act_bind_def act_catch_def act_then_def db_rollback_def split: sum.splits if_splits)
      then show ?thesis
        using effect parsed imported_loaded[OF _ d] assms(2) by (auto simp: imported_def total)
    qed
  qed
qed

definition stored_bar :: market_data_row where
  "stored_bar =
     \<lparr>md_symbol = ''SPY'', md_interval = ''1d'', md_timestamp = midnight 738887, md_open_price = 9, md_high_price = 9,
      md_low_price = 9, md_close_price = 9, md_adjusted_close = None, md_volume = 1\<rparr>"

definition import_start :: import_session where
  "import_start =
     \<lparr>table_rows = [stored_bar], fault_schedule = [], needs_rollback = False, attributes_expired = False, pending_rows = []\<rparr>"

theorem import_overrides_table_witness:
  "\<exists>c. fst (import_market_csv True ''spy.csv'' sample_csv ''SPY'' ''1d'' 1 import_start) = Inr c \<and>
     im_inserted_rows c = 1 \<and> im_updated_rows c = 1 \<and>
     im_total_symbol_rows c = length (stored_bars
       (table_rows (snd (import_market_csv True ''spy.csv'' sample_csv ''SPY'' ''1d'' 1 import_start))) ''SPY'' ''1d'')"
proof -
  let ?run = "import_market_csv True ''spy.csv'' sample_csv ''SPY'' ''1d'' 1 import_start"
  have ok: "market_table_ok (table_rows import_start)"
    by code_simp
  have "case fst ?run of Inl _ \<Rightarrow> False | Inr c \<Rightarrow> im_inserted_rows c = 1 \<and> im_updated_rows c = 1"
    by code_simp
  then obtain c where c: "fst ?run = Inr c" "im_inserted_rows c = 1" "im_updated_rows c = 1"
    by (cases "fst ?run") simp_all
  then have "?run = (Inr c, snd ?run)"
    by (metis prod.collapse)
  from import_overrides_table[OF this ok] c show ?thesis by auto
qed

end
