(* ===== verification/Strategy_Provider.thy ===== *)
theory Strategy_Provider
  imports Preview_Job_Service
begin

text \<open>
  The adapter to the language model (\<open>OpenAIResponsesProvider\<close> of \<open>app/services/strategy_parser.py\<close>):
  how an answer, a refusal or an exception of the SDK becomes a draft or a parser error, and the
  parser that the worker builds from the settings. The SDK is a parameter: whether it can be
  imported, and what one call of \<open>responses.parse\<close> does.
\<close>

datatype sdk_outcome =
    SdkTimeout                                             \<comment> \<open>the built-in \<open>TimeoutError\<close>\<close>
  | SdkException (sdk_class: string) (sdk_message: string)
  | SdkAnswer (sdk_draft: "strategy_parse_draft option") (sdk_dump: json)

record openai_sdk =
  sdk_installed :: bool
  sdk_parse :: "string \<Rightarrow> string \<Rightarrow> string \<Rightarrow> sdk_outcome"

definition json_get :: "string \<Rightarrow> json \<Rightarrow> json option" where
  \<comment> \<open>\<open>get\<close> of a dict, nothing for other values\<close>
  "json_get name doc = (case doc of JObj entries \<Rightarrow> map_of entries name | _ \<Rightarrow> None)"

definition refusal_part :: "json \<Rightarrow> bool" where
  "refusal_part part \<longleftrightarrow> json_get ''type'' part = Some (JStr ''refusal'')"

definition refusal_item :: "json \<Rightarrow> bool" where
  "refusal_item item \<longleftrightarrow> (case json_get ''content'' item of Some (JList parts) \<Rightarrow> list_ex refusal_part parts | _ \<Rightarrow> False)"

definition response_contains_refusal :: "json \<Rightarrow> bool" where
  "response_contains_refusal response \<longleftrightarrow>
     (case json_get ''output'' response of Some (JList items) \<Rightarrow> list_ex refusal_item items | _ \<Rightarrow> False)"

definition provider_error_message :: "environment \<Rightarrow> string \<Rightarrow> string \<Rightarrow> string" where
  "provider_error_message env class_name message =
     (if env = LOCAL then ''The strategy parser provider returned '' @ class_name @ '': '' @ message
      else ''The strategy parser provider returned an error.'')"

definition TIMEOUT_MESSAGE :: string where
  "TIMEOUT_MESSAGE = ''The strategy parser timed out. Please try again.''"

definition provider_parse :: "environment \<Rightarrow> sdk_outcome \<Rightarrow> strategy_parse_draft result" where
  "provider_parse env outcome =
     (case outcome of
        SdkTimeout \<Rightarrow> Inl (StrategyProviderTimeoutError TIMEOUT_MESSAGE)
      | SdkException class_name message \<Rightarrow>
          if class_name = ''APITimeoutError'' then Inl (StrategyProviderTimeoutError TIMEOUT_MESSAGE)
          else Inl (StrategyProviderError (provider_error_message env class_name message))
      | SdkAnswer (Some draft) _ \<Rightarrow> Inr draft
      | SdkAnswer None dump \<Rightarrow>
          if response_contains_refusal dump
          then Inl (StrategyProviderRefusalError ''The strategy parser refused this request.'')
          else Inl (StrategyMalformedOutputError ''The strategy parser returned malformed structured output.''))"

definition openai_provider :: "environment \<Rightarrow> openai_sdk \<Rightarrow> string \<Rightarrow> string \<Rightarrow> string \<Rightarrow> strategy_parse_draft result" where
  \<comment> \<open>building the provider imports the SDK\<close>
  "openai_provider env sdk key model text =
     (if \<not> sdk_installed sdk then Inl (StrategyProviderError ''OpenAI SDK is not installed.'')
      else provider_parse env (sdk_parse sdk key model text))"

definition openai_parser :: "(decimal \<Rightarrow> string) \<Rightarrow> settings \<Rightarrow> openai_sdk \<Rightarrow> string \<Rightarrow> parsed_strategy_result result" where
  \<comment> \<open>\<open>OpenAIStrategyParser.from_settings().parse(text)\<close>\<close>
  "openai_parser str_decimal s sdk text =
     parse_strategy str_decimal (openai_provider (environment s) sdk) (openai_api_key s) (openai_model s) text"

subsection \<open>Failures of the provider\<close>

lemma validate_text_error: "validate_strategy_text f t = Inl e \<Longrightarrow> \<exists>m. e = StrategyValidationError m"
  by (auto simp: validate_strategy_text_def Let_def result_simps reject_phrases_def
      dest: extract_risk_controls_error split: option.splits)

definition fixed_parser_errors :: "py_error list" where
  "fixed_parser_errors =
     [StrategyParserError ''OPENAI_API_KEY is required to parse a strategy.'',
      StrategyParserError ''OPENAI_MODEL is required to parse a strategy.'',
      StrategyProviderError ''OpenAI SDK is not installed.'',
      StrategyProviderError ''The strategy parser provider returned an error.'',
      StrategyProviderTimeoutError TIMEOUT_MESSAGE,
      StrategyProviderRefusalError ''The strategy parser refused this request.'',
      StrategyMalformedOutputError ''The strategy parser returned malformed structured output.'']"

lemma provider_error_fixed:
  assumes "openai_provider env sdk key model text = Inl e"
  shows "e \<in> set fixed_parser_errors \<or>
    env = LOCAL \<and> (\<exists>c m. sdk_parse sdk key model text = SdkException c m \<and>
      e = StrategyProviderError (''The strategy parser provider returned '' @ c @ '': '' @ m))"
  using assms
  by (auto simp: openai_provider_def provider_parse_def provider_error_message_def fixed_parser_errors_def
      split: if_splits sdk_outcome.splits option.splits)

lemma provider_timeout_called:
  assumes "openai_provider env sdk key model text = Inl e" "provider_timeout e"
  shows "sdk_installed sdk \<and> (sdk_parse sdk key model text = SdkTimeout \<or> (\<exists>m. sdk_parse sdk key model text = SdkException ''APITimeoutError'' m))"
  using assms
  by (auto simp: openai_provider_def provider_parse_def provider_timeout_def split: if_splits sdk_outcome.splits option.splits)

text \<open>
  C34. Provider failures are handled, and hidden outside local development. A parse fails only with a
  message for the user about the text, with one of seven fixed errors, or, in the local environment
  alone, with a provider error that shows the class and the text of an exception the SDK raised; and
  the error that makes the queue retry a job is raised only when a call of the SDK timed out.
\<close>

theorem provider_failures_hidden:
  assumes "openai_parser f s sdk text = Inl e"
    and "\<And>key model d dump. sdk_parse sdk key model text = SdkAnswer (Some d) dump \<Longrightarrow> parse_draft_schema d"
  shows "((\<exists>m. e = StrategyValidationError m) \<or> e \<in> set fixed_parser_errors \<or>
      environment s = LOCAL \<and> (\<exists>key model c m. openai_api_key s = Some key \<and> openai_model s = Some model \<and>
        sdk_parse sdk key model text = SdkException c m \<and>
        e = StrategyProviderError (''The strategy parser provider returned '' @ c @ '': '' @ m))) \<and>
    (provider_timeout e \<longrightarrow> (\<exists>key model. openai_api_key s = Some key \<and> openai_model s = Some model \<and> sdk_installed sdk \<and>
       (sdk_parse sdk key model text = SdkTimeout \<or> (\<exists>m. sdk_parse sdk key model text = SdkException ''APITimeoutError'' m))))"
proof -
  consider (invalid) m where "e = StrategyValidationError m"
    | (unconfigured) "e \<in> set fixed_parser_errors" "\<not> provider_timeout e"
    | (provider) key model where "openai_api_key s = Some key" "openai_model s = Some model"
        "openai_provider (environment s) sdk key model text = Inl e"
    | (draft) key model d where "openai_provider (environment s) sdk key model text = Inr d"
        "normalize_strategy_draft f d text = Inl e"
    using assms(1) validate_text_error[of f _ e]
    by (fastforce simp: openai_parser_def parse_strategy_def result_simps fixed_parser_errors_def provider_timeout_def
        split: option.splits if_splits)
  then show ?thesis
  proof cases
    case invalid
    then show ?thesis by (simp add: provider_timeout_def)
  next
    case unconfigured
    then show ?thesis by blast
  next
    case provider
    then show ?thesis
      using provider_error_fixed[OF provider(3)] provider_timeout_called[OF provider(3)] provider(1,2) by blast
  next
    case draft
    then have "parse_draft_schema d"
      using assms(2) by (auto simp: openai_provider_def provider_parse_def split: if_splits sdk_outcome.splits option.splits)
    then show ?thesis
      using normalize_draft_error[OF draft(2)] by (auto simp: provider_timeout_def)
  qed
qed

definition failing_sdk :: openai_sdk where
  "failing_sdk = \<lparr>sdk_installed = True, sdk_parse = (\<lambda>_ _ _. SdkException ''RateLimitError'' ''secret request id'')\<rparr>"

theorem provider_failures_hidden_witness:
  "\<exists>e. openai_parser (\<lambda>_. []) (default_settings\<lparr>environment := PRODUCTION, openai_api_key := Some ''k'', openai_model := Some ''m''\<rparr>)
      failing_sdk ''golden cross'' = Inl e \<and> e \<in> set fixed_parser_errors"
proof -
  let ?s = "default_settings\<lparr>environment := PRODUCTION, openai_api_key := Some ''k'', openai_model := Some ''m''\<rparr>"
  have run: "openai_parser (\<lambda>_. []) ?s failing_sdk ''golden cross'' =
      Inl (StrategyProviderError ''The strategy parser provider returned an error.'')"
    by code_simp
  from provider_failures_hidden[OF run] show ?thesis
    unfolding run by (auto simp: failing_sdk_def)
qed

end
