(* ===== verification/Sma_Backtest.thy ===== *)
theory Sma_Backtest
  imports Preview_Properties
begin

text \<open>
  The command-line backtest of the moving-average crossover (\<open>app/scripts/run_sma_backtest.py\<close>): the
  run over the stored bars, its result (\<open>BacktestResult\<close> of \<open>app/backtesting/models.py\<close>) and the printed
  report. The rendering of times is the parameter of \<open>text_format\<close>; amounts are formatted here.
\<close>

subsection \<open>The run\<close>

record backtest_result =
  br_symbol :: string
  br_interval :: string
  br_data_start_timestamp :: timestamp
  br_data_end_timestamp :: timestamp
  br_bar_count :: nat
  br_first_sma_timestamp :: timestamp
  br_starting_cash :: decimal
  br_execution :: execution_result
  br_metrics :: backtest_metrics

definition sma_specification :: "string \<Rightarrow> string \<Rightarrow> int \<Rightarrow> int \<Rightarrow> strategy_specification result" where
  \<comment> \<open>\<open>StrategySpecification.model_validate\<close> of the dictionary\<close>
  "sma_specification symbol interval short_window long_window =
     construct spec_schema
       \<lparr>spec_version = ''1.0'', spec_symbol = symbol, spec_interval = interval,
        spec_entry = \<lparr>cond_left = IndicatorOperand SMA ''close'' short_window, cond_operator = CROSSES_ABOVE,
                      cond_right = IndicatorOperand SMA ''close'' long_window\<rparr>,
        spec_exit = \<lparr>cond_left = IndicatorOperand SMA ''close'' short_window, cond_operator = CROSSES_BELOW,
                     cond_right = IndicatorOperand SMA ''close'' long_window\<rparr>,
        spec_execution = \<lparr>direction = ''long'', position_size_percent = 100, signal_execution = ''next_bar_open''\<rparr>,
        spec_stop_loss_percent = None, spec_take_profit_percent = None\<rparr>"

definition NOT_ENOUGH_BARS :: py_error where
  "NOT_ENOUGH_BARS = ValueError ''not enough bars to calculate both SMAs and execute a next-day signal''"

definition sma_result ::
    "(decimal \<Rightarrow> decimal \<Rightarrow> decimal result) \<Rightarrow> market_bar list \<Rightarrow> string \<Rightarrow> string \<Rightarrow> int \<Rightarrow> int \<Rightarrow> decimal \<Rightarrow>
     backtest_result result" where
  \<comment> \<open>\<open>run_sma_backtest\<close> after the query\<close>
  "sma_result dpow bars symbol interval short_window long_window starting_cash =
     res_bind (raise_if (int (length bars) \<le> long_window) NOT_ENOUGH_BARS) (\<lambda>_.
     res_bind (sma_specification symbol interval short_window long_window) (\<lambda>specification.
     res_bind (compile_strategy specification) (\<lambda>compiled.
     res_bind (generate_signals compiled bars) (\<lambda>signals.
     res_bind (execute_long_only_signals bars signals starting_cash None None) (\<lambda>execution.
     res_bind (calculate_metrics dpow bars (er_equity_curve execution) (er_completed_trades execution)
                 starting_cash (final_portfolio_value execution) (first_signal_eligible_index compiled bars)) (\<lambda>metrics.
     Inr \<lparr>br_symbol = symbol, br_interval = interval,
          br_data_start_timestamp = bar_timestamp (bars ! 0), br_data_end_timestamp = bar_timestamp (last bars),
          br_bar_count = length bars,
          br_first_sma_timestamp = bar_timestamp (bars ! nat (long_window - 1)),
          br_starting_cash = starting_cash, br_execution = execution, br_metrics = metrics\<rparr>))))))"

definition run_sma_backtest ::
    "(decimal \<Rightarrow> decimal \<Rightarrow> decimal result) \<Rightarrow> string \<Rightarrow> string \<Rightarrow> int \<Rightarrow> int \<Rightarrow> decimal \<Rightarrow>
     (market_data_row, 'z, backtest_result) db" where
  \<comment> \<open>leaving the \<open>with\<close> block closes the session, which ends its transaction\<close>
  "run_sma_backtest dpow symbol interval short_window long_window starting_cash =
     act_bind (act_lift (raise_if (long_window \<le> short_window)
                (ValueError ''short_window must be less than long_window''))) (\<lambda>_.
     act_bind (act_finally (load_market_bars symbol interval) db_rollback) (\<lambda>bars.
     act_lift (sma_result dpow bars symbol interval short_window long_window starting_cash)))"

subsection \<open>The report\<close>

definition hundredths :: "decimal \<Rightarrow> int" where
  \<comment> \<open>the magnitude with two places, halves to even\<close>
  "hundredths v = round_half_even (\<bar>v\<bar> * 100)"

definition minus_sign :: "decimal \<Rightarrow> string" where
  "minus_sign v = (if v < 0 then ''-'' else [])"

definition two_places :: "int \<Rightarrow> string" where
  "two_places n = CHR ''.'' # [digit_char (n mod 100 div 10), digit_char (n mod 10)]"

fun grouped :: "string \<Rightarrow> string" where
  \<comment> \<open>commas between groups of three, on the digits in reverse\<close>
  "grouped (a # b # c # d # ds) = a # b # c # CHR '','' # grouped (d # ds)"
| "grouped ds = ds"

definition format_money :: "decimal \<Rightarrow> string" where
  "format_money v =
     CHR ''$'' # minus_sign v @ rev (grouped (rev (string_of_int (hundredths v div 100)))) @ two_places (hundredths v)"

definition format_percentage :: "decimal option \<Rightarrow> string" where
  "format_percentage v =
     (case v of None \<Rightarrow> ''n/a''
      | Some x \<Rightarrow> minus_sign x @ string_of_int (hundredths x div 100) @ two_places (hundredths x) @ ''%'')"

definition format_trade :: "text_format \<Rightarrow> nat \<Rightarrow> completed_trade \<Rightarrow> string" where
  "format_trade tf index trade =
     join newline
       [''Trade '' @ string_of_int (int index),
        ''  Signal timestamp: '' @ tf_isoformat tf (t_signal_timestamp trade),
        ''  Entry timestamp: '' @ tf_isoformat tf (t_entry_timestamp trade),
        ''  Entry price: '' @ format_money (t_entry_price trade),
        ''  Quantity: '' @ string_of_int (t_quantity trade),
        ''  Exit signal timestamp: '' @
          (case t_exit_signal_timestamp trade of None \<Rightarrow> ''none'' | Some u \<Rightarrow> tf_isoformat tf u),
        ''  Exit timestamp: '' @ tf_isoformat tf (t_exit_timestamp trade),
        ''  Exit price: '' @ format_money (t_exit_price trade),
        ''  Profit/loss: '' @ format_money (t_profit_loss trade),
        ''  Return: '' @ format_percentage (Some (t_return_percentage trade)),
        ''  Exit reason: '' @ exit_reason_value (t_exit_reason trade)]"

definition format_result :: "text_format \<Rightarrow> backtest_result \<Rightarrow> string" where
  "format_result tf r =
     (let metrics = br_metrics r; execution = br_execution r; trades = er_completed_trades execution in
      join newline
        ([''Symbol: '' @ br_symbol r,
          ''Interval: '' @ br_interval r,
          ''Data start: '' @ tf_isoformat tf (br_data_start_timestamp r),
          ''Data end: '' @ tf_isoformat tf (br_data_end_timestamp r),
          ''Bars loaded: '' @ string_of_int (int (br_bar_count r)),
          ''First timestamp where both SMAs are available: '' @ tf_isoformat tf (br_first_sma_timestamp r),
          ''Starting cash: '' @ format_money (br_starting_cash r),
          ''Final portfolio value: '' @ format_money (final_portfolio_value execution),
          ''Total return: '' @ format_percentage (Some (total_return_percentage metrics)),
          ''Buy-and-hold window: buy at '' @ tf_isoformat tf (buy_and_hold_start_timestamp metrics) @
            '' open ('' @ format_money (buy_and_hold_start_price metrics) @ ''), value at final close ('' @
            format_money (buy_and_hold_end_price metrics) @ '')'',
          ''Buy-and-hold return: '' @ format_percentage (Some (buy_and_hold_return_percentage metrics)),
          ''Completed trades: '' @ string_of_int (int (length trades)),
          ''Win rate: '' @ format_percentage (Some (win_rate_percentage metrics)),
          ''Total realized profit/loss: '' @ format_money (total_realized_profit_loss execution),
          ''Maximum drawdown: '' @ format_percentage (Some (maximum_drawdown_percentage metrics)),
          ''CAGR: '' @ format_percentage (cagr_percentage metrics),
          ''Trades:''] @
         map (\<lambda>(index, trade). format_trade tf index trade) (zip [1..<1 + length trades] trades) @
         (if trades = [] then [''  No completed trades.''] else [])))"


record sma_arguments =
  arg_symbol :: string
  arg_interval :: string
  arg_short_window :: int
  arg_long_window :: int
  arg_starting_cash :: decimal

definition default_arguments :: sma_arguments where
  "default_arguments =
     \<lparr>arg_symbol = ''SPY'', arg_interval = ''1d'', arg_short_window = 50, arg_long_window = 200,
      arg_starting_cash = 10000\<rparr>"

definition sma_main ::
    "text_format \<Rightarrow> (decimal \<Rightarrow> decimal \<Rightarrow> decimal result) \<Rightarrow> sma_arguments \<Rightarrow>
     (market_data_row, 'z, string \<times> int) db" where
  \<comment> \<open>what \<open>main\<close> prints and returns\<close>
  "sma_main tf dpow args =
     act_bind (run_sma_backtest dpow (arg_symbol args) (arg_interval args) (arg_short_window args)
                 (arg_long_window args) (arg_starting_cash args)) (\<lambda>r.
     act_return (format_result tf r, 0))"

subsection \<open>Agreement with the preview\<close>

lemma sma_specification_simps:
  "sma_specification ''SPY'' ''1d'' short long = Inr (sma_crossover_spec short long)"
  "symbol \<noteq> ''SPY'' \<or> interval \<noteq> ''1d'' \<Longrightarrow> sma_specification symbol interval short long = Inl (ValidationError '''')"
  by (auto simp: sma_specification_def construct_def spec_schema_def sma_crossover_spec_def sma_operand_def
      condition_schema_def operand_schema_def execution_schema_def percent_field_schema_def)

lemma sma_compiles:
  assumes "1 \<le> short" "short < long" "long \<le> 1000"
  shows "compile_strategy (sma_crossover_spec short long) = Inr (sma_crossover_spec short long)"
  using assms
  by (simp add: compile_Inr_iff validate_semantics_iff sma_crossover_spec_def sma_operand_def condition_ok_def operand_ok_def
      operand_schema_def execution_schema_def percent_field_schema_def)

lemma sma_eligible:
  assumes "1 \<le> short" "short < long"
  shows "first_signal_eligible_index (sma_crossover_spec short long) bars = long"
  using assms
  by (simp add: first_signal_eligible_index_def sma_crossover_spec_def sma_operand_def condition_first_eligible_index_def
      operand_first_evaluable_index_def is_crossover_def)

lemma sma_spec_fields:
  "spec_symbol (sma_crossover_spec short long) = ''SPY''" "spec_interval (sma_crossover_spec short long) = ''1d''"
  "spec_stop_loss_percent (sma_crossover_spec short long) = None"
  "spec_take_profit_percent (sma_crossover_spec short long) = None"
  by (simp_all add: sma_crossover_spec_def)

lemma metrics_curve:
  assumes "calculate_metrics dpow bars curve trades starting_cash v i = Inr m"
  obtains bh where "calculate_buy_and_hold_equity_curve bars starting_cash i = Inr bh"
  using assms unfolding calculate_metrics_def Let_def res_bind_Inr_iff by blast

definition same_run :: "strategy_preview \<Rightarrow> backtest_result \<Rightarrow> bool" where
  "same_run pv r \<longleftrightarrow>
     br_execution r = pv_execution pv \<and> br_metrics r = pv_metrics pv \<and> br_bar_count r = pv_bar_count pv \<and>
     br_data_start_timestamp r = pv_start_timestamp pv \<and> br_data_end_timestamp r = pv_end_timestamp pv"

lemma sma_result_matches:
  assumes "1 \<le> short" "short < long" "long \<le> 1000"
  shows "case preview_of_bars tf dpow bars (sma_crossover_spec short long) (sma_crossover_spec short long) parsed of
      Inr pv \<Rightarrow> \<exists>r. sma_result dpow bars ''SPY'' ''1d'' short long STARTING_CASH = Inr r \<and> same_run pv r
    | Inl e \<Rightarrow> sma_result dpow bars ''SPY'' ''1d'' short long STARTING_CASH =
        Inl (if int (length bars) \<le> long then NOT_ENOUGH_BARS else e) \<and> (int (length bars) \<le> long \<longrightarrow> \<not> db_error e)"
proof -
  note simps = preview_of_bars_def sma_result_def sma_compiles[OF assms] sma_spec_fields
    sma_eligible[OF assms(1,2)] sma_specification_simps(1)
  show ?thesis
  proof (cases "int (length bars) \<le> long")
    case True
    then show ?thesis using assms by (simp add: simps Let_def db_error_def)
  next
    case False
    then have n: "bars \<noteq> []" using assms by auto
    then show ?thesis
      using assms(2) False metrics_curve[of dpow bars _ _ STARTING_CASH _ long]
      by (fastforce simp: simps Let_def same_run_def res_bind_def raise_if_def split: sum.split)
  qed
qed

text \<open>
  C37. The command line and the preview service compute the same backtest: for windows that the
  compiler accepts and the service's starting cash, the script returns the execution, the metrics and
  the range of the data of the preview of the crossover specification whenever the preview
  succeeds, and fails when it fails, with the same error up to the message about missing bars; an error
  of the database is the same in both.
\<close>

theorem sma_backtest_matches_preview:
  assumes "1 \<le> short" "short < long" "long \<le> 1000"
  shows "case fst (create_specification_preview tf dpow (sma_crossover_spec short long) parsed s) of
      Inr pv \<Rightarrow> \<exists>r. fst (run_sma_backtest dpow ''SPY'' ''1d'' short long STARTING_CASH s) = Inr r \<and> same_run pv r
    | Inl e \<Rightarrow> fst (run_sma_backtest dpow ''SPY'' ''1d'' short long STARTING_CASH s) =
        Inl (if \<not> db_error e \<and> int (length (stored_bars (table_rows s) ''SPY'' ''1d'')) \<le> long
             then NOT_ENOUGH_BARS else e)"
proof -
  let ?bars = "stored_bars (table_rows s) ''SPY'' ''1d''"
  obtain q u where load: "load_market_bars ''SPY'' ''1d'' s = (q, u)" by (meson surj_pair)
  have preview: "fst (create_specification_preview tf dpow (sma_crossover_spec short long) parsed s) =
      (case q of Inl e \<Rightarrow> Inl e
       | Inr bars \<Rightarrow> preview_of_bars tf dpow bars (sma_crossover_spec short long) (sma_crossover_spec short long) parsed)"
    by (cases q) (simp_all add: create_specification_preview_def act_bind_def sma_compiles[OF assms] sma_spec_fields load)
  have script: "fst (run_sma_backtest dpow ''SPY'' ''1d'' short long STARTING_CASH s) =
      (case q of Inl e \<Rightarrow> Inl e | Inr bars \<Rightarrow> sma_result dpow bars ''SPY'' ''1d'' short long STARTING_CASH)"
    using assms(2)
    by (cases q) (simp_all add: run_sma_backtest_def act_bind_def act_finally_def db_rollback_def raise_if_def load)
  show ?thesis
    unfolding preview script
    using load_outcome(2)[OF load] sma_result_matches[OF assms, where tf = tf and dpow = dpow and bars = ?bars and parsed = parsed]
    by (auto split: sum.splits)
qed

theorem sma_backtest_matches_preview_witness:
  "\<exists>r. fst (run_sma_backtest whole_power ''SPY'' ''1d'' 1 2 STARTING_CASH (market_session market_rows)) = Inr r \<and>
     same_run (the_preview market_rows) r"
  using sma_backtest_matches_preview[of 1 2, where tf = plain_format and dpow = whole_power
      and s = "market_session market_rows" and parsed = market_parsed]
    the_preview_run[OF market_previewed(1)]
  by (simp add: create_preview_def market_parsed_def sma_spec_fields)

end
