(* ===== verification/Report_Text.thy ===== *)
theory Report_Text
  imports Sma_Backtest Market_Import
begin

text \<open>
  The amounts of the printed report (\<open>format_money\<close> and \<open>format_percentage\<close> of
  \<open>app/scripts/run_sma_backtest.py\<close>) say what they stand for: read as decimals again, by the reader of
  the import, they are the amounts rounded to two places.
\<close>

lemma digit_char_facts:
  assumes "0 \<le> d" "d < 10"
  shows "is_digit (digit_char d)" "digit_value (digit_char d) = d"
  using assms by (auto simp: is_digit_def digit_char_def digit_value_def Let_def of_char_of nat_add_distrib)

lemma int_of_digits_append:
  "int_of_digits (ds @ es) = foldl (\<lambda>n c. 10 * n + digit_value c) (int_of_digits ds) es"
  by (simp add: int_of_digits_def)

lemma string_of_nonneg_digits:
  "0 \<le> n \<Longrightarrow> list_all is_digit (string_of_nonneg n) \<and> int_of_digits (string_of_nonneg n) = n \<and> string_of_nonneg n \<noteq> []"
proof (induction n rule: string_of_nonneg.induct)
  case (1 n)
  show ?case
  proof (cases "n < 10")
    case True
    then show ?thesis
      using 1 by (simp add: string_of_nonneg.simps[of n] digit_char_facts int_of_digits_def)
  next
    case False
    then show ?thesis
      using 1 by (simp add: string_of_nonneg.simps[of n] digit_char_facts int_of_digits_append)
  qed
qed

lemma string_of_int_digits:
  "0 \<le> n \<Longrightarrow> list_all is_digit (string_of_int n) \<and> int_of_digits (string_of_int n) = n \<and> string_of_int n \<noteq> []"
  using string_of_nonneg_digits[of n] by (simp add: string_of_int_def)

lemma ungroup: "list_all is_digit ds \<Longrightarrow> filter (\<lambda>c. c \<noteq> CHR '','') (grouped ds) = ds"
proof (induction ds rule: grouped.induct)
  case (1 a b c d ds)
  have "c \<noteq> CHR '',''" if "is_digit c" for c
    using that by (auto simp: is_digit_def)
  with 1 show ?case by simp
qed (auto simp: is_digit_def)

lemma digits_plain: "list_all is_digit ds \<Longrightarrow> filter (\<lambda>c. c \<noteq> CHR ''_'') ds = ds"
  by (induction ds) (auto simp: is_digit_def)

lemma split_sign_digits:
  assumes "list_all is_digit ds" "ds \<noteq> []"
  shows "split_sign (ds @ t) = (1, ds @ t)" "split_sign (CHR ''-'' # ds @ t) = (- 1, ds @ t)"
  using assms by (cases ds; auto simp: split_sign_def is_digit_def)+

lemma within_limits_plain:
  assumes "length ds \<le> 10 ^ 18" "length fs \<le> 10 ^ 18"
  shows "within_limits (ds @ fs) (- int (length fs))"
proof -
  have "length (dropWhile (\<lambda>c. c = CHR ''0'') (ds @ fs)) \<le> length ds + length fs"
    by (metis length_append length_dropWhile_le)
  then show ?thesis
    using assms by (simp add: within_limits_def MAX_EMAX_def Let_def)
qed

lemma exponent_decimal_plain:
  assumes "list_all is_digit ds" "ds \<noteq> []" "list_all is_digit fs" "length ds \<le> 10 ^ 18" "length fs \<le> 10 ^ 18"
  shows "exponent_decimal (ds @ CHR ''.'' # fs) = Some (of_int (int_of_digits (ds @ fs)) / 10 ^ length fs)"
proof -
  have whole: "takeWhile is_digit (ds @ CHR ''.'' # fs) = ds"
    using assms by (simp add: list_all_iff takeWhile_append2 is_digit_def)
  have fraction: "takeWhile is_digit fs = fs"
    using assms(3) by (simp add: list_all_iff takeWhile_eq_all_conv)
  show ?thesis
    using assms(2) within_limits_plain[OF assms(4,5)]
    by (simp add: exponent_decimal_def exponent_value_def scaled_def whole fraction Let_def)
qed

lemma special_number_digits: "list_all is_digit ds \<Longrightarrow> ds \<noteq> [] \<Longrightarrow> \<not> special_number (ds @ t)"
  by (cases ds) (auto simp: special_number_def str_lower_def Let_def)

lemma two_digits:
  assumes "0 \<le> a" "a < 10" "0 \<le> b" "b < 10"
  shows "list_all is_digit [digit_char a, digit_char b]"
    "foldl (\<lambda>m c. 10 * m + digit_value c) k [digit_char a, digit_char b] = 10 * (10 * k + a) + b"
  using assms by (simp_all add: digit_char_facts)

lemma two_places_digits:
  obtains fs where "two_places n = CHR ''.'' # fs" "list_all is_digit fs" "length fs = 2"
    "foldl (\<lambda>m c. 10 * m + digit_value c) (n div 100) fs = n"
proof -
  have range: "0 \<le> n mod 100 div 10" "n mod 100 div 10 < 10" "0 \<le> n mod 10" "n mod 10 < 10"
    by (simp_all add: pos_imp_zdiv_nonneg_iff)
  have sum: "10 * (10 * q + d) + m = n" if "q * 100 + r = n" "d * 10 + m = r" for q r d m :: int
    using that by simp
  have "n mod 100 mod 10 = n mod 10"
    by (simp add: mod_mod_cancel)
  with div_mult_mod_eq[of "n mod 100" 10] have "10 * (10 * (n div 100) + n mod 100 div 10) + n mod 10 = n"
    by (intro sum[OF div_mult_mod_eq]) (simp only:)
  then show thesis
    using that[OF two_places_def two_digits(1)[OF range]] two_digits(2)[OF range] by simp
qed

lemma amount_literal:
  assumes "0 \<le> n" "length (string_of_int (n div 100)) \<le> 10 ^ 18"
  shows "decimal_literal (minus_sign v @ string_of_int (n div 100) @ two_places n) =
    Some (Finite (if v < 0 then - (of_int n / 100) else of_int n / 100))"
proof -
  have ds: "list_all is_digit (string_of_int (n div 100))" "string_of_int (n div 100) \<noteq> []"
    "int_of_digits (string_of_int (n div 100)) = n div 100"
    using string_of_int_digits[of "n div 100"] assms(1) by (simp_all add: pos_imp_zdiv_nonneg_iff)
  obtain fs where fs: "two_places n = CHR ''.'' # fs" "list_all is_digit fs" "length fs = 2"
    "foldl (\<lambda>m c. 10 * m + digit_value c) (n div 100) fs = n"
    by (rule two_places_digits)
  show ?thesis
    using exponent_decimal_plain[OF ds(1,2) fs(2) assms(2)] fs(3,4) ds
    by (simp add: decimal_literal_def minus_sign_def fs(1) digits_plain[OF ds(1)] digits_plain[OF fs(2)]
        split_sign_digits special_number_digits int_of_digits_append)
qed

lemma hundredths_error: "\<bar>of_int (hundredths v) / 100 - \<bar>v\<bar>\<bar> \<le> 1 / 200" "0 \<le> hundredths v"
proof -
  show "\<bar>of_int (hundredths v) / 100 - \<bar>v\<bar>\<bar> \<le> 1 / 200"
    using round_half_even_error[of "\<bar>v\<bar> * 100"] unfolding hundredths_def by (simp add: abs_if split: if_splits)
  show "0 \<le> hundredths v"
    using round_half_even_mono[of 0 "\<bar>v\<bar> * 100"] by (simp add: hundredths_def round_half_even_def)
qed

text \<open>
  Printed amounts are exact to the cent: reading a printed amount of money without its currency
  sign and its commas, or a printed percentage without its sign, gives a number of at most two
  places that differs from the reported value by at most half of the last place. (The reader's limit
  on the exponent leaves out amounts of more than \<open>10 ^ 18\<close> characters.)
\<close>

lemma report_amounts_faithful:
  assumes "length (format_percentage (Some v)) \<le> 10 ^ 18"
  shows "\<exists>n. decimal_literal (filter (\<lambda>c. c \<noteq> CHR '','') (tl (format_money v))) = Some (Finite (of_int n / 100)) \<and>
     decimal_literal (butlast (format_percentage (Some v))) = Some (Finite (of_int n / 100)) \<and>
     \<bar>of_int n / 100 - v\<bar> \<le> 1 / 200"
proof -
  let ?h = "hundredths v"
  have ds: "list_all is_digit (string_of_int (?h div 100))"
    using string_of_int_digits[of "?h div 100"] hundredths_error(2)[of v] by (simp add: pos_imp_zdiv_nonneg_iff)
  have no_comma: "\<not> is_digit CHR '',''"
    by (simp add: is_digit_def)
  obtain fs where fs: "two_places ?h = CHR ''.'' # fs" "list_all is_digit fs"
    by (rule two_places_digits)
  have comma: "filter (\<lambda>c. c \<noteq> CHR '','') (minus_sign v) = minus_sign v" "filter (\<lambda>c. c \<noteq> CHR '','') (two_places ?h) = two_places ?h"
    using fs no_comma by (auto simp: minus_sign_def list_all_iff filter_id_conv)
  have "filter (\<lambda>c. c \<noteq> CHR '','') (tl (format_money v)) = minus_sign v @ string_of_int (?h div 100) @ two_places ?h"
    using ungroup[of "rev (string_of_int (?h div 100))"] ds by (simp add: format_money_def comma rev_filter[symmetric] list_all_rev)
  moreover have "butlast (format_percentage (Some v)) = minus_sign v @ string_of_int (?h div 100) @ two_places ?h"
    by (simp add: format_percentage_def butlast_append)
  moreover have "\<bar>of_int (if v < 0 then - ?h else ?h) / 100 - v\<bar> \<le> 1 / 200"
    using hundredths_error(1)[of v] by (auto simp: abs_if split: if_splits)
  moreover have "length (string_of_int (?h div 100)) \<le> 10 ^ 18"
    using assms by (simp add: format_percentage_def)
  ultimately show ?thesis
    using amount_literal[OF hundredths_error(2), of v v] by (intro exI[of _ "if v < 0 then - ?h else ?h"]) auto
qed

end
