(* ===== verification/Api_Access.thy ===== *)
theory Api_Access
  imports Strategy_Store Preview_Properties
begin

text \<open>
  The edge of the API: authentication by the identity service (\<open>app/services/supabase_auth.py\<close>,
  \<open>app/api/dependencies/auth.py\<close>), the routes of preview jobs (\<open>app/api/routes/jobs.py\<close> and
  \<open>preview_strategy\<close> of \<open>app/api/routes/strategies.py\<close>), and readiness (\<open>app/api/routes/health.py\<close>).
  The identity service is a function from a request to a response, or to nothing when the HTTP
  client fails; decoding its document is a parameter.
\<close>

subsection \<open>Authentication\<close>

record authenticated_user =
  au_id :: uuid
  au_email :: "string option"
  au_role :: string

record http_response =
  status_code :: int
  body :: string

record auth_client =
  http_get :: "string \<Rightarrow> (string \<times> string) list \<Rightarrow> http_response option"
  decode_user :: "string \<Rightarrow> authenticated_user result"
  client_url :: string
  client_key :: string

definition rstrip_slash :: "string \<Rightarrow> string" where
  "rstrip_slash t = rev (dropWhile (\<lambda>c. c = CHR ''/'') (rev t))"

definition user_url :: "auth_client \<Rightarrow> string" where
  "user_url c = rstrip_slash (client_url c) @ ''/auth/v1/user''"

definition is_success :: "int \<Rightarrow> bool" where
  "is_success code \<longleftrightarrow> 200 \<le> code \<and> code \<le> 299"

definition undecodable :: "py_error \<Rightarrow> bool" where
  \<comment> \<open>\<open>except (ValueError, ValidationError)\<close>\<close>
  "undecodable e = (case e of ValueError _ \<Rightarrow> True | ValidationError _ \<Rightarrow> True | _ \<Rightarrow> False)"

definition get_user :: "auth_client \<Rightarrow> string \<Rightarrow> authenticated_user result" where
  "get_user c access_token =
     (case http_get c (user_url c) [(''apikey'', client_key c), (''Authorization'', ''Bearer '' @ access_token)] of
        None \<Rightarrow> Inl AuthServiceUnavailableError
      | Some response \<Rightarrow>
          if status_code response = 401 \<or> status_code response = 403 then Inl InvalidAccessTokenError
          else if \<not> is_success (status_code response) then Inl AuthServiceUnavailableError
          else case decode_user c (body response) of
              Inl e \<Rightarrow> Inl (if undecodable e then AuthServiceUnavailableError else e)
            | Inr u \<Rightarrow> Inr u)"

definition unauthorized_exception :: py_error where
  "unauthorized_exception = HTTPException 401 ''Invalid or missing authentication credentials.''"

definition auth_unavailable :: py_error where
  "auth_unavailable = HTTPException 503 ''Authentication service is temporarily unavailable.''"

definition get_current_user :: "auth_client \<Rightarrow> string option \<Rightarrow> authenticated_user result" where
  "get_current_user c credentials =
     (case credentials of
        None \<Rightarrow> Inl unauthorized_exception
      | Some token \<Rightarrow>
          (case get_user c token of
             Inl InvalidAccessTokenError \<Rightarrow> Inl unauthorized_exception
           | Inl AuthServiceUnavailableError \<Rightarrow> Inl auth_unavailable
           | Inl e \<Rightarrow> Inl e
           | Inr u \<Rightarrow> Inr u))"

subsection \<open>Preview jobs\<close>

record preview_job_response =
  jr_id :: uuid
  jr_status :: job_status
  jr_stage :: job_stage
  jr_progress :: int
  jr_created_at :: timestamp
  jr_started_at :: "timestamp option"
  jr_completed_at :: "timestamp option"
  jr_error :: "string option"
  jr_preview_result :: "json option"

definition job_not_found :: py_error where
  "job_not_found = HTTPException 404 ''Preview job not found.''"

definition result_gone :: py_error where
  "result_gone = HTTPException 410 ''This preview result has expired. Run the preview again.''"

definition validated_result :: "(json \<Rightarrow> json result) \<Rightarrow> preview_job \<Rightarrow> json option result" where
  \<comment> \<open>the stored document is validated against the response model, a parameter\<close>
  "validated_result validate j =
     (case (pj_status j, pj_preview_result j) of
        (COMPLETED, Some doc) \<Rightarrow>
          (case validate doc of
             Inr d \<Rightarrow> Inr (Some d)
           | Inl e \<Rightarrow> Inl (case e of ValidationError _ \<Rightarrow> result_gone | _ \<Rightarrow> e))
      | _ \<Rightarrow> Inr None)"

definition job_response :: "preview_job \<Rightarrow> json option \<Rightarrow> preview_job_response" where
  "job_response j result =
     \<lparr>jr_id = pj_id j, jr_status = pj_status j, jr_stage = pj_stage j, jr_progress = pj_progress j,
      jr_created_at = pj_created_at j, jr_started_at = pj_started_at j, jr_completed_at = pj_completed_at j,
      jr_error = pj_error_message j, jr_preview_result = result\<rparr>"

definition get_preview_job :: "(json \<Rightarrow> json result) \<Rightarrow> uuid \<Rightarrow> uuid \<Rightarrow> (preview_job, 'z, preview_job_response) db" where
  "get_preview_job validate user_id job_id =
     act_bind (get_job job_id user_id) (\<lambda>r.
     case r of
       None \<Rightarrow> act_raise job_not_found
     | Some j \<Rightarrow> act_bind (act_lift (validated_result validate j)) (\<lambda>result. act_return (job_response j result)))"

definition queue_unavailable :: py_error where
  "queue_unavailable = HTTPException 503 ''Unable to queue the strategy preview.''"

definition preview_strategy ::
    "settings \<Rightarrow> 'z preview_session_scheme enqueue \<Rightarrow> timestamp \<Rightarrow> timestamp \<Rightarrow> uuid \<Rightarrow> uuid \<Rightarrow> string \<Rightarrow>
     ('z preview_session_scheme, uuid) action" where
  \<comment> \<open>the body has passed \<open>StrategySourceText\<close>\<close>
  "preview_strategy settings enqueue_job now later job_id user_id payload_text =
     act_catch (submit_preview_job settings enqueue_job now later job_id user_id payload_text None)
       (\<lambda>_. act_then db_rollback (act_raise queue_unavailable))"

subsection \<open>Readiness\<close>

definition failed_dependencies :: "(string \<times> unit result) list \<Rightarrow> string list" where
  "failed_dependencies checks = map fst (filter (\<lambda>(_, r). case r of Inl _ \<Rightarrow> True | Inr _ \<Rightarrow> False) checks)"

definition ready :: "unit result \<Rightarrow> unit result \<Rightarrow> string result" where
  \<comment> \<open>both checks run, whatever the first one finds\<close>
  "ready check_database check_redis =
     (if failed_dependencies [(''postgresql'', check_database), (''redis'', check_redis)] \<noteq> []
      then Inl (HTTPException 503 ''Service dependencies are unavailable.'')
      else Inr ''ready'')"

subsection \<open>Who sees a job\<close>

definition authorized :: "auth_client \<Rightarrow> string option \<Rightarrow> (uuid \<Rightarrow> ('s, 'a) action) \<Rightarrow> ('s, 'a) action" where
  \<comment> \<open>a route that depends on \<open>CurrentUser\<close> and uses only its identifier\<close>
  "authorized c credentials route =
     act_bind (act_lift (get_current_user c credentials)) (\<lambda>u. route (au_id u))"

lemma current_user_Inr:
  assumes "get_current_user c credentials = Inr u"
  obtains token response where "credentials = Some token"
    "http_get c (user_url c) [(''apikey'', client_key c), (''Authorization'', ''Bearer '' @ token)] = Some response"
    "is_success (status_code response)" "decode_user c (body response) = Inr u"
  using assms
  by (auto simp: get_current_user_def get_user_def split: option.splits sum.splits py_error.splits if_splits)

lemma get_job_owner:
  assumes "get_job job_id user_id s = (Inr (Some j), t)" "store_ok (table_rows s)"
  shows "find_job job_id (table_rows s) = Some j \<and> pj_user_id j = user_id \<and> table_rows t = table_rows s"
proof -
  have j: "List.find (\<lambda>j. pj_id j = job_id \<and> pj_user_id j = user_id) (table_rows s) = Some j" "table_rows t = table_rows s"
    using db_execute_cases[OF assms(1)[unfolded get_job_def]] by auto
  then have "j \<in> set (table_rows s)" "pj_id j = job_id" "pj_user_id j = user_id"
    by (auto simp: find_Some_iff)
  then show ?thesis
    using find_job_unique[of "table_rows s" j] assms(2) j(2) by (auto simp: store_ok_def)
qed

text \<open>
  C31. A preview job is shown only to its owner: a response of the job route means that the identity
  service accepted the caller's token and named the user who owns the job, that the response
  describes the stored row, that a result is shown only for a completed job and only after
  validation, and that nothing was written.
\<close>

theorem job_shown_to_owner:
  assumes "authorized c credentials (\<lambda>user_id. request_session (get_preview_job validate user_id job_id)) s = (Inr resp, t)"
    and "store_ok (table_rows s)"
  shows "\<exists>token response (u :: authenticated_user) j result.
    credentials = Some token \<and>
    http_get c (user_url c) [(''apikey'', client_key c), (''Authorization'', ''Bearer '' @ token)] = Some response \<and>
    is_success (status_code response) \<and> decode_user c (body response) = Inr u \<and>
    find_job job_id (table_rows s) = Some j \<and> pj_user_id j = au_id u \<and> resp = job_response j result \<and>
    (\<forall>d. result = Some d \<longrightarrow> pj_status j = COMPLETED \<and> validate (the (pj_preview_result j)) = Inr d) \<and>
    table_rows t = table_rows s"
proof -
  obtain u where u: "get_current_user c credentials = Inr u"
    and route: "request_session (get_preview_job validate (au_id u) job_id) s = (Inr resp, t)"
    using assms(1) by (auto simp: authorized_def act_bind_def split: sum.splits)
  then have "get_preview_job validate (au_id u) job_id s = (Inr resp, t)"
    by (auto simp: request_session_def act_catch_def act_then_def act_bind_def db_rollback_def split: prod.splits sum.splits)
  then obtain j result where j: "get_job job_id (au_id u) s = (Inr (Some j), t)"
    and result: "validated_result validate j = Inr result" "resp = job_response j result"
    by (auto simp: get_preview_job_def act_bind_def split: prod.splits sum.splits option.splits)
  have "pj_status j = COMPLETED \<and> validate (the (pj_preview_result j)) = Inr d" if "result = Some d" for d
    using result(1) that by (auto simp: validated_result_def split: job_status.splits option.splits sum.splits)
  with current_user_Inr[OF u] get_job_owner[OF j assms(2)] result(2) show ?thesis
    by metis
qed

definition one_user_client :: auth_client where
  "one_user_client =
     \<lparr>http_get = (\<lambda>url headers. if (''Authorization'', ''Bearer secret'') \<in> set headers
                    then Some \<lparr>status_code = 200, body = ''7''\<rparr> else Some \<lparr>status_code = 401, body = []\<rparr>),
      decode_user = (\<lambda>_. Inr \<lparr>au_id = 1, au_email = None, au_role = ''authenticated''\<rparr>),
      client_url = ''https://project.supabase.co/'', client_key = ''anon''\<rparr>"

definition job_session :: preview_session where
  "job_session =
     \<lparr>table_rows = [new_job 0 7 1 ''golden cross'' None 24], fault_schedule = [], needs_rollback = False,
      attributes_expired = False, is_postgresql = True, lock_free = (\<lambda>_. True), attempt_time = (\<lambda>_. 0),
      lock_attempts = 0, locks_held = [], monotonic_clock = 0\<rparr>"

theorem job_shown_to_owner_witness:
  "\<exists>j (u :: authenticated_user). find_job 7 (table_rows job_session) = Some j \<and> pj_user_id j = au_id u \<and>
     fst (authorized one_user_client (Some ''secret'')
       (\<lambda>user_id. request_session (get_preview_job (\<lambda>_. Inl DivisionByZero) user_id 7)) job_session) = Inr (job_response j None)"
proof -
  let ?run = "authorized one_user_client (Some ''secret'')
       (\<lambda>user_id. request_session (get_preview_job (\<lambda>_. Inl DivisionByZero) user_id 7)) job_session"
  let ?j = "new_job 0 7 1 ''golden cross'' None 24"
  have "?run = (Inr (job_response ?j None), job_session)"
    by (simp add: authorized_def act_bind_def get_current_user_def get_user_def one_user_client_def is_success_def
        request_session_def act_catch_def get_preview_job_def get_job_def db_execute_def next_fault_def
        job_session_def new_job_def validated_result_def)
  note run = this
  have "store_ok (table_rows job_session)"
    by (simp add: job_session_def store_ok_def job_ok_def job_constraints_def new_job_def)
  from job_shown_to_owner[OF run this] obtain u :: authenticated_user and j :: preview_job and result where
    "find_job 7 (table_rows job_session) = Some j" "pj_user_id j = au_id u" "job_response ?j None = job_response j result"
    by blast
  moreover have "result = None"
    using calculation(3) by (simp add: job_response_def)
  ultimately show ?thesis
    unfolding run fst_conv by blast
qed

end
