(* ===== verification/Preview_Response.thy ===== *)
theory Preview_Response
  imports Api_Access
begin

text \<open>
  The response models of a preview (\<open>app/schemas/strategy.py\<close>) and of the specification in it
  (\<open>app/schemas/strategy_spec.py\<close>), read back from the JSON document that the worker stored. How Pydantic
  reads a number, a flag, a decimal or a time is a parameter; the models forbid unknown fields,
  require the fields without a default and accept exactly the listed literals.
\<close>

record reader =
  rd_decimal :: "json \<Rightarrow> decimal option"
  rd_datetime :: "json \<Rightarrow> timestamp option"
  rd_int :: "json \<Rightarrow> int option"
  rd_bool :: "json \<Rightarrow> bool option"

subsection \<open>Reading models\<close>

definition model_fields :: "string list \<Rightarrow> string list \<Rightarrow> json \<Rightarrow> (string \<Rightarrow> json option) option" where
  \<comment> \<open>the values of a model with the given required and defaulted fields, and \<open>extra="forbid"\<close>\<close>
  "model_fields required defaulted doc =
     (case doc of
        JObj entries \<Rightarrow>
          if list_all (\<lambda>k. map_of entries k \<noteq> None) required \<and>
             list_all (\<lambda>(k, _). k \<in> set required \<or> k \<in> set defaulted) entries
          then Some (map_of entries) else None
      | _ \<Rightarrow> None)"

definition field :: "(string \<Rightarrow> json option) \<Rightarrow> string \<Rightarrow> (json \<Rightarrow> 'a option) \<Rightarrow> ('a \<Rightarrow> 'b option) \<Rightarrow> 'b option" where
  "field values_of name rd k = Option.bind (Option.bind (values_of name) rd) k"

definition field_or :: "'a \<Rightarrow> (string \<Rightarrow> json option) \<Rightarrow> string \<Rightarrow> (json \<Rightarrow> 'a option) \<Rightarrow> ('a \<Rightarrow> 'b option) \<Rightarrow> 'b option" where
  \<comment> \<open>a field with a default\<close>
  "field_or dflt values_of name rd k =
     (case values_of name of None \<Rightarrow> k dflt | Some v \<Rightarrow> Option.bind (rd v) k)"

definition rd_str :: "json \<Rightarrow> string option" where
  "rd_str v = (case v of JStr t \<Rightarrow> Some t | _ \<Rightarrow> None)"

definition rd_literal :: "json \<Rightarrow> 'a \<Rightarrow> json \<Rightarrow> 'a option" where
  "rd_literal lit x v = (if v = lit then Some x else None)"

definition rd_optional :: "(json \<Rightarrow> 'a option) \<Rightarrow> json \<Rightarrow> 'a option option" where
  "rd_optional rd v = (if v = JNull then Some None else map_option Some (rd v))"

primrec all_some :: "'a option list \<Rightarrow> 'a list option" where
  "all_some [] = Some []"
| "all_some (x # xs) = (case x of None \<Rightarrow> None | Some a \<Rightarrow> map_option (Cons a) (all_some xs))"

definition rd_list :: "(json \<Rightarrow> 'a option) \<Rightarrow> json \<Rightarrow> 'a list option" where
  "rd_list rd v = (case v of JList vs \<Rightarrow> all_some (map rd vs) | _ \<Rightarrow> None)"

definition rd_enum :: "(string \<times> 'a) list \<Rightarrow> json \<Rightarrow> 'a option" where
  "rd_enum names v = Option.bind (rd_str v) (map_of names)"

subsection \<open>The specification\<close>

definition rd_strict_int :: "json \<Rightarrow> int option" where
  "rd_strict_int v = (case v of JInt n \<Rightarrow> Some n | _ \<Rightarrow> None)"

definition rd_indicator_name :: "json \<Rightarrow> indicator_name option" where
  "rd_indicator_name = rd_enum [(''sma'', SMA), (''ema'', EMA)]"

definition rd_operator :: "json \<Rightarrow> operator option" where
  "rd_operator = rd_enum
     [(''crosses_above'', CROSSES_ABOVE), (''crosses_below'', CROSSES_BELOW), (''greater_than'', GREATER_THAN),
      (''less_than'', LESS_THAN), (''greater_than_or_equal'', GREATER_THAN_OR_EQUAL),
      (''less_than_or_equal'', LESS_THAN_OR_EQUAL)]"

definition rd_close :: "json \<Rightarrow> string option" where
  "rd_close = rd_literal (JStr ''close'') ''close''"

definition rd_operand :: "reader \<Rightarrow> json \<Rightarrow> operand option" where
  \<comment> \<open>the union is told apart by its field \<open>type\<close>\<close>
  "rd_operand rd v =
     (case v of
        JObj entries \<Rightarrow>
          if map_of entries ''type'' = Some (JStr ''indicator'') then
            Option.bind (model_fields [''type'', ''name'', ''source'', ''period''] [] v) (\<lambda>f.
            field f ''name'' rd_indicator_name (\<lambda>name. field f ''source'' rd_close (\<lambda>src.
            field f ''period'' rd_strict_int (\<lambda>period. Some (IndicatorOperand name src period)))))
          else if map_of entries ''type'' = Some (JStr ''price'') then
            Option.bind (model_fields [''type'', ''source''] [] v) (\<lambda>f.
            field f ''source'' rd_close (\<lambda>src. Some (PriceOperand src)))
          else if map_of entries ''type'' = Some (JStr ''constant'') then
            Option.bind (model_fields [''type'', ''value''] [] v) (\<lambda>f.
            field f ''value'' (rd_decimal rd) (\<lambda>x. Some (ConstantOperand x)))
          else None
      | _ \<Rightarrow> None)"

definition rd_condition :: "reader \<Rightarrow> json \<Rightarrow> condition option" where
  "rd_condition rd v =
     Option.bind (model_fields [''left'', ''operator'', ''right''] [] v) (\<lambda>f.
     field f ''left'' (rd_operand rd) (\<lambda>l. field f ''operator'' rd_operator (\<lambda>op. field f ''right'' (rd_operand rd) (\<lambda>r.
     Some \<lparr>cond_left = l, cond_operator = op, cond_right = r\<rparr>))))"

definition rd_execution :: "json \<Rightarrow> execution_settings option" where
  "rd_execution v =
     Option.bind (model_fields [''direction'', ''position_size_percent'', ''signal_execution''] [] v) (\<lambda>f.
     field f ''direction'' (rd_literal (JStr ''long'') ''long'') (\<lambda>d.
     field f ''position_size_percent'' (rd_literal (JInt 100) 100) (\<lambda>p.
     field f ''signal_execution'' (rd_literal (JStr ''next_bar_open'') ''next_bar_open'') (\<lambda>e.
     Some \<lparr>direction = d, position_size_percent = p, signal_execution = e\<rparr>))))"

definition rd_percent :: "reader \<Rightarrow> json \<Rightarrow> decimal option option" where
  "rd_percent rd v =
     Option.bind (rd_optional (rd_decimal rd) v) (\<lambda>p. if percent_field_schema p then Some p else None)"

definition rd_specification :: "reader \<Rightarrow> json \<Rightarrow> strategy_specification option" where
  "rd_specification rd v =
     Option.bind (model_fields [''symbol'', ''interval'', ''entry'', ''exit'', ''execution'']
                    [''version'', ''stop_loss_percent'', ''take_profit_percent''] v) (\<lambda>f.
     field_or ''1.0'' f ''version'' (rd_literal (JStr ''1.0'') ''1.0'') (\<lambda>ver.
     field f ''symbol'' (rd_literal (JStr ''SPY'') ''SPY'') (\<lambda>sym.
     field f ''interval'' (rd_literal (JStr ''1d'') ''1d'') (\<lambda>int.
     field f ''entry'' (rd_condition rd) (\<lambda>en. field f ''exit'' (rd_condition rd) (\<lambda>ex.
     field f ''execution'' rd_execution (\<lambda>exe.
     field_or None f ''stop_loss_percent'' (rd_percent rd) (\<lambda>sl.
     field_or None f ''take_profit_percent'' (rd_percent rd) (\<lambda>tp.
     Some \<lparr>spec_version = ver, spec_symbol = sym, spec_interval = int, spec_entry = en, spec_exit = ex,
           spec_execution = exe, spec_stop_loss_percent = sl, spec_take_profit_percent = tp\<rparr>)))))))))"

definition rd_value :: "json \<Rightarrow> json option" where
  \<comment> \<open>the union of \<open>str\<close>, \<open>int\<close>, \<open>Decimal\<close>, \<open>bool\<close>, \<open>dict\<close> and \<open>list\<close>\<close>
  "rd_value v = (if v = JNull then None else Some v)"

definition rd_default :: "json \<Rightarrow> applied_default option" where
  "rd_default v =
     Option.bind (model_fields [''field'', ''value'', ''reason''] [] v) (\<lambda>f.
     field f ''field'' rd_str (\<lambda>nm. field f ''value'' rd_value (\<lambda>x. field f ''reason'' rd_str (\<lambda>r.
     Some \<lparr>ad_field = nm, ad_value = x, ad_reason = r\<rparr>))))"

definition rd_assumption :: "json \<Rightarrow> strategy_assumption option" where
  "rd_assumption v =
     Option.bind (model_fields [''field'', ''inferred_value'', ''reason'', ''confidence''] [''requires_confirmation''] v) (\<lambda>f.
     field f ''field'' rd_str (\<lambda>nm. field f ''inferred_value'' rd_value (\<lambda>x. field f ''reason'' rd_str (\<lambda>r.
     field f ''confidence'' (rd_enum [(''high'', HIGH), (''medium'', MEDIUM), (''low'', LOW)]) (\<lambda>c.
     field_or True f ''requires_confirmation'' (rd_literal (JBool True) True) (\<lambda>b.
     Some \<lparr>as_field = nm, as_inferred_value = x, as_reason = r, as_confidence = c, as_requires_confirmation = b\<rparr>))))))"

subsection \<open>The response\<close>

record parsed_strategy_review =
  rv_specification :: strategy_specification
  rv_defaults_applied :: "applied_default list"
  rv_assumptions :: "strategy_assumption list"
  rv_requires_confirmation :: bool
  rv_original_text :: string
  rv_interpretation :: string

definition from_parsed_result :: "parsed_strategy_result \<Rightarrow> string \<Rightarrow> parsed_strategy_review" where
  "from_parsed_result r interpretation =
     \<lparr>rv_specification = pr_specification r, rv_defaults_applied = pr_defaults_applied r,
      rv_assumptions = pr_assumptions r, rv_requires_confirmation = pr_requires_confirmation r,
      rv_original_text = pr_original_text r, rv_interpretation = interpretation\<rparr>"

record equity_comparison_point =
  cm_timestamp :: timestamp
  cm_strategy_value :: decimal
  cm_buy_and_hold_value :: decimal

record price_series_point =
  pp_timestamp :: timestamp
  pp_close_price :: decimal

record backtest_preview_response =
  bp_symbol :: string
  bp_interval :: string
  bp_start_date :: timestamp
  bp_end_date :: timestamp
  bp_bar_count :: int
  bp_starting_cash :: decimal
  bp_ending_value :: decimal
  bp_total_return_percent :: decimal
  bp_cagr_percent :: "decimal option"
  bp_max_drawdown_percent :: decimal
  bp_trade_count :: int
  bp_win_rate_percent :: decimal
  bp_buy_and_hold_return_percent :: decimal
  bp_equity_curve :: "equity_comparison_point list"
  bp_price_series :: "price_series_point list"
  bp_trades :: "completed_trade list"

record strategy_preview_response =
  sp_parsed_strategy :: parsed_strategy_review
  sp_backtest :: backtest_preview_response

definition rd_review :: "reader \<Rightarrow> json \<Rightarrow> parsed_strategy_review option" where
  "rd_review rd v =
     Option.bind (model_fields [''specification'', ''defaults_applied'', ''assumptions'', ''requires_confirmation'',
                    ''original_text'', ''interpretation''] [] v) (\<lambda>f.
     field f ''specification'' (rd_specification rd) (\<lambda>spec.
     field f ''defaults_applied'' (rd_list rd_default) (\<lambda>ds.
     field f ''assumptions'' (rd_list rd_assumption) (\<lambda>as.
     field f ''requires_confirmation'' (rd_bool rd) (\<lambda>b.
     field f ''original_text'' rd_str (\<lambda>t. field f ''interpretation'' rd_str (\<lambda>i.
     Some \<lparr>rv_specification = spec, rv_defaults_applied = ds, rv_assumptions = as, rv_requires_confirmation = b,
           rv_original_text = t, rv_interpretation = i\<rparr>)))))))"

definition rd_comparison_point :: "reader \<Rightarrow> json \<Rightarrow> equity_comparison_point option" where
  "rd_comparison_point rd v =
     Option.bind (model_fields [''timestamp'', ''strategy_value'', ''buy_and_hold_value''] [] v) (\<lambda>f.
     field f ''timestamp'' (rd_datetime rd) (\<lambda>u. field f ''strategy_value'' (rd_decimal rd) (\<lambda>x.
     field f ''buy_and_hold_value'' (rd_decimal rd) (\<lambda>y.
     Some \<lparr>cm_timestamp = u, cm_strategy_value = x, cm_buy_and_hold_value = y\<rparr>))))"

definition rd_price_point :: "reader \<Rightarrow> json \<Rightarrow> price_series_point option" where
  "rd_price_point rd v =
     Option.bind (model_fields [''timestamp'', ''close_price''] [] v) (\<lambda>f.
     field f ''timestamp'' (rd_datetime rd) (\<lambda>u. field f ''close_price'' (rd_decimal rd) (\<lambda>x.
     Some \<lparr>pp_timestamp = u, pp_close_price = x\<rparr>)))"

definition rd_exit_reason :: "json \<Rightarrow> exit_reason option" where
  "rd_exit_reason = rd_enum
     [(''strategy_exit'', STRATEGY_EXIT), (''stop_loss'', STOP_LOSS), (''take_profit'', TAKE_PROFIT),
      (''final_liquidation'', FINAL_LIQUIDATION)]"

definition rd_trade :: "reader \<Rightarrow> json \<Rightarrow> completed_trade option" where
  \<comment> \<open>\<open>BacktestTradeResponse\<close>, with the fields of a completed trade\<close>
  "rd_trade rd v =
     Option.bind (model_fields [''signal_timestamp'', ''entry_timestamp'', ''entry_price'', ''quantity'',
                    ''exit_signal_timestamp'', ''exit_timestamp'', ''exit_price'', ''profit_loss'',
                    ''return_percentage'', ''exit_reason''] [] v) (\<lambda>f.
     field f ''signal_timestamp'' (rd_datetime rd) (\<lambda>st. field f ''entry_timestamp'' (rd_datetime rd) (\<lambda>et.
     field f ''entry_price'' (rd_decimal rd) (\<lambda>ep. field f ''quantity'' (rd_int rd) (\<lambda>q.
     field f ''exit_signal_timestamp'' (rd_optional (rd_datetime rd)) (\<lambda>xs.
     field f ''exit_timestamp'' (rd_datetime rd) (\<lambda>xt. field f ''exit_price'' (rd_decimal rd) (\<lambda>xp.
     field f ''profit_loss'' (rd_decimal rd) (\<lambda>pl. field f ''return_percentage'' (rd_decimal rd) (\<lambda>rp.
     field f ''exit_reason'' rd_exit_reason (\<lambda>xr.
     Some \<lparr>t_signal_timestamp = st, t_entry_timestamp = et, t_entry_price = ep, t_quantity = q,
           t_exit_signal_timestamp = xs, t_exit_timestamp = xt, t_exit_price = xp, t_profit_loss = pl,
           t_return_percentage = rp, t_exit_reason = xr\<rparr>)))))))))))"

definition rd_backtest :: "reader \<Rightarrow> json \<Rightarrow> backtest_preview_response option" where
  "rd_backtest rd v =
     Option.bind (model_fields [''symbol'', ''interval'', ''start_date'', ''end_date'', ''bar_count'', ''starting_cash'',
                    ''ending_value'', ''total_return_percent'', ''cagr_percent'', ''max_drawdown_percent'', ''trade_count'',
                    ''win_rate_percent'', ''buy_and_hold_return_percent'', ''equity_curve'', ''price_series'', ''trades''] [] v) (\<lambda>f.
     field f ''symbol'' rd_str (\<lambda>sym. field f ''interval'' rd_str (\<lambda>int.
     field f ''start_date'' (rd_datetime rd) (\<lambda>sd. field f ''end_date'' (rd_datetime rd) (\<lambda>ed.
     field f ''bar_count'' (rd_int rd) (\<lambda>bc. field f ''starting_cash'' (rd_decimal rd) (\<lambda>sc.
     field f ''ending_value'' (rd_decimal rd) (\<lambda>ev. field f ''total_return_percent'' (rd_decimal rd) (\<lambda>tr.
     field f ''cagr_percent'' (rd_optional (rd_decimal rd)) (\<lambda>cg.
     field f ''max_drawdown_percent'' (rd_decimal rd) (\<lambda>md. field f ''trade_count'' (rd_int rd) (\<lambda>tc.
     field f ''win_rate_percent'' (rd_decimal rd) (\<lambda>wr.
     field f ''buy_and_hold_return_percent'' (rd_decimal rd) (\<lambda>bh.
     field f ''equity_curve'' (rd_list (rd_comparison_point rd)) (\<lambda>ec.
     field f ''price_series'' (rd_list (rd_price_point rd)) (\<lambda>ps.
     field f ''trades'' (rd_list (rd_trade rd)) (\<lambda>ts.
     Some \<lparr>bp_symbol = sym, bp_interval = int, bp_start_date = sd, bp_end_date = ed, bp_bar_count = bc,
           bp_starting_cash = sc, bp_ending_value = ev, bp_total_return_percent = tr, bp_cagr_percent = cg,
           bp_max_drawdown_percent = md, bp_trade_count = tc, bp_win_rate_percent = wr,
           bp_buy_and_hold_return_percent = bh, bp_equity_curve = ec, bp_price_series = ps, bp_trades = ts\<rparr>)))))))))))))))))"

definition rd_preview_response :: "reader \<Rightarrow> json \<Rightarrow> strategy_preview_response option" where
  "rd_preview_response rd v =
     Option.bind (model_fields [''parsed_strategy'', ''backtest''] [] v) (\<lambda>f.
     field f ''parsed_strategy'' (rd_review rd) (\<lambda>p. field f ''backtest'' (rd_backtest rd) (\<lambda>b.
     Some \<lparr>sp_parsed_strategy = p, sp_backtest = b\<rparr>)))"

definition validate_preview_response :: "reader \<Rightarrow> json \<Rightarrow> json result" where
  \<comment> \<open>\<open>StrategyPreviewResponse.model_validate\<close>; the document stands for the model that was read\<close>
  "validate_preview_response rd doc =
     (case rd_preview_response rd doc of None \<Rightarrow> Inl (ValidationError '''') | Some _ \<Rightarrow> Inr doc)"

end
