(* ===== verification/Preview_Response_Properties.thy ===== *)
theory Preview_Response_Properties
  imports Preview_Response Report_Text
begin

text \<open>
  What the worker stores is what the API shows: the response models read the serialized preview back,
  with every value, so the job route never reports a fresh result as expired.
\<close>

subsection \<open>Reading back what was written\<close>

definition reads_back :: "reader \<Rightarrow> text_format \<Rightarrow> bool" where
  \<comment> \<open>Pydantic reads numbers and flags as they are, and decimals and times as \<open>str\<close> and \<open>isoformat\<close> wrote them\<close>
  "reads_back rd tf \<longleftrightarrow>
     (\<forall>v. rd_decimal rd (JStr (tf_str_decimal tf v)) = Some v) \<and>
     (\<forall>u. rd_datetime rd (JStr (tf_isoformat tf u)) = Some u) \<and>
     (\<forall>n. rd_int rd (JInt n) = Some n) \<and> (\<forall>b. rd_bool rd (JBool b) = Some b)"

lemma model_fields_Some:
  "list_all (\<lambda>k. map_of entries k \<noteq> None) required \<Longrightarrow>
   list_all (\<lambda>(k, _). k \<in> set required \<or> k \<in> set defaulted) entries \<Longrightarrow>
   model_fields required defaulted (JObj entries) = Some (map_of entries)"
  by (simp add: model_fields_def)

lemmas reading = model_fields_def field_def field_or_def rd_literal_def rd_optional_def

lemma all_some_map: "(\<And>x. x \<in> set xs \<Longrightarrow> rd (w x) = Some (g x)) \<Longrightarrow> all_some (map rd (map w xs)) = Some (map g xs)"
  by (induction xs) auto

lemma rd_list_map:
  "(\<And>x. x \<in> set xs \<Longrightarrow> rd (w x) = Some (g x)) \<Longrightarrow> rd_list rd (JList (map w xs)) = Some (map g xs)"
  using all_some_map[of xs rd w g] by (simp add: rd_list_def)

lemma rd_enums:
  "rd_indicator_name (JStr (indicator_value n)) = Some n" "rd_operator (JStr (operator_value op)) = Some op"
  "rd_exit_reason (JStr (exit_reason_value xr)) = Some xr"
  "rd_enum [(''high'', HIGH), (''medium'', MEDIUM), (''low'', LOW)] (JStr (confidence_value c)) = Some c"
proof -
  show "rd_indicator_name (JStr (indicator_value n)) = Some n"
    by (cases n) (simp_all add: rd_indicator_name_def rd_enum_def rd_str_def)
  show "rd_operator (JStr (operator_value op)) = Some op"
    by (cases op) (simp_all add: rd_operator_def rd_enum_def rd_str_def)
  show "rd_exit_reason (JStr (exit_reason_value xr)) = Some xr"
    by (cases xr) (simp_all add: rd_exit_reason_def rd_enum_def rd_str_def)
  show "rd_enum [(''high'', HIGH), (''medium'', MEDIUM), (''low'', LOW)] (JStr (confidence_value c)) = Some c"
    by (cases c) (simp_all add: rd_enum_def rd_str_def)
qed

lemma rd_optional_json:
  "(\<And>x. rd (w x) = Some x) \<Longrightarrow> (\<And>x. w x \<noteq> JNull) \<Longrightarrow> rd_optional rd (json_opt w v) = Some v"
  by (cases v) (simp_all add: rd_optional_def json_opt_def)

lemma rd_basic:
  assumes "reads_back rd tf"
  shows "rd_decimal rd (JStr (tf_str_decimal tf v)) = Some v" "rd_datetime rd (JStr (tf_isoformat tf u)) = Some u"
    "rd_int rd (JInt n) = Some n" "rd_bool rd (JBool b) = Some b"
  using assms by (simp_all add: reads_back_def)

lemma rd_operand_json:
  assumes "reads_back rd tf" "operand_schema opnd"
  shows "rd_operand rd (operand_json tf opnd) = Some opnd"
  using assms(2) rd_basic[OF assms(1)]
  by (cases opnd) (simp_all add: operand_json_def operand_schema_def rd_operand_def reading rd_enums rd_close_def
      rd_strict_int_def)

lemma rd_condition_json:
  assumes "reads_back rd tf" "condition_schema c"
  shows "rd_condition rd (condition_json tf c) = Some c"
  using assms(2) rd_operand_json[OF assms(1)]
  by (simp add: condition_json_def condition_schema_def rd_condition_def reading rd_enums)

lemma rd_percent_json:
  assumes "reads_back rd tf" "percent_field_schema p"
  shows "rd_percent rd (json_opt (\<lambda>v. JStr (tf_str_decimal tf v)) p) = Some p"
  using assms(2) rd_optional_json[of "rd_decimal rd" "\<lambda>v. JStr (tf_str_decimal tf v)" p] rd_basic(1)[OF assms(1)]
  by (simp add: rd_percent_def)

lemma rd_execution_json:
  assumes "execution_schema e"
  shows "rd_execution (JObj [(''direction'', JStr (direction e)),
              (''position_size_percent'', JInt (position_size_percent e)),
              (''signal_execution'', JStr (signal_execution e))]) = Some e"
  using assms by (simp add: rd_execution_def execution_schema_def reading)

lemma rd_specification_json:
  assumes "reads_back rd tf" "spec_schema s"
  shows "rd_specification rd (specification_json tf s) = Some s"
  using assms(2) rd_condition_json[OF assms(1)] rd_percent_json[OF assms(1)] rd_execution_json
  by (simp add: specification_json_def spec_schema_def rd_specification_def reading)

lemma rd_default_json: "ad_value d \<noteq> JNull \<Longrightarrow> rd_default (default_json d) = Some d"
  by (simp add: rd_default_def default_json_def reading rd_str_def rd_value_def)

lemma rd_assumption_json:
  "as_inferred_value a \<noteq> JNull \<Longrightarrow> as_requires_confirmation a \<Longrightarrow> rd_assumption (assumption_json a) = Some a"
  by (simp add: rd_assumption_def assumption_json_def reading rd_str_def rd_value_def rd_enums)

lemma rd_trade_json:
  assumes "reads_back rd tf"
  shows "rd_trade rd (trade_json tf t) = Some t"
  using rd_basic[OF assms] rd_optional_json[of "rd_datetime rd" "\<lambda>u. JStr (tf_isoformat tf u)" "t_exit_signal_timestamp t"]
  by (simp add: rd_trade_def trade_json_def reading rd_enums)

subsection \<open>What a parsed strategy records\<close>

definition recorded :: "norm_state \<Rightarrow> bool" where
  \<comment> \<open>defaults and assumptions carry a value, and assumptions require confirmation\<close>
  "recorded st \<longleftrightarrow>
     list_all (\<lambda>d. ad_value d \<noteq> JNull) (ns_defaults st) \<and>
     list_all (\<lambda>a. as_inferred_value a \<noteq> JNull \<and> as_requires_confirmation a) (ns_assumptions st)"

lemma recorded_apply_default [simp]: "recorded (apply_default nm v reason st) \<longleftrightarrow> v \<noteq> JNull \<and> recorded st"
  by (auto simp: recorded_def apply_default_def)

lemma recorded_add_assumption [simp]: "recorded (add_assumption nm v reason st) \<longleftrightarrow> v \<noteq> JNull \<and> recorded st"
  by (auto simp: recorded_def add_assumption_def assumption_def)

lemma recorded_fields: "recorded \<lparr>ns_defaults = ns_defaults st, ns_assumptions = ns_assumptions st\<rparr> = recorded st"
  by (simp add: recorded_def)

lemma recorded_field:
  assumes "field_or_default v d f nm reason st = (x, st')" "recorded st" "f d \<noteq> JNull"
  shows "recorded st'"
  using assms by (auto simp: field_or_default_def split: option.splits)

lemma recorded_operand:
  assumes "normalize_operand d nm st = Inr (opnd, st')" "recorded st"
  shows "recorded st'"
  using assms
  by (auto simp: normalize_operand_def normalize_source_def field_or_default_def result_simps Let_def
      split: draft_type.splits option.splits prod.splits)

lemma recorded_condition:
  assumes "normalize_condition c nm st = Inr (x, st')" "recorded st"
  shows "recorded st'"
  using assms recorded_operand
  by (auto simp: normalize_condition_def result_simps split: option.splits)

lemma recorded_rules:
  assumes "complete_rules f text en x st = Inr (en', x', st')" "recorded st"
  shows "recorded st'"
  using assms
  by (auto simp: complete_rules_def infer_shorthand_pair_def condition_draft_json_def result_simps Let_def
      split: option.splits prod.splits if_splits)

lemma parsed_records:
  assumes "parse_strategy f provider key model text = Inr r"
  shows "spec_schema (pr_specification r) \<and> list_all (\<lambda>d. ad_value d \<noteq> JNull) (pr_defaults_applied r) \<and>
    list_all (\<lambda>a. as_inferred_value a \<noteq> JNull \<and> as_requires_confirmation a) (pr_assumptions r)"
proof -
  obtain d where d: "normalize_strategy_draft f d text = Inr r"
    using assms by (auto simp: parse_strategy_def result_simps split: option.splits if_splits)
  have start: "recorded \<lparr>ns_defaults = [], ns_assumptions = []\<rparr>"
    by (simp add: recorded_def)
  have "recorded \<lparr>ns_defaults = pr_defaults_applied r, ns_assumptions = pr_assumptions r\<rparr>"
    using d start unfolding normalize_strategy_draft_def Let_def
    by (auto simp: result_simps construct_def recorded_fields split: prod.splits if_splits
        dest!: recorded_field recorded_rules recorded_condition)
  then show ?thesis
    using d by (auto simp: recorded_def elim: normalize_Inr)
qed

subsection \<open>The stored document\<close>

definition compared :: "equity_point \<times> equity_point \<Rightarrow> equity_comparison_point" where
  "compared pb =
     \<lparr>cm_timestamp = ep_timestamp (fst pb), cm_strategy_value = equity (fst pb), cm_buy_and_hold_value = equity (snd pb)\<rparr>"

definition response_of :: "parsed_strategy_result \<Rightarrow> strategy_preview \<Rightarrow> strategy_preview_response" where
  \<comment> \<open>what a client should see of a preview\<close>
  "response_of parsed pv =
     (let ex = pv_execution pv; m = pv_metrics pv in
      \<lparr>sp_parsed_strategy = from_parsed_result parsed (pv_interpretation pv),
       sp_backtest =
         \<lparr>bp_symbol = spec_symbol (pr_specification parsed), bp_interval = spec_interval (pr_specification parsed),
          bp_start_date = pv_start_timestamp pv, bp_end_date = pv_end_timestamp pv, bp_bar_count = int (pv_bar_count pv),
          bp_starting_cash = STARTING_CASH, bp_ending_value = final_portfolio_value ex,
          bp_total_return_percent = total_return_percentage m, bp_cagr_percent = cagr_percentage m,
          bp_max_drawdown_percent = maximum_drawdown_percentage m, bp_trade_count = int (length (er_completed_trades ex)),
          bp_win_rate_percent = win_rate_percentage m,
          bp_buy_and_hold_return_percent = buy_and_hold_return_percentage m,
          bp_equity_curve = map compared
            (zip (drop (nat (pv_comparison_start_index pv)) (er_equity_curve ex)) (pv_buy_and_hold_equity_curve pv)),
          bp_price_series = map (\<lambda>b. \<lparr>pp_timestamp = bar_timestamp b, pp_close_price = close_price b\<rparr>) (pv_bars pv),
          bp_trades = er_completed_trades ex\<rparr>\<rparr>)"

definition point_json :: "text_format \<Rightarrow> equity_point \<times> equity_point \<Rightarrow> json" where
  "point_json tf pb =
     JObj [(''timestamp'', JStr (tf_isoformat tf (ep_timestamp (fst pb)))),
           (''strategy_value'', JStr (tf_str_decimal tf (equity (fst pb)))),
           (''buy_and_hold_value'', JStr (tf_str_decimal tf (equity (snd pb))))]"

lemma comparison_points_Inr:
  "comparison_points tf xs ys = Inr doc \<longleftrightarrow> length xs = length ys \<and> doc = JList (map (point_json tf) (zip xs ys))"
  by (auto simp: comparison_points_def point_json_def result_simps case_prod_beta intro!: arg_cong[where f = JList])

lemma rd_point_json:
  assumes "reads_back rd tf"
  shows "rd_comparison_point rd (point_json tf pb) = Some (compared pb)"
  using rd_basic[OF assms] by (simp add: rd_comparison_point_def point_json_def compared_def reading)

lemma rd_price_json:
  assumes "reads_back rd tf"
  shows "rd_price_point rd (JObj [(''timestamp'', JStr (tf_isoformat tf (bar_timestamp b))),
      (''close_price'', JStr (tf_str_decimal tf (close_price b)))]) =
    Some \<lparr>pp_timestamp = bar_timestamp b, pp_close_price = close_price b\<rparr>"
  using rd_basic[OF assms] by (simp add: rd_price_point_def reading)

lemma serialized_reads_back:
  assumes "serialize_preview tf parsed pv = Inr doc" "reads_back rd tf" "spec_schema (pr_specification parsed)"
    and "list_all (\<lambda>d. ad_value d \<noteq> JNull) (pr_defaults_applied parsed)"
    and "list_all (\<lambda>a. as_inferred_value a \<noteq> JNull \<and> as_requires_confirmation a) (pr_assumptions parsed)"
  shows "rd_preview_response rd doc = Some (response_of parsed pv)"
proof -
  note basic = rd_basic[OF assms(2)]
  have ds: "rd_list rd_default (JList (map default_json (pr_defaults_applied parsed))) = Some (pr_defaults_applied parsed)"
    using rd_list_map[of "pr_defaults_applied parsed" rd_default default_json id] assms(4) rd_default_json
    by (simp add: list_all_iff)
  have as: "rd_list rd_assumption (JList (map assumption_json (pr_assumptions parsed))) = Some (pr_assumptions parsed)"
    using rd_list_map[of "pr_assumptions parsed" rd_assumption assumption_json id] assms(5) rd_assumption_json
    by (simp add: list_all_iff)
  have ts: "rd_list (rd_trade rd) (JList (map (trade_json tf) trades)) = Some trades" for trades
    using rd_list_map[of trades "rd_trade rd" "trade_json tf" id] rd_trade_json[OF assms(2)] by simp
  note points = rd_list_map[of _ "rd_comparison_point rd" "point_json tf" compared, OF rd_point_json[OF assms(2)]]
  note prices = rd_list_map[of _ "rd_price_point rd", OF rd_price_json[OF assms(2)]]
  have cagr: "rd_optional (rd_decimal rd) (json_opt (\<lambda>v. JStr (tf_str_decimal tf v)) c) = Some c" for c
    by (rule rd_optional_json) (simp_all add: basic)
  obtain curve where "comparison_points tf
      (drop (nat (pv_comparison_start_index pv)) (er_equity_curve (pv_execution pv))) (pv_buy_and_hold_equity_curve pv) = Inr curve"
    using assms(1) by (auto simp: serialize_preview_def result_simps Let_def)
  note curve = this this[unfolded comparison_points_Inr]
  note review = rd_review_def rd_specification_json[OF assms(2,3)] ds as from_parsed_result_def
  note backtest = rd_backtest_def ts points prices cagr curve(2)[THEN conjunct2]
  show ?thesis
    using assms(1)
    by (auto simp: serialize_preview_def curve(1) result_simps Let_def rd_preview_response_def model_fields_def field_def review backtest
        basic rd_str_def response_of_def)
qed

lemma find_unique:
  assumes "j \<in> set xs" "P j" "\<And>x. x \<in> set xs \<Longrightarrow> P x \<Longrightarrow> x = j"
  shows "List.find P xs = Some j"
proof (cases "List.find P xs")
  case None
  with assms(1,2) show ?thesis by (simp add: find_None_iff)
next
  case (Some y)
  then have "y \<in> set xs" "P y" by (auto simp: find_Some_iff)
  with Some assms(3) show ?thesis by simp
qed

lemma owner_reads_job:
  assumes "healthy s" "store_ok (table_rows s)" "find_job job_id (table_rows s) = Some j"
    and "pj_status j = COMPLETED" "pj_preview_result j = Some doc" "validate doc = Inr d"
  shows "get_preview_job validate (pj_user_id j) job_id s = (Inr (job_response j (Some d)), s)"
proof -
  have j: "j \<in> set (table_rows s)" "pj_id j = job_id"
    using find_job_SomeD[OF assms(3)] by auto
  have "List.find (\<lambda>x. pj_id x = job_id \<and> pj_user_id x = pj_user_id j) (table_rows s) = Some j"
    using assms(2) j by (intro find_unique) (auto simp: store_ok_def distinct_map inj_on_def)
  then show ?thesis
    using assms by (simp add: get_preview_job_def get_job_def act_bind_def healthy_simps validated_result_def)
qed

text \<open>
  C36. A fresh preview is served with every value it was stored with: for a strategy that was parsed from
  a text and a preview that was computed from stored rows, serialization succeeds, the response models
  read the document back to exactly the computed values, and the job route, asked by the owner, answers
  with this document and never with the error of an expired result.
\<close>

theorem stored_preview_served:
  assumes "parse_strategy f provider key model text = Inr parsed" "create_preview tf dpow parsed m = (Inr pv, m')"
    and "list_all market_data_constraints (table_rows m)" "distinct (map market_data_pkey (table_rows m))"
    and "reads_back rd tf"
  shows "\<exists>doc. serialize_preview tf parsed pv = Inr doc \<and> rd_preview_response rd doc = Some (response_of parsed pv) \<and>
    (\<forall>s job_id j. healthy s \<and> store_ok (table_rows s) \<and> find_job job_id (table_rows s) = Some j \<and>
       pj_status j = COMPLETED \<and> pj_preview_result j = Some doc \<longrightarrow>
       get_preview_job (validate_preview_response rd) (pj_user_id j) job_id s = (Inr (job_response j (Some doc)), s))"
proof -
  obtain doc where doc: "serialize_preview tf parsed pv = Inr doc"
    using preview_serializes[OF preview_computed[OF assms(2)] assms(3,4)] by blast
  have read: "rd_preview_response rd doc = Some (response_of parsed pv)"
    using serialized_reads_back[OF doc assms(5)] parsed_records[OF assms(1)] by blast
  then have "validate_preview_response rd doc = Inr doc"
    by (simp add: validate_preview_response_def)
  with doc read show ?thesis
    using owner_reads_job by blast
qed

subsection \<open>A text format that can be read back\<close>

definition read_int :: "string \<Rightarrow> int" where
  "read_int t = (case split_sign t of (sign, ds) \<Rightarrow> sign * int_of_digits ds)"

definition exact_format :: text_format where
  "exact_format =
     \<lparr>tf_str_decimal = (\<lambda>v. case quotient_of v of (n, d) \<Rightarrow> string_of_int n @ CHR ''/'' # string_of_int d),
      tf_general = (\<lambda>_. []), tf_isoformat = string_of_int\<rparr>"

definition exact_reader :: reader where
  "exact_reader =
     \<lparr>rd_decimal = (\<lambda>v. map_option (\<lambda>t. let n = takeWhile (\<lambda>c. c \<noteq> CHR ''/'') t in
                    of_int (read_int n) / of_int (read_int (drop (length n + 1) t))) (rd_str v)),
      rd_datetime = (\<lambda>v. map_option read_int (rd_str v)), rd_int = rd_strict_int,
      rd_bool = (\<lambda>v. case v of JBool b \<Rightarrow> Some b | _ \<Rightarrow> None)\<rparr>"

lemma read_int_text: "read_int (string_of_int n) = n"
proof (cases "0 \<le> n")
  case True
  then show ?thesis
    using string_of_int_digits[of n] split_sign_digits(1)[of "string_of_int n" "[]"] by (simp add: read_int_def)
next
  case False
  then show ?thesis
    using string_of_nonneg_digits[of "- n"] split_sign_digits(2)[of "string_of_nonneg (- n)" "[]"]
    by (simp add: read_int_def string_of_int_def)
qed

lemma no_slash: "c \<in> set (string_of_int n) \<Longrightarrow> c \<noteq> CHR ''/''"
proof -
  have "\<not> is_digit CHR ''/''"
    by (simp add: is_digit_def)
  then have "CHR ''/'' \<notin> set (string_of_nonneg m)" if "0 \<le> m" for m
    using string_of_nonneg_digits[OF that] by (auto simp: list_all_iff)
  then show "c \<in> set (string_of_int n) \<Longrightarrow> c \<noteq> CHR ''/''"
    by (auto simp: string_of_int_def split: if_splits)
qed

lemma exact_reads_back: "reads_back exact_reader exact_format"
proof -
  have "of_int n / of_int d = v" if "quotient_of v = (n, d)" for n d v
    using quotient_of_div[OF that] by simp
  moreover have "takeWhile (\<lambda>c. c \<noteq> CHR ''/'') (string_of_int n @ CHR ''/'' # t) = string_of_int n" for n t
    using no_slash[of _ n] by (simp add: takeWhile_append2)
  ultimately show ?thesis
    by (auto simp: reads_back_def exact_reader_def exact_format_def rd_str_def rd_strict_int_def read_int_text
        split: prod.splits)
qed

definition cross_draft :: strategy_parse_draft where
  "cross_draft =
     \<lparr>draft_symbol = None, draft_interval = None,
      draft_entry = Some \<lparr>cd_left = \<lparr>od_type = INDICATOR, od_name = Some SMA, od_source = None, od_period = Some 1, od_value = None\<rparr>,
                          cd_operator = Some CROSSES_ABOVE,
                          cd_right = \<lparr>od_type = INDICATOR, od_name = Some SMA, od_source = None, od_period = Some 2, od_value = None\<rparr>\<rparr>,
      draft_exit = None, draft_direction = None, draft_position_size_percent = None,
      draft_signal_execution = None\<rparr>"

definition cross_parsed :: parsed_strategy_result where
  "cross_parsed = (case normalize_strategy_draft (\<lambda>_. []) cross_draft ''buy the cross'' of Inr r \<Rightarrow> r)"

lemma preview_any_format:
  assumes "preview_of_rows tf dpow rows p = Inr pv" "pr_specification q = pr_specification p"
  shows "\<exists>pv'. preview_of_rows tf' dpow rows q = Inr pv'"
  using assms unfolding preview_of_rows_def specification_preview_def preview_of_bars_def Let_def
  by (auto simp: res_bind_Inr_iff)

lemma cross_run:
  "normalize_strategy_draft (\<lambda>_. []) cross_draft ''buy the cross'' = Inr cross_parsed"
  "\<exists>pv. fst (create_preview exact_format whole_power cross_parsed (market_session market_rows)) = Inr pv"
proof -
  have "(case normalize_strategy_draft (\<lambda>_. []) cross_draft ''buy the cross'' of Inr r \<Rightarrow> True | Inl e \<Rightarrow> False)"
    by code_simp
  then show "normalize_strategy_draft (\<lambda>_. []) cross_draft ''buy the cross'' = Inr cross_parsed"
    by (auto simp: cross_parsed_def split: sum.splits)
  have "pr_specification cross_parsed = pr_specification market_parsed"
    by code_simp
  then show "\<exists>pv. fst (create_preview exact_format whole_power cross_parsed (market_session market_rows)) = Inr pv"
    using preview_any_format[OF the_preview[OF market_previewed(1)]] by (simp add: preview_healthy)
qed

lemma cross_text_ok:
  "validate_strategy_text (\<lambda>_. []) ''buy the cross'' = Inr ()" "list_all is_space ''buy the cross'' = False"
  by code_simp+

theorem stored_preview_served_witness:
  "\<exists>pv doc. fst (create_preview exact_format whole_power cross_parsed (market_session market_rows)) = Inr pv \<and>
     serialize_preview exact_format cross_parsed pv = Inr doc \<and>
     rd_preview_response exact_reader doc = Some (response_of cross_parsed pv)"
proof -
  have "parse_strategy (\<lambda>_. []) (\<lambda>_ _ _. Inr cross_draft) (Some ''key'') (Some ''model'')
      ''buy the cross'' = Inr cross_parsed"
    unfolding parse_strategy_def cross_text_ok by (simp add: cross_run(1))
  moreover obtain pv where pv: "fst (create_preview exact_format whole_power cross_parsed (market_session market_rows)) = Inr pv"
    using cross_run(2) by blast
  then have "create_preview exact_format whole_power cross_parsed (market_session market_rows) = (Inr pv, market_session market_rows)"
    by (simp add: preview_healthy)
  ultimately show ?thesis
    using stored_preview_served[OF _ _ _ _ exact_reads_back] pv market_rows_ok by (metis market_session_simps(1))
qed

end
