(* ===== verification/Connections.thy ===== *)
theory Connections
  imports Preview_Queue "HOL-Library.AList"
begin

text \<open>
  How the settings become connections: the database URL and the options of the engine
  (\<open>app/db/session.py\<close>) and the options of the Redis client (\<open>app/queue/connection.py\<close>). The parameters of
  the query of a URL are a list of its own; parsing and rendering URLs is left to the libraries.
\<close>

definition LOCAL_DATABASE_HOSTS :: "string list" where
  "LOCAL_DATABASE_HOSTS = [''localhost'', ''127.0.0.1'', ''::1'', ''host.docker.internal'']"

type_synonym url_query = "(string \<times> string) list"

definition update_query_dict :: "string \<Rightarrow> string \<Rightarrow> url_query \<Rightarrow> url_query" where
  "update_query_dict key v query = AList.update key v query"

definition normalize_database_url :: "url_parts \<times> url_query \<Rightarrow> url_parts \<times> url_query" where
  "normalize_database_url parsed =
     (let url = fst parsed;
          url = (if url_scheme url = ''postgresql'' then url\<lparr>url_scheme := ''postgresql+psycopg''\<rparr> else url);
          host = lower_host (url_host url);
          is_local_supabase = (url_port url = Some 54322)
      in if host \<notin> set LOCAL_DATABASE_HOSTS \<and> \<not> is_local_supabase
         then (url, update_query_dict ''sslmode'' ''require'' (snd parsed)) else (url, snd parsed))"

record engine_options =
  eo_url :: "url_parts \<times> url_query"
  eo_connect_timeout :: int
  eo_pool_pre_ping :: bool
  eo_pool_size :: int
  eo_max_overflow :: int
  eo_pool_timeout :: int
  eo_pool_recycle :: int
  eo_pool_use_lifo :: bool

definition create_database_engine :: "url_parts \<times> url_query \<Rightarrow> int \<Rightarrow> int \<Rightarrow> int \<Rightarrow> int \<Rightarrow> int \<Rightarrow> engine_options" where
  "create_database_engine parsed connect_timeout pool_size max_overflow pool_timeout pool_recycle =
     \<lparr>eo_url = normalize_database_url parsed, eo_connect_timeout = connect_timeout, eo_pool_pre_ping = True,
      eo_pool_size = pool_size, eo_max_overflow = max_overflow, eo_pool_timeout = pool_timeout,
      eo_pool_recycle = pool_recycle, eo_pool_use_lifo = True\<rparr>"

definition database_engine :: "settings \<Rightarrow> url_query \<Rightarrow> engine_options" where
  \<comment> \<open>the module-level \<open>engine\<close>; the query of \<open>database_url\<close> is given apart\<close>
  "database_engine s query =
     create_database_engine (database_url s, query) (database_connect_timeout_seconds s) (database_pool_size s)
       (database_max_overflow s) (database_pool_timeout_seconds s) (database_pool_recycle_seconds s)"

record redis_options =
  ro_url :: url_parts
  ro_backoff_cap :: rat
  ro_backoff_base :: rat
  ro_retries :: int
  ro_socket_connect_timeout :: rat
  ro_socket_timeout :: rat
  ro_health_check_interval :: int

definition get_redis_connection :: "settings \<Rightarrow> redis_options" where
  \<comment> \<open>the arguments of \<open>Redis.from_url\<close>; the client documents that options in the query of the URL win
    over them, and the code does not look at that query\<close>
  "get_redis_connection s =
     \<lparr>ro_url = redis_url s, ro_backoff_cap = 1, ro_backoff_base = 1 / 10, ro_retries = redis_connection_retries s,
      ro_socket_connect_timeout = redis_connect_timeout_seconds s, ro_socket_timeout = redis_socket_timeout_seconds s,
      ro_health_check_interval = 30\<rparr>"

subsection \<open>Accepted settings\<close>

lemma build_settings_Inr:
  assumes "build_settings s = Inr s'"
  shows "s' = s \<and> field_bounds s \<and> preview_job_max_retries s \<le> int (length (preview_job_retry_intervals_seconds s)) \<and>
    (\<forall>i \<in> set (preview_job_retry_intervals_seconds s). 0 \<le> i) \<and>
    (environment s = PRODUCTION \<longrightarrow>
       lower_host (url_host (database_url s)) \<notin> set local_hosts \<and> url_port (database_url s) \<noteq> Some 54322)"
  using assms
  by (auto simp: build_settings_def validate_retry_intervals_def validate_retry_configuration_def
      validate_production_configuration_def result_simps Let_def not_less split: if_splits)

lemma retry_policy_covered:
  assumes "preview_job_max_retries s \<le> int (length (preview_job_retry_intervals_seconds s))"
    and "\<forall>i \<in> set (preview_job_retry_intervals_seconds s). 0 \<le> i" "0 \<le> preview_job_max_retries s"
  shows "case retry_policy (get_preview_queue s) None of None \<Rightarrow> preview_job_max_retries s = 0
     | Some (retries, intervals) \<Rightarrow> retries = preview_job_max_retries s \<and> int (length intervals) = retries \<and>
         list_all (\<lambda>i. 0 \<le> i) intervals"
  using assms
  by (cases "0 < preview_job_max_retries s")
    (auto simp: retry_policy_def get_preview_queue_def last_entries_def list_all_iff Let_def dest: in_set_dropD)

text \<open>
  C39. Accepted settings give safe connections: the waits for the database are bounded by positive
  timeouts and its pool is bounded, the client of Redis is given positive bounded timeouts and retries
  (which options in the query of the Redis URL would override), every retry that the queue grants has
  its interval, and in production the database is reached over TLS, while the other parameters of its
  URL are kept.
\<close>

theorem accepted_settings_connect_safely:
  assumes "build_settings s = Inr s'"
  shows "0 < eo_connect_timeout (database_engine s' query) \<and> eo_connect_timeout (database_engine s' query) \<le> 30 \<and>
    0 < eo_pool_timeout (database_engine s' query) \<and> eo_pool_timeout (database_engine s' query) \<le> 60 \<and>
    0 < eo_pool_size (database_engine s' query) \<and>
    eo_pool_size (database_engine s' query) + eo_max_overflow (database_engine s' query) \<le> 100 \<and>
    0 < ro_socket_connect_timeout (get_redis_connection s') \<and> ro_socket_connect_timeout (get_redis_connection s') \<le> 30 \<and>
    0 < ro_socket_timeout (get_redis_connection s') \<and> ro_socket_timeout (get_redis_connection s') \<le> 60 \<and>
    0 \<le> ro_retries (get_redis_connection s') \<and> ro_retries (get_redis_connection s') \<le> 10 \<and>
    (case retry_policy (get_preview_queue s') None of None \<Rightarrow> preview_job_max_retries s' = 0
     | Some (retries, intervals) \<Rightarrow> retries = preview_job_max_retries s' \<and> int (length intervals) = retries \<and>
         list_all (\<lambda>i. 0 \<le> i) intervals) \<and>
    (environment s' = PRODUCTION \<longrightarrow> map_of (snd (eo_url (database_engine s' query))) ''sslmode'' = Some ''require'') \<and>
    (\<forall>key. key \<noteq> ''sslmode'' \<longrightarrow> map_of (snd (eo_url (database_engine s' query))) key = map_of query key)"
proof -
  note ok = build_settings_Inr[OF assms]
  have "case retry_policy (get_preview_queue s) None of None \<Rightarrow> preview_job_max_retries s = 0
     | Some (retries, intervals) \<Rightarrow> retries = preview_job_max_retries s \<and> int (length intervals) = retries \<and>
         list_all (\<lambda>i. 0 \<le> i) intervals"
    using retry_policy_covered ok by (simp add: field_bounds_def)
  moreover have "map_of (snd (eo_url (database_engine s query))) ''sslmode'' = Some ''require''" if "environment s = PRODUCTION"
    using ok that by (simp add: database_engine_def create_database_engine_def normalize_database_url_def Let_def
        LOCAL_DATABASE_HOSTS_def local_hosts_def update_query_dict_def update_conv)
  moreover have "map_of (snd (eo_url (database_engine s query))) key = map_of query key" if "key \<noteq> ''sslmode''" for key
    using that by (simp add: database_engine_def create_database_engine_def normalize_database_url_def Let_def
        update_query_dict_def update_conv)
  ultimately show ?thesis
    using ok by (auto simp: database_engine_def create_database_engine_def get_redis_connection_def field_bounds_def)
qed

definition hosted_settings :: settings where
  "hosted_settings = default_settings
     \<lparr>environment := PRODUCTION,
      database_url := \<lparr>url_scheme = ''postgresql'', url_host = Some ''db.hosted.com'', url_port = Some 5432, url_password = Some ''pw''\<rparr>,
      supabase_url := \<lparr>url_scheme = ''https'', url_host = Some ''api.hosted.com'', url_port = None, url_password = None\<rparr>,
      openai_api_key := Some ''key'', openai_model := Some ''model''\<rparr>"

theorem accepted_settings_connect_safely_witness:
  "build_settings hosted_settings = Inr hosted_settings \<and>
   map_of (snd (eo_url (database_engine hosted_settings [(''sslmode'', ''disable'')]))) ''sslmode'' = Some ''require''"
proof -
  have "build_settings hosted_settings = Inr hosted_settings"
    by code_simp
  with accepted_settings_connect_safely[OF this] show ?thesis
    by (simp add: hosted_settings_def)
qed

text \<open>
  Outside production the port decides: a remote server that listens on port 54322 is reached without
  TLS, although the documentation asks for TLS on every target that is not local.
\<close>

lemma remote_port_without_tls:
  "map_of (snd (normalize_database_url
     (\<lparr>url_scheme = ''postgresql'', url_host = Some ''db.hosted.com'', url_port = Some 54322, url_password = None\<rparr>, [])))
     ''sslmode'' = None"
  by code_simp

end
