(* ===== verification/Process_Lifecycle.thy ===== *)
theory Process_Lifecycle
  imports Reconciliation_Properties Api_Access Connections
begin

text \<open>
  The start and the end of the processes: the checks of the dependencies and the release of the
  resources (\<open>app/core/operations.py\<close>), the worker (\<open>app/workers/run_preview_worker.py\<close>), the lifespan
  of the API (\<open>app/main.py\<close>) and the clean-up script (\<open>app/scripts/cleanup_preview_jobs.py\<close>). A process
  keeps a trace of its log records and of the calls it makes on resources, each with its outcome.
  What a call does is a parameter, except for the reconciliation.
\<close>

subsection \<open>Traces\<close>

datatype resource_call =
    SELECT_ONE | PING | RECONCILE | WORK | OPEN_HTTP_CLIENT | SERVE | CLOSE_HTTP_CLIENT | DISCONNECT | DISPOSE

record log_record =
  lg_event :: string
  lg_component :: string
  lg_dependency :: "string option"
  lg_outcome :: string

datatype process_event = Logged log_record | Called resource_call bool

record process_session = preview_session +
  process_trace :: "process_event list"

definition emit :: "process_event \<Rightarrow> ('z process_session_scheme, unit) action" where
  "emit e s = (Inr (), s\<lparr>process_trace := process_trace s @ [e]\<rparr>)"

definition log :: "string \<Rightarrow> string \<Rightarrow> string option \<Rightarrow> string \<Rightarrow> ('z process_session_scheme, unit) action" where
  "log event component dependency outcome =
     emit (Logged \<lparr>lg_event = event, lg_component = component, lg_dependency = dependency, lg_outcome = outcome\<rparr>)"

definition invoke :: "resource_call \<Rightarrow> ('z process_session_scheme, 'a) action \<Rightarrow> ('z process_session_scheme, 'a) action" where
  "invoke c m = act_try m (\<lambda>a. act_then (emit (Called c True)) (act_return a)) (\<lambda>e. act_then (emit (Called c False)) (act_raise e))"

subsection \<open>Dependencies\<close>

record 's dependencies =
  dep_select_one :: "('s, unit) action"
  dep_ping :: "('s, unit) action"
  dep_disconnect :: "('s, unit) action"
  dep_dispose :: "('s, unit) action"

definition checked :: "string \<Rightarrow> ('z process_session_scheme, unit) action \<Rightarrow> ('z process_session_scheme, unit) action" where
  "checked dependency m =
     act_try m (\<lambda>_. log ''dependency_check'' ''backend'' (Some dependency) ''ready'')
       (\<lambda>e. act_then (log ''dependency_check'' ''backend'' (Some dependency) ''failed'') (act_raise e))"

definition check_database :: "('z process_session_scheme) dependencies \<Rightarrow> ('z process_session_scheme, unit) action" where
  "check_database deps = checked ''postgresql'' (invoke SELECT_ONE (dep_select_one deps))"

definition check_redis :: "('z process_session_scheme) dependencies \<Rightarrow> ('z process_session_scheme, unit) action" where
  "check_redis deps = checked ''redis'' (invoke PING (dep_ping deps))"

definition validate_dependencies :: "('z process_session_scheme) dependencies \<Rightarrow> ('z process_session_scheme, unit) action" where
  "validate_dependencies deps = act_then (check_database deps) (check_redis deps)"

definition released :: "string \<Rightarrow> ('z process_session_scheme, unit) action \<Rightarrow> ('z process_session_scheme, unit) action" where
  \<comment> \<open>a failing release is logged and forgotten\<close>
  "released dependency m =
     act_catch (act_then m (log ''resource_disposal'' ''backend'' (Some dependency) ''success''))
       (\<lambda>_. log ''resource_disposal'' ''backend'' (Some dependency) ''failed'')"

definition dispose_resources :: "('z process_session_scheme) dependencies \<Rightarrow> ('z process_session_scheme, unit) action" where
  "dispose_resources deps =
     act_then (released ''redis'' (invoke DISCONNECT (dep_disconnect deps)))
       (released ''postgresql'' (invoke DISPOSE (dep_dispose deps)))"

subsection \<open>The worker\<close>

definition worker_limits :: "settings \<Rightarrow> recovery_limits" where
  "worker_limits s =
     \<lparr>rl_max_retries = preview_job_max_retries s, rl_stale_after_seconds = preview_job_stale_after_seconds s,
      rl_batch_size = nat (preview_job_reconciliation_batch_size s),
      rl_registry_scan_limit = preview_job_registry_scan_limit s\<rparr>"

definition worker_body ::
    "('z process_session_scheme) dependencies \<Rightarrow> ('z process_session_scheme) recovery_port \<Rightarrow> settings \<Rightarrow> timestamp \<Rightarrow>
     ('z process_session_scheme, unit) action \<Rightarrow> ('z process_session_scheme, int) action" where
  \<comment> \<open>the \<open>try\<close> block; leaving \<open>with SessionLocal()\<close> closes the session\<close>
  "worker_body deps port settings now work =
     act_then (validate_dependencies deps)
       (act_bind (invoke RECONCILE (act_finally (reconcile_preview_jobs port (worker_limits settings) now) db_rollback)) (\<lambda>summary.
        act_then (log ''startup_reconciliation'' ''worker'' None ''success'')
       (act_then (log ''worker_listening'' ''worker'' None ''ready'')
       (act_then (invoke WORK work) (act_return 0)))))"

definition run_worker ::
    "('z process_session_scheme) dependencies \<Rightarrow> ('z process_session_scheme) recovery_port \<Rightarrow> settings \<Rightarrow> timestamp \<Rightarrow>
     ('z process_session_scheme, unit) action \<Rightarrow> ('z process_session_scheme, int) action" where
  \<comment> \<open>\<open>run\<close> from its first log record; before it, the settings are read, the logging is configured and the
    clients are built, and an error there is raised as it is. The errors of the model are those of
    \<open>Exception\<close>: a \<open>SystemExit\<close> or a \<open>KeyboardInterrupt\<close> is not modelled\<close>
  "run_worker deps port settings now work =
     act_then (log ''startup'' ''worker'' None ''started'')
       (act_finally
          (act_catch (worker_body deps port settings now work)
             (\<lambda>_. act_then (log ''worker_failure'' ''worker'' None ''failed'') (act_return 1)))
          (act_then (dispose_resources deps) (log ''shutdown'' ''worker'' None ''success'')))"

subsection \<open>The API process\<close>

definition state_auth_client ::
    "(string \<Rightarrow> (string \<times> string) list \<Rightarrow> http_response option) \<Rightarrow> (string \<Rightarrow> authenticated_user result) \<Rightarrow>
     (url_parts \<Rightarrow> string) \<Rightarrow> settings \<Rightarrow> auth_client" where
  \<comment> \<open>\<open>SupabaseAuthClient(http_client=..., supabase_url=str(...), api_key=...)\<close>\<close>
  "state_auth_client http decode render s =
     \<lparr>http_get = http, decode_user = decode, client_url = render (supabase_url s), client_key = supabase_anon_key s\<rparr>"

definition lifespan ::
    "('z process_session_scheme) dependencies \<Rightarrow> settings \<Rightarrow> ('z process_session_scheme, unit) action \<Rightarrow>
     ('z process_session_scheme, unit) action \<Rightarrow> ('z process_session_scheme, unit) action \<Rightarrow> ('z process_session_scheme, unit) action" where
  \<comment> \<open>the body between start and end is the serving of requests, at the \<open>yield\<close>\<close>
  "lifespan deps settings open_client serve close_client =
     act_then (log ''startup'' ''api'' None ''started'')
       (act_finally
          (act_catch
             (act_then (if environment settings = TEST then act_skip else validate_dependencies deps)
             (act_then (invoke OPEN_HTTP_CLIENT open_client)
             (act_finally
                (act_then (log ''startup'' ''api'' None ''ready'') (invoke SERVE serve))
                (invoke CLOSE_HTTP_CLIENT close_client))))
             (\<lambda>e. act_then (log ''startup'' ''api'' None ''failed'') (act_raise e)))
          (act_then (dispose_resources deps) (log ''shutdown'' ''api'' None ''success'')))"

record cors_policy =
  cp_allow_origins :: "string list"
  cp_allow_credentials :: bool
  cp_allow_methods :: "string list"
  cp_allow_headers :: "string list"

definition cors_of :: "(url_parts \<Rightarrow> string) \<Rightarrow> settings \<Rightarrow> cors_policy" where
  "cors_of render s =
     \<lparr>cp_allow_origins = map (\<lambda>origin. rstrip_slash (render origin)) (cors_origins s), cp_allow_credentials = False,
      cp_allow_methods = [''GET'', ''POST'', ''PUT'', ''PATCH'', ''DELETE'', ''OPTIONS''],
      cp_allow_headers = [''Authorization'', ''Content-Type'']\<rparr>"

subsection \<open>The clean-up script\<close>

definition cleanup_main :: "timestamp \<Rightarrow> (preview_job, 'z, string \<times> int) db" where
  "cleanup_main now =
     act_bind (act_finally (delete_expired_jobs now) db_rollback) (\<lambda>deleted.
     act_return (''Deleted '' @ string_of_int (int deleted) @ '' expired preview jobs.'', 0))"

end
