(* ===== verification/Process_Properties.thy ===== *)
theory Process_Properties
  imports Process_Lifecycle
begin

text \<open>
  The processes start and end as they should, whatever their resources do: work begins only when the
  dependencies answered and the jobs were reconciled, and the resources are released at the end, once
  and in order. What an action adds to the calls of the trace is a relation between its outcome and a
  list, with a rule for every way of composing actions.
\<close>

subsection \<open>What an action adds to the calls\<close>

fun call_of :: "process_event \<Rightarrow> (resource_call \<times> bool) list" where
  "call_of (Called c ok) = [(c, ok)]"
| "call_of (Logged _) = []"

definition calls :: "'z process_session_scheme \<Rightarrow> (resource_call \<times> bool) list" where
  "calls s = concat (map call_of (process_trace s))"

definition adds ::
    "('a result \<Rightarrow> (resource_call \<times> bool) list \<Rightarrow> bool) \<Rightarrow> ('z process_session_scheme, 'a) action \<Rightarrow> bool" where
  "adds P m \<longleftrightarrow> (\<forall>s r t. m s = (r, t) \<longrightarrow> (\<exists>cs. calls t = calls s @ cs \<and> P r cs))"

lemma addsE:
  assumes "adds P m" "m s = (r, t)"
  obtains cs where "calls t = calls s @ cs" "P r cs"
  using assms unfolding adds_def by blast

lemma adds_weaken: "adds P m \<Longrightarrow> (\<And>r cs. P r cs \<Longrightarrow> Q r cs) \<Longrightarrow> adds Q m"
  unfolding adds_def by blast

lemma adds_return: "adds (\<lambda>r cs. r = Inr a \<and> cs = []) (act_return a)"
  by (simp add: adds_def)

lemma adds_raise: "adds (\<lambda>r cs. r = Inl e \<and> cs = []) (act_raise e)"
  by (simp add: adds_def)

lemma adds_silent: "keeps process_trace m \<Longrightarrow> adds (\<lambda>_ cs. cs = []) m"
  unfolding adds_def calls_def by (metis append_Nil2 keeps_run)

lemma adds_bind:
  assumes "adds P m" "\<And>a. adds (Q a) (f a)"
  shows "adds (\<lambda>r cs. (\<exists>e. r = Inl e \<and> P (Inl e) cs) \<or> (\<exists>a xs ys. cs = xs @ ys \<and> P (Inr a) xs \<and> Q a r ys)) (act_bind m f)"
  using assms unfolding adds_def act_bind_def by (fastforce split: prod.splits sum.splits)

lemma adds_then:
  assumes "adds P m" "adds Q n"
  shows "adds (\<lambda>r cs. (\<exists>e. r = Inl e \<and> P (Inl e) cs) \<or> (\<exists>xs ys. cs = xs @ ys \<and> P (Inr ()) xs \<and> Q r ys)) (act_then m n)"
  unfolding act_then_def by (rule adds_weaken[OF adds_bind[OF assms(1), of "\<lambda>_. Q"]]) (use assms(2) in auto)

lemma adds_catch:
  assumes "adds P m" "\<And>e. adds (Q e) (h e)"
  shows "adds (\<lambda>r cs. (\<exists>a. r = Inr a \<and> P (Inr a) cs) \<or> (\<exists>e xs ys. cs = xs @ ys \<and> P (Inl e) xs \<and> Q e r ys)) (act_catch m h)"
  using assms unfolding adds_def act_catch_def by (fastforce split: prod.splits sum.splits)

lemma adds_finally:
  assumes "adds P m" "adds Q c"
  shows "adds (\<lambda>r cs. \<exists>r0 q xs ys. cs = xs @ ys \<and> P r0 xs \<and> Q q ys \<and>
      r = (case q of Inl e \<Rightarrow> Inl e | Inr _ \<Rightarrow> r0)) (act_finally m c)"
  unfolding adds_def
proof (intro allI impI)
  fix s r t
  assume run: "act_finally m c s = (r, t)"
  obtain r0 u where m: "m s = (r0, u)" by (meson surj_pair)
  obtain q v where c: "c u = (q, v)" by (meson surj_pair)
  have "t = v" "r = (case q of Inl e \<Rightarrow> Inl e | Inr _ \<Rightarrow> r0)"
    using run m c by (auto simp: act_finally_def split: sum.splits)
  then show "\<exists>cs. calls t = calls s @ cs \<and> (\<exists>r0 q xs ys. cs = xs @ ys \<and> P r0 xs \<and> Q q ys \<and>
      r = (case q of Inl e \<Rightarrow> Inl e | Inr _ \<Rightarrow> r0))"
    using addsE[OF assms(1) m] addsE[OF assms(2) c] by (metis append.assoc)
qed

lemma adds_log: "adds (\<lambda>r cs. r = Inr () \<and> cs = []) (log event component dependency outcome)"
  by (simp add: adds_def log_def emit_def calls_def)

definition succeeded :: "'a result \<Rightarrow> bool" where
  "succeeded r \<longleftrightarrow> (case r of Inl _ \<Rightarrow> False | Inr _ \<Rightarrow> True)"

lemma succeeded_simps [simp]: "succeeded (Inr a)" "\<not> succeeded (Inl e)"
  by (simp_all add: succeeded_def)

lemma adds_invoke:
  assumes "keeps process_trace m"
  shows "adds (\<lambda>r cs. cs = [(c, succeeded r)]) (invoke c m)"
  unfolding adds_def
proof (intro allI impI)
  fix s r t
  assume run: "invoke c m s = (r, t)"
  obtain r0 u where m: "m s = (r0, u)" by (meson surj_pair)
  have "process_trace u = process_trace s"
    using keeps_run[OF assms m] .
  then show "\<exists>cs. calls t = calls s @ cs \<and> cs = [(c, succeeded r)]"
    using run m by (auto simp: invoke_def act_try_def act_then_def act_bind_def emit_def calls_def split: sum.splits)
qed

subsection \<open>The parts\<close>

definition silent_dependencies :: "('z process_session_scheme) dependencies \<Rightarrow> bool" where
  \<comment> \<open>calls of the libraries do not write the trace of the application\<close>
  "silent_dependencies deps \<longleftrightarrow>
     keeps process_trace (dep_select_one deps) \<and> keeps process_trace (dep_ping deps) \<and>
     keeps process_trace (dep_disconnect deps) \<and> keeps process_trace (dep_dispose deps)"

lemma adds_checked:
  assumes "keeps process_trace m"
  shows "adds (\<lambda>r cs. cs = [(c, succeeded r)]) (checked dependency (invoke c m))"
proof -
  have "checked dependency n = act_bind
      (act_catch n (\<lambda>e. act_then (log ''dependency_check'' ''backend'' (Some dependency) ''failed'') (act_raise e)))
      (\<lambda>_. log ''dependency_check'' ''backend'' (Some dependency) ''ready'')" for n :: "('a process_session_scheme, unit) action"
    by (auto simp: checked_def act_try_def act_bind_def act_catch_def act_then_def log_def emit_def fun_eq_iff
        split: sum.splits prod.splits)
  then show ?thesis
    by (simp only:) (rule adds_weaken[OF adds_bind[OF adds_catch[OF adds_invoke[OF assms] adds_then[OF adds_log adds_raise]] adds_log]],
      fastforce)
qed

lemma adds_released:
  assumes "keeps process_trace m"
  shows "adds (\<lambda>r cs. r = Inr () \<and> (\<exists>ok. cs = [(c, ok)])) (released dependency (invoke c m))"
  unfolding released_def
  by (rule adds_weaken[OF adds_catch[OF adds_then[OF adds_invoke[OF assms] adds_log] adds_log]]) auto

definition validation :: "unit result \<Rightarrow> (resource_call \<times> bool) list \<Rightarrow> bool" where
  "validation r cs \<longleftrightarrow>
     \<not> succeeded r \<and> (cs = [(SELECT_ONE, False)] \<or> cs = [(SELECT_ONE, True), (PING, False)]) \<or>
     succeeded r \<and> cs = [(SELECT_ONE, True), (PING, True)]"

lemma adds_validation:
  assumes "silent_dependencies deps"
  shows "adds validation (validate_dependencies deps)"
  using assms
  unfolding validate_dependencies_def check_database_def check_redis_def silent_dependencies_def
  by (intro adds_weaken[OF adds_then[OF adds_checked adds_checked]]) (auto simp: validation_def)

definition released_all :: "unit result \<Rightarrow> (resource_call \<times> bool) list \<Rightarrow> bool" where
  "released_all r cs \<longleftrightarrow> r = Inr () \<and> map fst cs = [DISCONNECT, DISPOSE]"

lemma adds_disposal:
  assumes "silent_dependencies deps"
  shows "adds released_all (act_then (dispose_resources deps) (log event component dependency outcome))"
  using assms
  unfolding dispose_resources_def silent_dependencies_def
  by (intro adds_weaken[OF adds_then[OF adds_then[OF adds_released adds_released] adds_log]]) (auto simp: released_all_def)

lemma trace_more: "keeps session.more m \<Longrightarrow> keeps process_trace m"
  for m :: "('z process_session_scheme, 'a) action"
proof (rule keepsI)
  fix s r t
  assume "keeps session.more m" "m s = (r, t)"
  then have "session.more t = session.more s"
    by (rule keeps_run)
  then show "process_trace t = process_trace s"
    by (cases s, cases t) simp
qed

definition silent_port :: "('z process_session_scheme) recovery_port \<Rightarrow> bool" where
  "silent_port port \<longleftrightarrow>
     (\<forall>n. keeps process_trace (port_active_ids port n)) \<and>
     (\<forall>a b c d e. keeps process_trace (port_enqueue port a b c d e)) \<and>
     (\<forall>u. keeps process_trace (port_acquire port u)) \<and> (\<forall>u. keeps process_trace (port_release port u))"

lemma silent_reconciliation:
  assumes "silent_port port"
  shows "keeps process_trace (reconcile_preview_jobs port limits now)"
proof -
  note ports = assms[unfolded silent_port_def]
  note session = keeps_session[THEN trace_more] keeps_store(6)[THEN trace_more]
  have reload: "keeps process_trace (reload u :: ('z process_session_scheme, preview_job) action)" for u
    unfolding reload_def by (auto intro!: keeps_intros session split: option.splits)
  have invalidate: "keeps process_trace (session_invalidate :: ('z process_session_scheme, unit) action)"
    by (simp add: keeps_def session_invalidate_def)
  have requeued: "keeps process_trace (requeue port limits now j rc)" for j rc
    unfolding requeue_def by (cases "pj_status j = RUNNING") (auto intro!: keeps_intros session reload simp: ports)
  have locked: "keeps process_trace (reconcile_locked port limits now u rc)" for u rc
    unfolding reconcile_locked_def Let_def give_up_def
    by (auto intro!: keeps_simple keeps_bind session reload requeued simp: ports)
  have release: "keeps process_trace (release_or_raise port u)" for u
    unfolding release_or_raise_def by (auto intro!: keeps_intros session reload invalidate simp: ports)
  have candidate: "keeps process_trace (reconcile_candidate port limits now j rc)" for j rc
    unfolding reconcile_candidate_def
    by (auto intro!: keeps_simple keeps_bind keeps_finally reload locked release simp: ports)
  have loop: "keeps process_trace (reconcile_candidates port limits now js rc)" for js rc
    by (induction js arbitrary: rc) (auto intro!: keeps_simple keeps_bind candidate)
  show ?thesis
    unfolding reconcile_preview_jobs_def list_reconciliation_candidates_def
    by (auto intro!: keeps_simple keeps_bind session loop simp: ports)
qed

subsection \<open>The processes\<close>

definition worker_startup :: "int \<Rightarrow> (resource_call \<times> bool) list \<Rightarrow> bool" where
  \<comment> \<open>the calls before the release, and the exit code\<close>
  "worker_startup code cs \<longleftrightarrow>
     code = 1 \<and> (cs = [(SELECT_ONE, False)] \<or> cs = [(SELECT_ONE, True), (PING, False)] \<or>
        cs = [(SELECT_ONE, True), (PING, True), (RECONCILE, False)] \<or>
        cs = [(SELECT_ONE, True), (PING, True), (RECONCILE, True), (WORK, False)]) \<or>
     code = 0 \<and> cs = [(SELECT_ONE, True), (PING, True), (RECONCILE, True), (WORK, True)]"

lemma adds_worker_body:
  assumes "silent_dependencies deps" "silent_port port" "keeps process_trace work"
  shows "adds (\<lambda>r cs. case r of Inr code \<Rightarrow> code = 0 \<and> worker_startup 0 cs | Inl _ \<Rightarrow> worker_startup 1 cs)
    (worker_body deps port settings now work)"
proof -
  have reconcile: "keeps process_trace (act_finally (reconcile_preview_jobs port (worker_limits settings) now) db_rollback)"
    by (intro keeps_finally silent_reconciliation[OF assms(2)] keeps_session(3)[THEN trace_more])
  note finish = adds_then[OF adds_invoke[OF assms(3)] adds_return]
  note listening = adds_then[OF adds_log adds_then[OF adds_log finish]]
  show ?thesis
    unfolding worker_body_def
    by (rule adds_weaken[OF adds_then[OF adds_validation[OF assms(1)] adds_bind[OF adds_invoke[OF reconcile] listening]]])
      (auto simp: validation_def worker_startup_def)
qed

text \<open>
  C38. The worker starts and stops in order, whatever its resources do. Once its settings are read and
  its clients are built, no exception of theirs escapes (\<open>SystemExit\<close> and its like apart); it takes work
  only after PostgreSQL and Redis answered and the reconciliation completed; the exit code is zero
  exactly when the work ended without an error; and the connections of Redis and of the database are
  released at the end, once each, even when a release fails.
\<close>

theorem worker_lifecycle:
  assumes "run_worker deps port settings now work s = (r, t)"
    and "silent_dependencies deps" "silent_port port" "keeps process_trace work"
  shows "\<exists>code startup cleanup. r = Inr code \<and> calls t = calls s @ startup @ cleanup \<and>
    worker_startup code startup \<and> map fst cleanup = [DISCONNECT, DISPOSE]"
proof -
  note body = adds_catch[OF adds_worker_body[OF assms(2-4)] adds_then[OF adds_log adds_return]]
  have "adds (\<lambda>r cs. \<exists>code startup cleanup. r = Inr code \<and> cs = startup @ cleanup \<and>
      worker_startup code startup \<and> map fst cleanup = [DISCONNECT, DISPOSE]) (run_worker deps port settings now work)"
    unfolding run_worker_def
    by (rule adds_weaken[OF adds_then[OF adds_log adds_finally[OF body adds_disposal[OF assms(2)]]]])
      (fastforce simp: released_all_def)
  from addsE[OF this assms(1)] show ?thesis by metis
qed

definition api_served :: "bool \<Rightarrow> (resource_call \<times> bool) list \<Rightarrow> bool" where
  \<comment> \<open>the calls of a process that passed its checks, for an end without an error or with one\<close>
  "api_served ok cs \<longleftrightarrow>
     \<not> ok \<and> cs = [(OPEN_HTTP_CLIENT, False)] \<or>
     (\<exists>a b. ok = (a \<and> b) \<and> cs = [(OPEN_HTTP_CLIENT, True), (SERVE, a), (CLOSE_HTTP_CLIENT, b)])"

definition api_startup :: "bool \<Rightarrow> bool \<Rightarrow> (resource_call \<times> bool) list \<Rightarrow> bool" where
  \<comment> \<open>the calls before the release, for a process that skips the checks or not\<close>
  "api_startup unchecked ok cs \<longleftrightarrow>
     (if unchecked then api_served ok cs
      else \<not> ok \<and> (cs = [(SELECT_ONE, False)] \<or> cs = [(SELECT_ONE, True), (PING, False)]) \<or>
        (\<exists>rest. cs = (SELECT_ONE, True) # (PING, True) # rest \<and> api_served ok rest))"

lemma adds_then_close:
  assumes "adds (\<lambda>r cs. r = Inr () \<and> cs = []) l" "keeps process_trace m" "keeps process_trace n"
  shows "adds (\<lambda>r cs. \<exists>a b. succeeded r = (a \<and> b) \<and> cs = [(c, a), (d, b)])
    (act_finally (act_then l (invoke c m)) (invoke d n))"
proof -
  have inner: "adds (\<lambda>r cs. cs = [(c, succeeded r)]) (act_then l (invoke c m))"
    by (rule adds_weaken[OF adds_then[OF assms(1) adds_invoke[OF assms(2)]]]) auto
  show ?thesis
  proof (rule adds_weaken[OF adds_finally[OF inner adds_invoke[OF assms(3)]]], elim exE conjE)
    fix r r0 :: "'b result" and q :: "'c result" and cs xs ys
    assume "cs = xs @ ys" "xs = [(c, succeeded r0)]" "ys = [(d, succeeded q)]" "r = (case q of Inl e \<Rightarrow> Inl e | Inr _ \<Rightarrow> r0)"
    then show "\<exists>a b. succeeded r = (a \<and> b) \<and> cs = [(c, a), (d, b)]"
      by (intro exI[of _ "succeeded r0"] exI[of _ "succeeded q"]) (cases q; simp)
  qed
qed

text \<open>
  The API process serves requests only after the dependencies answered, except in the test
  environment, which does not ask them; an error of the start or of the serving is raised again; the
  HTTP client is closed when it was opened; and the connections are released at the end, once each.
\<close>

lemma api_lifecycle:
  assumes "lifespan deps settings open_client serve close_client s = (r, t)"
    and "silent_dependencies deps" "keeps process_trace open_client" "keeps process_trace serve" "keeps process_trace close_client"
  shows "\<exists>startup cleanup. calls t = calls s @ startup @ cleanup \<and>
    api_startup (environment settings = TEST) (succeeded r) startup \<and> map fst cleanup = [DISCONNECT, DISPOSE]"
proof -
  let ?test = "environment settings = TEST"
  have checks: "adds (\<lambda>r cs. if ?test then r = Inr () \<and> cs = [] else validation r cs)
      (if ?test then act_skip else validate_dependencies deps)"
    using adds_return adds_validation[OF assms(2)] unfolding act_skip_def by (cases ?test) simp_all
  have "adds (\<lambda>r cs. \<exists>a b. succeeded r = (a \<and> b) \<and> cs = [(SERVE, a), (CLOSE_HTTP_CLIENT, b)])
      (act_finally (act_then (log ''startup'' ''api'' None ''ready'') (invoke SERVE serve)) (invoke CLOSE_HTTP_CLIENT close_client))"
    by (rule adds_then_close[OF adds_log assms(4,5)])
  note opened = adds_then[OF adds_invoke[OF assms(3)] this]
  have "adds (\<lambda>r cs. api_served (succeeded r) cs)
      (act_then (invoke OPEN_HTTP_CLIENT open_client)
        (act_finally (act_then (log ''startup'' ''api'' None ''ready'') (invoke SERVE serve)) (invoke CLOSE_HTTP_CLIENT close_client)))"
  proof (rule adds_weaken[OF opened], elim disjE exE conjE)
    fix r :: "unit result" and cs and e :: py_error
    assume "r = Inl e" "cs = [(OPEN_HTTP_CLIENT, succeeded (Inl e :: unit result))]"
    then show "api_served (succeeded r) cs" by (simp add: api_served_def)
  next
    fix r :: "unit result" and cs xs ys a b
    assume "cs = xs @ ys" "xs = [(OPEN_HTTP_CLIENT, succeeded (Inr ()))]" "succeeded r = (a \<and> b)"
      "ys = [(SERVE, a), (CLOSE_HTTP_CLIENT, b)]"
    then show "api_served (succeeded r) cs" by (simp add: api_served_def)
  qed
  note body = adds_then[OF checks this]
  have "adds (\<lambda>r cs. api_startup ?test (succeeded r) cs)
     (act_then (if ?test then act_skip else validate_dependencies deps)
             (act_then (invoke OPEN_HTTP_CLIENT open_client)
             (act_finally
                (act_then (log ''startup'' ''api'' None ''ready'') (invoke SERVE serve))
                (invoke CLOSE_HTTP_CLIENT close_client))))"
    by (rule adds_weaken[OF body]) (cases ?test; auto simp: api_startup_def validation_def)
  note raised = adds_catch[OF this adds_then[OF adds_log adds_raise]]
  have "adds (\<lambda>r cs. \<exists>startup cleanup. cs = startup @ cleanup \<and>
      api_startup ?test (succeeded r) startup \<and> map fst cleanup = [DISCONNECT, DISPOSE])
      (lifespan deps settings open_client serve close_client)"
    unfolding lifespan_def
    by (rule adds_weaken[OF adds_then[OF adds_log adds_finally[OF raised adds_disposal[OF assms(2)]]]])
      (fastforce simp: released_all_def)
  from addsE[OF this assms(1)] show ?thesis by metis
qed

subsection \<open>Concrete processes\<close>

lemma lock_operations_silent:
  fixes job_id :: uuid
  shows "keeps process_trace (try_acquire_preview_job_lock job_id :: ('z process_session_scheme, bool) action)"
    and "keeps process_trace (release_preview_job_lock job_id :: ('z process_session_scheme, unit) action)"
proof -
  have own: "keeps process_trace (\<lambda>t :: 'z process_session_scheme. (Inr (), t\<lparr>locks_held := g t\<rparr>))" for g
    by (simp add: keeps_def)
  show "keeps process_trace (try_acquire_preview_job_lock job_id :: ('z process_session_scheme, bool) action)"
  proof (rule keepsI)
    fix s t :: "'z process_session_scheme" and r
    assume run: "try_acquire_preview_job_lock job_id s = (r, t)"
    obtain q u where e: "db_execute (\<lambda>_. ()) s = (q, u)" by (meson surj_pair)
    have "process_trace u = process_trace s"
      by (rule keeps_run[OF keeps_session(1)[THEN trace_more] e])
    then show "process_trace t = process_trace s"
      using run e
      by (auto simp: try_acquire_preview_job_lock_def attempt_lock_def spend_attempt_def Let_def
          split: if_splits sum.splits)
  qed
  show "keeps process_trace (release_preview_job_lock job_id :: ('z process_session_scheme, unit) action)"
    by (rule keeps_unless[OF keeps_bind[OF keeps_session(1)[THEN trace_more] own]]) (simp add: release_preview_job_lock_def)
qed

lemma default_port_silent:
  assumes "\<And>n. keeps process_trace (active_ids n)" "\<And>a b c d e. keeps process_trace (enqueue_job a b c d e)"
  shows "silent_port (default_port active_ids enqueue_job)"
  using assms by (simp add: silent_port_def default_port_def lock_operations_silent)

definition redis_down :: "('z process_session_scheme) dependencies" where
  "redis_down =
     \<lparr>dep_select_one = act_skip, dep_ping = act_raise RedisError, dep_disconnect = act_skip,
      dep_dispose = act_raise DatabaseFault\<rparr>"

lemma redis_down_silent: "silent_dependencies redis_down"
  by (simp add: silent_dependencies_def redis_down_def keeps_intros)

definition idle_port :: "('z process_session_scheme) recovery_port" where
  "idle_port = default_port (\<lambda>_. act_return []) (\<lambda>_ _ _ _ _. act_skip)"

lemma idle_port_silent: "silent_port idle_port"
  unfolding idle_port_def by (intro default_port_silent keeps_intros)

definition process_sample :: process_session where
  "process_sample =
     \<lparr>table_rows = [], fault_schedule = [], needs_rollback = False,
      attributes_expired = False, is_postgresql = True, lock_free = (\<lambda>_. True), attempt_time = (\<lambda>_. 0),
      lock_attempts = 0, locks_held = [], monotonic_clock = 0, process_trace = []\<rparr>"

theorem worker_lifecycle_witness:
  "\<exists>code startup cleanup. fst (run_worker redis_down idle_port default_settings 0 act_skip process_sample) = Inr code \<and>
     calls (snd (run_worker redis_down idle_port default_settings 0 act_skip process_sample)) = startup @ cleanup \<and>
     worker_startup code startup \<and> startup = [(SELECT_ONE, True), (PING, False)] \<and> cleanup = [(DISCONNECT, True), (DISPOSE, False)]"
proof -
  let ?run = "run_worker redis_down idle_port default_settings 0 act_skip process_sample"
  have calls: "calls (snd ?run) = [(SELECT_ONE, True), (PING, False), (DISCONNECT, True), (DISPOSE, False)]" "calls process_sample = []"
    by code_simp+
  have split: "?run = (fst ?run, snd ?run)"
    by simp
  obtain code startup cleanup where run: "fst ?run = Inr code" "calls (snd ?run) = calls process_sample @ startup @ cleanup"
    "worker_startup code startup" "map fst cleanup = [DISCONNECT, DISPOSE]"
    using worker_lifecycle[OF split redis_down_silent idle_port_silent keeps_simple(4)]
    by (elim exE conjE) (rule that)
  have "length cleanup = 2"
    using arg_cong[OF run(4), of length] by simp
  then have "startup = [(SELECT_ONE, True), (PING, False)] \<and> cleanup = [(DISCONNECT, True), (DISPOSE, False)]"
    using run(2) unfolding calls by (auto simp: Cons_eq_append_conv numeral_2_eq_2)
  with run calls show ?thesis by auto
qed

lemma api_lifecycle_witness:
  "\<exists>startup. calls (snd (lifespan redis_down default_settings act_skip act_skip act_skip process_sample)) =
     startup @ [(DISCONNECT, True), (DISPOSE, False)] \<and> api_startup False False startup"
proof -
  let ?run = "lifespan redis_down default_settings act_skip act_skip act_skip process_sample"
  have calls: "calls (snd ?run) = [(SELECT_ONE, True), (PING, False)] @ [(DISCONNECT, True), (DISPOSE, False)]"
    "calls process_sample = []" "\<not> succeeded (fst ?run)"
    by code_simp+
  have split: "?run = (fst ?run, snd ?run)"
    by simp
  obtain startup cleanup where run: "calls (snd ?run) = calls process_sample @ startup @ cleanup"
    "api_startup (environment default_settings = TEST) (succeeded (fst ?run)) startup" "map fst cleanup = [DISCONNECT, DISPOSE]"
    using api_lifecycle[OF split redis_down_silent keeps_simple(4) keeps_simple(4) keeps_simple(4)]
    by (elim exE conjE) (rule that)
  have "length cleanup = 2"
    using arg_cong[OF run(3), of length] by simp
  then have "cleanup = [(DISCONNECT, True), (DISPOSE, False)]"
    using run(1) unfolding calls by (metis append_Nil append_eq_append_conv length_Cons list.size(3) numeral_2_eq_2)
  with run calls show ?thesis
    by (auto simp: default_settings_def)
qed

end
