(* ===== verification/Job_System.thy ===== *)
theory Job_System
  imports Process_Lifecycle Job_Properties
begin

text \<open>
  The system of preview jobs as a whole: requests that submit and read jobs, workers that process queue
  entries, RQ's failure callbacks, the reconciliation and the clean-up, in any order, each on its own
  session over the shared table, under any faults of the database and for any behaviour of the
  parameters. A state is the table, the identifiers generated so far, and the latest time at
  which the clean-up ran. Every operation is one step: inside it, other processes show only as
  faults of the database and as locks that are held.
\<close>

record job_system =
  sys_rows :: "preview_job list"
  sys_used :: "uuid set"
  sys_cleaned :: timestamp

definition harmless_queue :: "preview_session enqueue \<Rightarrow> bool" where
  \<comment> \<open>RQ keeps its entries in Redis\<close>
  "harmless_queue enqueue_job \<longleftrightarrow> (\<forall>a b c d e. keeps table_rows (enqueue_job a b c d e))"

inductive system_step :: "job_system \<Rightarrow> job_system \<Rightarrow> bool" where
  submit: "strategy_source_text raw = Inr payload \<Longrightarrow> harmless_queue enqueue_job \<Longrightarrow> job_id \<notin> sys_used \<sigma> \<Longrightarrow>
    table_rows s = sys_rows \<sigma> \<Longrightarrow>
    request_session (preview_strategy settings enqueue_job now later job_id user_id payload) s = (r, t) \<Longrightarrow>
    system_step \<sigma> (\<sigma>\<lparr>sys_rows := table_rows t, sys_used := insert job_id (sys_used \<sigma>)\<rparr>)"
| read: "table_rows s = sys_rows \<sigma> \<Longrightarrow> request_session (get_preview_job validate user_id job_id) s = (r, t) \<Longrightarrow>
    system_step \<sigma> (\<sigma>\<lparr>sys_rows := table_rows (t :: preview_session)\<rparr>)"
| process: "(\<And>parsed. reads_only (preview_factory parsed :: (preview_session, strategy_preview) action)) \<Longrightarrow>
    table_rows s = sys_rows \<sigma> \<Longrightarrow>
    process_preview_job settings tf parser preview_factory started finished later left job_text s = (r, t) \<Longrightarrow>
    system_step \<sigma> (\<sigma>\<lparr>sys_rows := table_rows t\<rparr>)"
| callback: "table_rows s = sys_rows \<sigma> \<Longrightarrow> handle_preview_job_failure now left args s = (r, t) \<Longrightarrow>
    system_step \<sigma> (\<sigma>\<lparr>sys_rows := table_rows (t :: preview_session)\<rparr>)"
| reconcile: "harmless_queue enqueue_job \<Longrightarrow> (\<And>n. keeps table_rows (active_ids n)) \<Longrightarrow> table_rows s = sys_rows \<sigma> \<Longrightarrow>
    reconcile_preview_jobs (default_port active_ids enqueue_job) limits now s = (r, t) \<Longrightarrow>
    system_step \<sigma> (\<sigma>\<lparr>sys_rows := table_rows t\<rparr>)"
| cleanup: "table_rows s = sys_rows \<sigma> \<Longrightarrow> cleanup_main now s = (r, t) \<Longrightarrow>
    system_step \<sigma> (\<sigma>\<lparr>sys_rows := table_rows (t :: preview_session), sys_cleaned := max now (sys_cleaned \<sigma>)\<rparr>)"

definition initial_system :: "timestamp \<Rightarrow> job_system" where
  "initial_system epoch = \<lparr>sys_rows = [], sys_used = {}, sys_cleaned = epoch\<rparr>"

subsection \<open>What one operation does to the table\<close>

lemma evolves_by_triple:
  assumes "triple (evolved (table_rows s) UNIV False) m (\<lambda>_. evolved (table_rows s) UNIV False)
      (\<lambda>_. evolved (table_rows s) UNIV False)"
    and "m s = (r, t)" "store_ok (table_rows s)"
  shows "rows_evolve UNIV (table_rows s) (table_rows t)"
proof -
  have start: "evolved (table_rows s) UNIV False s"
    by (rule evolved_start) (use assms(3) in auto)
  then show ?thesis
    using triple_Inr[OF assms(1) start] triple_Inl[OF assms(1) start] assms(2) by (cases r) (auto simp: evolved_def)
qed

lemma process_evolves:
  assumes "process_preview_job settings tf parser preview_factory started finished later left job_text s = (r, t)"
    and "store_ok (table_rows s)" "\<And>parsed. reads_only (preview_factory parsed)"
  shows "rows_evolve UNIV (table_rows s) (table_rows t)"
proof -
  have "triple (evolved (table_rows s) UNIV False)
      (process_preview_job settings tf parser preview_factory started finished later left job_text)
      (\<lambda>_. evolved (table_rows s) UNIV False) (\<lambda>_. evolved (table_rows s) UNIV False)"
    by (rule triple_weaken[OF triple_process]) (use assms(3) in \<open>auto simp: retryable_def\<close>)
  from evolves_by_triple[OF this assms(1,2)] show ?thesis .
qed

lemma reconcile_evolves:
  assumes "reconcile_preview_jobs (default_port active_ids enqueue_job) limits now s = (r, t)"
    and "store_ok (table_rows s)" "harmless_queue enqueue_job" "\<And>n. keeps table_rows (active_ids n)"
  shows "rows_evolve UNIV (table_rows s) (table_rows t)"
proof -
  have "quiet (default_port active_ids enqueue_job)"
    by (rule default_quiet) (use assms(3,4) in \<open>auto simp: harmless_queue_def\<close>)
  note run = triple_reconcile[OF this, of "table_rows s" limits now]
  have start: "grown (table_rows s) s \<and> table_rows s = table_rows s"
    using assms(2) by (simp add: evolved_def)
  show ?thesis
    using triple_Inr[OF run start] triple_Inl[OF run start] assms(1) by (cases r) (auto simp: evolved_def)
qed

lemma transition_evolves:
  assumes "transition_job_after_operational_failure now job_id w m s = (r, t)" "store_ok (table_rows s)"
  shows "rows_evolve UNIV (table_rows s) (table_rows t)"
proof -
  have "triple (evolved (table_rows s) UNIV False) (transition_job_after_operational_failure now job_id w m)
      (\<lambda>_. evolved (table_rows s) UNIV False) (\<lambda>_. evolved (table_rows s) UNIV False)"
    by (rule triple_weaken[OF triple_transition]) (auto simp: crashed_def)
  from evolves_by_triple[OF this assms] show ?thesis .
qed

lemma callback_evolves:
  assumes "handle_preview_job_failure now left args s = (r, t)" "store_ok (table_rows s)"
  shows "rows_evolve UNIV (table_rows s) (table_rows t)"
proof -
  consider "t = s" | job_id w q where "transition_job_after_operational_failure now job_id w FINAL_ERROR (snd (db_rollback s)) = (q, t)"
    using assms(1)
    by (auto simp: handle_preview_job_failure_def act_then_def act_bind_def db_rollback_def
        split: list.splits option.splits prod.splits sum.splits)
  then show ?thesis
  proof cases
    case 2
    have "table_rows (snd (db_rollback s)) = table_rows s"
      by (simp add: db_rollback_def)
    then show ?thesis
      using transition_evolves[OF 2] assms(2) by simp
  qed simp
qed

lemma fail_job_rows:
  assumes "fail_job now job_id m s = (r, t)"
  shows "table_rows t = table_rows s \<or> table_rows t = update_where (\<lambda>j. pj_id j = job_id) (failed now m) (table_rows s)"
proof -
  obtain q u where a: "db_attribute s = (q, u)" by (meson surj_pair)
  then have u: "u = s" "q = Inr () \<or> (\<exists>e. q = Inl e)"
    by (auto simp: db_attribute_def split: if_splits)
  then show ?thesis
    using assms a by (auto simp: fail_job_eq act_then_def act_bind_def save_job_def failed_flush_def
        dest!: db_commit_cases split: if_splits sum.splits)
qed

lemma create_job_rows:
  assumes "create_job now job_id user_id tx nm ttl s = (r, t)"
  shows "(table_rows t = table_rows s \<and> (\<exists>e. r = Inl e)) \<or>
    table_rows t = table_rows s @ [new_job now job_id user_id tx nm ttl] \<and>
      (\<forall>j. r = Inr j \<longrightarrow> pj_id j = job_id)"
proof -
  let ?new = "new_job now job_id user_id tx nm ttl"
  obtain q u where c: "db_commit table_ok (\<lambda>rows. rows @ [?new]) s = (q, u)" by (meson surj_pair)
  obtain p v where e: "db_execute (find_job job_id) u = (p, v)" by (meson surj_pair)
  show ?thesis
    using assms db_commit_cases[OF c] db_execute_cases[OF e] find_job_SomeD[of job_id]
    by (auto simp: create_job_def act_then_def act_bind_def c e split: option.splits)
qed

abbreviation submitted_rows ::
    "settings \<Rightarrow> timestamp \<Rightarrow> uuid \<Rightarrow> uuid \<Rightarrow> string \<Rightarrow> string option \<Rightarrow> preview_job list \<Rightarrow> preview_job list" where
  "submitted_rows settings now job_id user_id tx nm rows \<equiv>
     rows @ [new_job now job_id user_id tx nm (preview_job_ttl_hours settings)]"

lemma enqueue_or_fail_rows:
  assumes "enqueue_or_fail enqueue_job later job user_id tx nm s = (r, t)" "harmless_queue enqueue_job"
  shows "table_rows t = table_rows s \<or>
    table_rows t = update_where (\<lambda>j. pj_id j = pj_id job) (failed later ''Unable to queue the strategy preview.'') (table_rows s)"
proof -
  obtain q u where e: "enqueue_job (pj_id job) user_id tx nm None s = (q, u)" by (meson surj_pair)
  obtain p v where f: "fail_job later (pj_id job) ''Unable to queue the strategy preview.'' u = (p, v)" by (meson surj_pair)
  have "table_rows u = table_rows s"
    using assms(2) e unfolding harmless_queue_def keeps_def by (metis snd_conv)
  then show ?thesis
    using assms(1) e f fail_job_rows[OF f]
    by (auto simp: enqueue_or_fail_def act_then_def act_catch_def act_bind_def split: sum.splits)
qed

lemma submit_rows:
  assumes "submit_preview_job settings enqueue_job now later job_id user_id tx nm s = (r, t)" "harmless_queue enqueue_job"
  shows "table_rows t = table_rows s \<or> table_rows t = submitted_rows settings now job_id user_id tx nm (table_rows s) \<or>
    table_rows t = update_where (\<lambda>j. pj_id j = job_id) (failed later ''Unable to queue the strategy preview.'')
      (submitted_rows settings now job_id user_id tx nm (table_rows s))"
proof -
  obtain a u where acq: "acquire_preview_job_lock (microseconds (preview_job_lock_wait_seconds settings)) job_id s = (a, u)"
    by (meson surj_pair)
  have u: "table_rows u = table_rows s"
    using acquire_cases[OF acq[unfolded acquire_preview_job_lock_def]] by blast
  obtain c v where create: "create_job now job_id user_id tx nm (preview_job_ttl_hours settings) u = (c, v)"
    by (meson surj_pair)
  note v = create_job_rows[OF create]
  have rest: "table_rows w = table_rows x"
    if "act_finally m (release_after_rollback job_id) u = (q, w)" "m u = (p, x)" for m p q w x
    using that by (auto simp: act_finally_def split: prod.splits sum.splits dest: release_quiet)
  show ?thesis
  proof (cases "a = Inr True")
    case False
    then show ?thesis
      using assms(1) u by (auto simp: submit_preview_job_def act_bind_def acq split: sum.splits if_splits)
  next
    case True
    let ?m = "act_bind (create_job now job_id user_id tx nm (preview_job_ttl_hours settings))
      (\<lambda>job. enqueue_or_fail enqueue_job later job user_id tx nm)"
    have run: "act_finally ?m (release_after_rollback job_id) u = (r, t)"
      using assms(1) True by (simp add: submit_preview_job_def act_bind_def acq)
    show ?thesis
    proof (cases c)
      case (Inl e)
      then show ?thesis
        using rest[OF run, of "Inl e" v] create v u by (auto simp: act_bind_def)
    next
      case (Inr job)
      obtain p x where e: "enqueue_or_fail enqueue_job later job user_id tx nm v = (p, x)" by (meson surj_pair)
      have "?m u = (p, x)"
        using create Inr e by (simp add: act_bind_def)
      then show ?thesis
        using rest[OF run] enqueue_or_fail_rows[OF e assms(2)] v Inr u by auto
    qed
  qed
qed

lemma cleanup_rows:
  assumes "cleanup_main now s = (r, t)"
  shows "table_rows t = table_rows s \<or> table_rows t = filter (\<lambda>j. \<not> pj_expires_at j < now) (table_rows s)"
proof -
  have "table_rows u = table_rows s \<or> table_rows u = filter (\<lambda>j. \<not> pj_expires_at j < now) (table_rows s)"
    if "delete_expired_jobs now s = (q, u)" for q u
    using that
    by (auto simp: delete_expired_jobs_def act_then_def act_bind_def split: prod.splits sum.splits
        dest!: db_execute_cases db_commit_cases)
  then show ?thesis
    using assms by (auto simp: cleanup_main_def act_bind_def act_finally_def db_rollback_def split: prod.splits sum.splits)
qed

subsection \<open>Reachable states\<close>

definition system_ok :: "job_system \<Rightarrow> bool" where
  "system_ok \<sigma> \<longleftrightarrow> store_ok (sys_rows \<sigma>) \<and> pj_id ` set (sys_rows \<sigma>) \<subseteq> sys_used \<sigma>"

definition followed :: "timestamp \<Rightarrow> preview_job option \<Rightarrow> preview_job option \<Rightarrow> bool" where
  \<comment> \<open>what can become of a job that exists, or existed\<close>
  "followed cleaned before after \<longleftrightarrow>
     (case before of None \<Rightarrow> after = None
      | Some j \<Rightarrow> (case after of None \<Rightarrow> pj_expires_at j < cleaned | Some j' \<Rightarrow> job_steps j j'))"

definition advanced :: "job_system \<Rightarrow> job_system \<Rightarrow> bool" where
  "advanced \<sigma> \<tau> \<longleftrightarrow>
     sys_used \<sigma> \<subseteq> sys_used \<tau> \<and> sys_cleaned \<sigma> \<le> sys_cleaned \<tau> \<and>
     (\<forall>k \<in> sys_used \<sigma>. followed (sys_cleaned \<tau>) (find_job k (sys_rows \<sigma>)) (find_job k (sys_rows \<tau>)))"

lemma job_steps_expiry: "job_steps j j' \<Longrightarrow> pj_expires_at j' = pj_expires_at j"
  by (drule job_steps_submission) (simp add: submission_of_def)

lemma followed_trans:
  assumes "followed c x y" "followed d y z" "c \<le> d"
  shows "followed d x z"
  using assms job_steps_expiry unfolding followed_def
  by (auto split: option.splits intro: rtranclp_trans)

lemma advanced_trans: "advanced \<sigma> \<tau> \<Longrightarrow> advanced \<tau> \<upsilon> \<Longrightarrow> advanced \<sigma> \<upsilon>"
  unfolding advanced_def by (meson followed_trans order_trans subsetD)

lemma rows_step:
  assumes "system_ok \<sigma>" "rows_evolve UNIV (sys_rows \<sigma>) rows"
  shows "system_ok (\<sigma>\<lparr>sys_rows := rows\<rparr>) \<and> advanced \<sigma> (\<sigma>\<lparr>sys_rows := rows\<rparr>)"
proof -
  have "set (map pj_id rows) = set (map pj_id (sys_rows \<sigma>))"
    using rows_evolve_ids[OF assms(2)] by simp
  moreover have "followed c (find_job k (sys_rows \<sigma>)) (find_job k rows)" for k c
    using find_job_evolves[OF assms(2), of k] find_job_none_evolves[OF assms(2), of k]
    by (cases "find_job k (sys_rows \<sigma>)") (auto simp: followed_def)
  ultimately show ?thesis
    using assms rows_evolve_ok[OF assms(2)] by (simp add: system_ok_def advanced_def)
qed

lemma find_job_snoc: "find_job k (rows @ [j]) = (if find_job k rows \<noteq> None then find_job k rows else if pj_id j = k then Some j else None)"
  by (induction rows) (auto simp: find_job_def)

lemma submit_step:
  assumes "system_ok \<sigma>" "pj_id j \<notin> sys_used \<sigma>" "job_ok j" "rows_evolve UNIV (sys_rows \<sigma> @ [j]) rows"
  shows "system_ok (\<sigma>\<lparr>sys_rows := rows, sys_used := insert (pj_id j) (sys_used \<sigma>)\<rparr>) \<and>
    advanced \<sigma> (\<sigma>\<lparr>sys_rows := rows, sys_used := insert (pj_id j) (sys_used \<sigma>)\<rparr>)"
proof -
  let ?\<rho> = "\<sigma>\<lparr>sys_rows := sys_rows \<sigma> @ [j], sys_used := insert (pj_id j) (sys_used \<sigma>)\<rparr>"
  have absent: "find_job (pj_id j) (sys_rows \<sigma>) = None"
    using assms(1,2) find_job_SomeD[of "pj_id j"] by (cases "find_job (pj_id j) (sys_rows \<sigma>)") (force simp: system_ok_def)+
  have ok: "system_ok ?\<rho>"
    using assms(1) store_ok_snoc[OF _ absent assms(3)] by (auto simp: system_ok_def)
  have adv: "advanced \<sigma> ?\<rho>"
    using assms(2) by (auto simp: advanced_def followed_def find_job_snoc split: option.splits)
  have eq: "?\<rho>\<lparr>sys_rows := rows\<rparr> = \<sigma>\<lparr>sys_rows := rows, sys_used := insert (pj_id j) (sys_used \<sigma>)\<rparr>"
    by (cases \<sigma>) simp
  have "rows_evolve UNIV (sys_rows ?\<rho>) rows"
    using assms(4) by simp
  from rows_step[OF ok this] show ?thesis
    unfolding eq using advanced_trans[OF adv] by blast
qed

lemma find_SomeD: "List.find P xs = Some x \<Longrightarrow> x \<in> set xs \<and> P x"
  by (auto simp: find_Some_iff)

lemma find_job_filter:
  assumes "distinct (map pj_id rows)"
  shows "find_job k (filter P rows) = (case find_job k rows of None \<Rightarrow> None | Some j \<Rightarrow> if P j then Some j else None)"
  using assms
  by (induction rows) (auto simp: find_job_def find_None_iff image_iff dest!: find_SomeD split: option.splits)

lemma cleanup_step:
  assumes "system_ok \<sigma>"
  shows "system_ok (\<sigma>\<lparr>sys_rows := filter (\<lambda>j. \<not> pj_expires_at j < now) (sys_rows \<sigma>), sys_cleaned := max now (sys_cleaned \<sigma>)\<rparr>) \<and>
    advanced \<sigma> (\<sigma>\<lparr>sys_rows := filter (\<lambda>j. \<not> pj_expires_at j < now) (sys_rows \<sigma>), sys_cleaned := max now (sys_cleaned \<sigma>)\<rparr>)"
proof -
  have "distinct (map pj_id (sys_rows \<sigma>))"
    using assms by (simp add: system_ok_def store_ok_def)
  note kept = find_job_filter[OF this]
  show ?thesis
    using assms
    by (auto simp: system_ok_def advanced_def followed_def kept store_ok_def list_all_iff distinct_map_filter
        split: option.splits)
qed

lemma request_session_rows:
  assumes "request_session m s = (r, t)"
  obtains q u where "m s = (q, u)" "table_rows t = table_rows u"
  using assms by (auto simp: request_session_def act_catch_def act_then_def act_bind_def db_rollback_def split: prod.splits sum.splits)

lemma preview_strategy_rows:
  assumes "preview_strategy settings enqueue_job now later job_id user_id payload s = (r, t)"
  obtains q u where "submit_preview_job settings enqueue_job now later job_id user_id payload None s = (q, u)"
    "table_rows t = table_rows u"
  using assms by (auto simp: preview_strategy_def act_catch_def act_then_def act_bind_def db_rollback_def split: prod.splits sum.splits)

lemma get_preview_job_rows:
  assumes "get_preview_job validate user_id job_id s = (r, t)"
  shows "table_rows t = table_rows s"
  using assms
  by (auto simp: get_preview_job_def get_job_def act_bind_def split: prod.splits sum.splits option.splits dest!: db_execute_cases)

lemma system_step_effect:
  assumes "system_step \<sigma> \<tau>" "system_ok \<sigma>"
  shows "system_ok \<tau> \<and> advanced \<sigma> \<tau>"
  using assms
proof (induction rule: system_step.induct)
  case (submit raw payload enqueue_job job_id \<sigma> s settings now later user_id r t)
  let ?new = "new_job now job_id user_id payload None (preview_job_ttl_hours settings)"
  let ?m = "''Unable to queue the strategy preview.''"
  obtain q u where u: "preview_strategy settings enqueue_job now later job_id user_id payload s = (q, u)" "table_rows t = table_rows u"
    using request_session_rows[OF submit.hyps(5)] .
  obtain p v where v: "submit_preview_job settings enqueue_job now later job_id user_id payload None s = (p, v)" "table_rows u = table_rows v"
    using preview_strategy_rows[OF u(1)] .
  have new: "job_ok ?new" "pj_id ?new = job_id" "active_status (pj_status ?new)"
    using new_job_ok submit.hyps(1)
    by (auto simp: strategy_source_text_def Let_def new_job_def active_status_def split: if_splits)
  have unchanged: "\<sigma>\<lparr>sys_rows := sys_rows \<sigma>, sys_used := insert job_id (sys_used \<sigma>)\<rparr> = \<sigma>\<lparr>sys_used := insert job_id (sys_used \<sigma>)\<rparr>"
    by (cases \<sigma>) simp
  have absent: "pj_id j \<noteq> job_id" if "j \<in> set (sys_rows \<sigma>)" for j
    using that submit.prems submit.hyps(3) by (auto simp: system_ok_def)
  consider "table_rows t = sys_rows \<sigma>" | "rows_evolve UNIV (sys_rows \<sigma> @ [?new]) (table_rows t)"
  proof -
    have "rows_evolve UNIV (sys_rows \<sigma> @ [?new]) (update_where (\<lambda>j. pj_id j = job_id) (failed later ?m) (sys_rows \<sigma> @ [?new]))"
      using new absent by (intro rows_evolve_update) (auto intro: job_step.fail)
    then show thesis
      using that submit_rows[OF v(1) submit.hyps(2)] u(2) v(2) submit.hyps(4) by auto
  qed
  then show ?case
  proof cases
    case 1
    then show ?thesis
      using submit.prems unchanged by (auto simp: system_ok_def advanced_def followed_def split: option.splits)
  next
    case 2
    then show ?thesis
      using submit_step[OF submit.prems _ new(1)] new(2) submit.hyps(3) by simp
  qed
next
  case (read s \<sigma> validate user_id job_id r t)
  obtain q u where "get_preview_job validate user_id job_id s = (q, u)" "table_rows t = table_rows u"
    using request_session_rows[OF read.hyps(2)] .
  then show ?case
    using rows_step[OF read.prems, of "table_rows t"] get_preview_job_rows read.hyps(1) by fastforce
next
  case (process preview_factory s \<sigma> settings tf parser started finished later left job_text r t)
  show ?case
    using rows_step[OF process.prems] process_evolves[OF process.hyps(3)] process.hyps(1,2) process.prems
    by (simp add: system_ok_def)
next
  case (callback s \<sigma> now left args r t)
  show ?case
    using rows_step[OF callback.prems] callback_evolves[OF callback.hyps(2)] callback.hyps(1) callback.prems
    by (simp add: system_ok_def)
next
  case (reconcile enqueue_job active_ids s \<sigma> limits now r t)
  show ?case
    using rows_step[OF reconcile.prems] reconcile_evolves[OF reconcile.hyps(4)] reconcile.hyps(1-3) reconcile.prems
    by (simp add: system_ok_def)
next
  case (cleanup s \<sigma> now r t)
  have "system_ok (\<sigma>\<lparr>sys_cleaned := max now (sys_cleaned \<sigma>)\<rparr>) \<and> advanced \<sigma> (\<sigma>\<lparr>sys_cleaned := max now (sys_cleaned \<sigma>)\<rparr>)"
    using cleanup.prems by (auto simp: system_ok_def advanced_def followed_def split: option.splits)
  moreover have "\<sigma>\<lparr>sys_rows := sys_rows \<sigma>, sys_cleaned := max now (sys_cleaned \<sigma>)\<rparr> = \<sigma>\<lparr>sys_cleaned := max now (sys_cleaned \<sigma>)\<rparr>"
    by (cases \<sigma>) simp
  ultimately show ?case
    using cleanup_rows[OF cleanup.hyps(2)] cleanup_step[OF cleanup.prems, of now] cleanup.hyps(1) by auto
qed

lemma reachable_effect:
  assumes "system_step\<^sup>*\<^sup>* \<sigma> \<tau>" "system_ok \<sigma>"
  shows "system_ok \<tau> \<and> advanced \<sigma> \<tau>"
  using assms
proof (induction rule: rtranclp_induct)
  case base
  then show ?case by (auto simp: advanced_def followed_def split: option.splits)
next
  case (step \<tau> \<upsilon>)
  then show ?case
    using system_step_effect advanced_trans by blast
qed

lemma initial_ok: "system_ok (initial_system epoch)"
  by (simp add: initial_system_def system_ok_def store_ok_def)

lemma job_steps_phases:
  "job_steps j j' \<Longrightarrow> phase_step\<^sup>*\<^sup>* (phase_of j, pj_attempt_count j) (phase_of j', pj_attempt_count j')"
  by (induction rule: rtranclp_induct) (auto dest: job_step_refines)

text \<open>
  C35. The life of a job in the whole system: whatever requests, workers, callbacks, reconciliations and
  clean-ups run, in any order and under any faults, the table stays well formed, and a job that was
  stored keeps its submission, never loses an attempt, moves only along the phases of its life cycle,
  stays exactly as it is once it completed or failed, and disappears only by a clean-up after its
  expiry.
\<close>

theorem job_histories:
  assumes "system_step\<^sup>*\<^sup>* (initial_system epoch) \<sigma>" "system_step\<^sup>*\<^sup>* \<sigma> \<tau>" "find_job k (sys_rows \<sigma>) = Some j"
  shows "store_ok (sys_rows \<tau>) \<and>
    (case find_job k (sys_rows \<tau>) of
       None \<Rightarrow> pj_expires_at j < sys_cleaned \<tau>
     | Some j' \<Rightarrow> submission_of j' = submission_of j \<and> pj_attempt_count j \<le> pj_attempt_count j' \<and>
         phase_step\<^sup>*\<^sup>* (phase_of j, pj_attempt_count j) (phase_of j', pj_attempt_count j') \<and> (terminal j \<longrightarrow> j' = j))"
proof -
  have \<sigma>: "system_ok \<sigma>"
    using reachable_effect[OF assms(1) initial_ok] by blast
  then have "k \<in> sys_used \<sigma>"
    using find_job_SomeD[OF assms(3)] by (auto simp: system_ok_def)
  with reachable_effect[OF assms(2) \<sigma>] have "system_ok \<tau>" "followed (sys_cleaned \<tau>) (Some j) (find_job k (sys_rows \<tau>))"
    unfolding advanced_def assms(3)[symmetric] by blast+
  then show ?thesis
    using job_steps_submission job_steps_attempts job_steps_phases job_steps_terminal
    by (auto simp: system_ok_def followed_def terminal_def split: option.splits)
qed

subsection \<open>A history\<close>

definition first_job :: preview_job where
  "first_job = new_job 0 7 1 ''golden cross'' None 24"

definition after_submission :: job_system where
  "after_submission = \<lparr>sys_rows = [first_job], sys_used = {7}, sys_cleaned = 0\<rparr>"

definition after_cleanup :: job_system where
  "after_cleanup = \<lparr>sys_rows = [], sys_used = {7}, sys_cleaned = pj_expires_at first_job + 1\<rparr>"

lemma sample_history:
  "system_step (initial_system 0) after_submission" "system_step after_submission after_cleanup"
proof -
  let ?queue = "\<lambda>_ _ _ _ _. act_skip :: (preview_session, unit) action"
  let ?submit = "request_session (preview_strategy default_settings ?queue 0 1 7 1 ''golden cross'') (idle_session [] [] (\<lambda>_. True))"
  have rows: "table_rows (snd ?submit) = [first_job]"
    by code_simp
  have "system_step (initial_system 0) ((initial_system 0)\<lparr>sys_rows := table_rows (snd ?submit), sys_used := insert 7 (sys_used (initial_system 0))\<rparr>)"
  proof (rule system_step.submit[OF _ _ _ _ prod.collapse[symmetric]])
    show "strategy_source_text ''golden cross'' = Inr ''golden cross''"
      by code_simp
  qed (simp_all add: harmless_queue_def keeps_simple initial_system_def idle_session_def)
  then show "system_step (initial_system 0) after_submission"
    unfolding rows by (simp add: initial_system_def after_submission_def)
  let ?clean = "cleanup_main (pj_expires_at first_job + 1) (idle_session [first_job] [] (\<lambda>_. True))"
  have rows: "table_rows (snd ?clean) = []"
    by code_simp
  have "system_step after_submission (after_submission\<lparr>sys_rows := table_rows (snd ?clean),
      sys_cleaned := max (pj_expires_at first_job + 1) (sys_cleaned after_submission)\<rparr>)"
    by (rule system_step.cleanup[OF _ prod.collapse[symmetric]]) (simp add: after_submission_def idle_session_def)
  moreover have "0 \<le> pj_expires_at first_job"
    by code_simp
  ultimately show "system_step after_submission after_cleanup"
    unfolding rows by (simp add: after_submission_def after_cleanup_def)
qed

theorem job_histories_witness:
  "(case find_job 7 (sys_rows after_cleanup) of None \<Rightarrow> pj_expires_at first_job < sys_cleaned after_cleanup | Some j' \<Rightarrow> False)"
proof -
  have "find_job 7 (sys_rows after_submission) = Some first_job" "find_job 7 (sys_rows after_cleanup) = None"
    by (simp_all add: after_submission_def after_cleanup_def find_job_def first_job_def new_job_def)
  moreover have "system_step\<^sup>*\<^sup>* (initial_system 0) after_submission" "system_step\<^sup>*\<^sup>* after_submission after_cleanup"
    using sample_history by blast+
  ultimately show ?thesis
    using job_histories[of 0 after_submission after_cleanup 7 first_job] by simp
qed

end
