(* ===== verification/Json_Text.thy ===== *)
theory Json_Text
  imports Report_Text Uuid_Text "HOL-Library.List_Lexorder" "HOL-Library.Char_ord"
begin

text \<open>
  JSON values as text: \<open>json.dumps\<close> with \<open>ensure_ascii\<close>, in its compact form and indented with sorted
  keys, which the log and the command-line parser print. The compact text is printable and determines
  the value. Characters are code points below 256.
\<close>

subsection \<open>Writing\<close>

definition escape_char :: "char \<Rightarrow> string" where
  "escape_char c =
     (let k = of_char c :: int in
      if k = 0x22 \<or> k = 0x5C then [CHR 0x5C, c]
      else if k = 10 then [CHR 0x5C, CHR ''n'']
      else if k = 13 then [CHR 0x5C, CHR ''r'']
      else if k = 9 then [CHR 0x5C, CHR ''t'']
      else if k = 12 then [CHR 0x5C, CHR ''f'']
      else if k = 8 then [CHR 0x5C, CHR ''b'']
      else if 32 \<le> k \<and> k \<le> 126 then [c]
      else CHR 0x5C # CHR ''u'' # hex_digits 4 k)"

definition json_string :: "string \<Rightarrow> string" where
  "json_string t = CHR 0x22 # concat (map escape_char t) @ [CHR 0x22]"

fun json_dumps :: "json \<Rightarrow> string" where
  "json_dumps JNull = ''null''"
| "json_dumps (JBool b) = (if b then ''true'' else ''false'')"
| "json_dumps (JInt n) = string_of_int n"
| "json_dumps (JStr t) = json_string t"
| "json_dumps (JList vs) = CHR ''['' # join '', '' (map json_dumps vs) @ '']''"
| "json_dumps (JObj entries) =
     CHR ''{'' # join '', '' (map (\<lambda>(k, v). json_string k @ '': '' @ json_dumps v) entries) @ ''}''"

definition indentation :: "nat \<Rightarrow> string" where
  \<comment> \<open>the start of a line at a depth, with \<open>indent=2\<close>\<close>
  "indentation depth = newline @ replicate (2 * depth) CHR '' ''"

fun sorted_keys :: "json \<Rightarrow> json" where
  "sorted_keys (JList vs) = JList (map sorted_keys vs)"
| "sorted_keys (JObj entries) = JObj (sort_key fst (map (\<lambda>(k, v). (k, sorted_keys v)) entries))"
| "sorted_keys v = v"

definition block :: "char \<Rightarrow> char \<Rightarrow> nat \<Rightarrow> string list \<Rightarrow> string" where
  "block left right depth items =
     (if items = [] then [left, right]
      else left # indentation (depth + 1) @ join (CHR '','' # indentation (depth + 1)) items @ indentation depth @ [right])"

fun json_indented :: "nat \<Rightarrow> json \<Rightarrow> string" where
  "json_indented depth (JList vs) = block CHR ''['' CHR '']'' depth (map (json_indented (depth + 1)) vs)"
| "json_indented depth (JObj entries) =
     block CHR ''{'' CHR ''}'' depth (map (\<lambda>(k, v). json_string k @ '': '' @ json_indented (depth + 1) v) entries)"
| "json_indented depth v = json_dumps v"

lemma dumps_sample:
  "json_dumps (JObj [(''b'', JStr [CHR 0x0A, CHR ''A'', CHR 0x7F]), (''a'', JList [JInt (- 12), JNull])]) =
     CHR ''{'' # CHR 0x22 # ''b'' @ CHR 0x22 # '': '' @ CHR 0x22 # CHR 0x5C # ''nA'' @ CHR 0x5C # ''u007f'' @ CHR 0x22 # '', '' @
       CHR 0x22 # ''a'' @ CHR 0x22 # '': [-12, null]}''"
  by code_simp

subsection \<open>The text determines the value\<close>

definition escape_size :: "string \<Rightarrow> nat" where
  "escape_size t = (if take 1 t \<noteq> [CHR 0x5C] then 1 else if take 1 (drop 1 t) = ''u'' then 6 else 2)"

definition printable :: "char \<Rightarrow> bool" where
  "printable c \<longleftrightarrow> (let k = of_char c :: int in 32 \<le> k \<and> k \<le> 126)"

definition unescape :: "string \<Rightarrow> int" where
  \<comment> \<open>the code point an escape stands for\<close>
  "unescape t =
     (if escape_size t = 1 then of_char (hd t)
      else if escape_size t = 6 then foldl (\<lambda>n c. 16 * n + the (hex_value c)) 0 (drop 2 t)
      else case map_of [(CHR ''n'', 10), (CHR ''r'', 13), (CHR ''t'', 9), (CHR ''f'', 12), (CHR ''b'', 8)] (t ! 1) of
          None \<Rightarrow> of_char (t ! 1) | Some k \<Rightarrow> k)"

lemma hex_value_printable: "hex_value c \<noteq> None \<Longrightarrow> printable c"
  by (auto simp: hex_value_def printable_def Let_def split: if_splits)

lemma char_code_neq: "(of_char c :: int) \<noteq> of_char d \<Longrightarrow> c \<noteq> d"
  by auto

definition short_escapes :: "(int \<times> string) list" where
  "short_escapes =
     map (\<lambda>(k, c). (k, [CHR 0x5C, c])) [(10, CHR ''n''), (13, CHR ''r''), (9, CHR ''t''), (12, CHR ''f''), (8, CHR ''b'')]"

lemma short_escapes_facts:
  "list_all (\<lambda>(k, t). unescape t = k \<and> length t = escape_size t \<and> take 1 t \<noteq> [CHR 0x22] \<and> list_all printable t \<and> t \<noteq> [])
     short_escapes"
  by code_simp

lemma escape_facts:
  "unescape (escape_char c) = of_char c" "length (escape_char c) = escape_size (escape_char c)"
  "take 1 (escape_char c) \<noteq> [CHR 0x22]" "list_all printable (escape_char c)" "escape_char c \<noteq> []"
proof -
  define k :: int where "k = of_char c"
  have k: "0 \<le> k" "k < 256"
    unfolding k_def by (simp_all add: of_char_def)
  have other: "c \<noteq> CHR ''u'' \<and> c \<noteq> CHR ''n'' \<and> c \<noteq> CHR ''r'' \<and> c \<noteq> CHR ''t'' \<and> c \<noteq> CHR ''f'' \<and> c \<noteq> CHR ''b''"
    if "k = 0x22 \<or> k = 0x5C"
    using that unfolding k_def by auto
  have plain: "c \<noteq> CHR 0x22 \<and> c \<noteq> CHR 0x5C" if "\<not> (k = 0x22 \<or> k = 0x5C)"
    using that unfolding k_def by auto
  have hex: "list_all printable (hex_digits 4 k)"
    using hex_digits_values[of 4 k] hex_value_printable by (auto simp: list_all_iff)
  have read: "foldl (\<lambda>n c. 16 * n + the (hex_value c)) 0 (hex_digits 4 k) = k"
    using foldl_hex_digits[of 0 4 k] k by simp
  consider "k = 0x22 \<or> k = 0x5C" | "k \<in> {8, 9, 10, 12, 13}" | "32 \<le> k" "k \<le> 126" "k \<noteq> 0x22" "k \<noteq> 0x5C"
    | "escape_char c = CHR 0x5C # CHR ''u'' # hex_digits 4 k"
    by atomize_elim (simp add: escape_char_def Let_def flip: k_def)
  then have "unescape (escape_char c) = k \<and> length (escape_char c) = escape_size (escape_char c) \<and>
    take 1 (escape_char c) \<noteq> [CHR 0x22] \<and> list_all printable (escape_char c) \<and> escape_char c \<noteq> []"
  proof cases
    case 1
    then have e: "escape_char c = [CHR 0x5C, c]"
      by (auto simp: escape_char_def Let_def k_def)
    have s: "escape_size [CHR 0x5C, c] = 2"
      using other[OF 1] by (simp add: escape_size_def)
    have "printable c"
      using 1 unfolding printable_def Let_def k_def by auto
    then show ?thesis
      using other[OF 1] unfolding e by (simp add: s unescape_def printable_def k_def)
  next
    case 2
    then have "(k, escape_char c) \<in> set short_escapes"
      by (auto simp: escape_char_def Let_def short_escapes_def k_def)
    then show ?thesis
      using short_escapes_facts by (auto simp: list_all_iff)
  next
    case 3
    then have e: "escape_char c = [c]"
      by (auto simp: escape_char_def Let_def k_def)
    show ?thesis
      using 3 plain unfolding e by (simp add: unescape_def escape_size_def printable_def k_def)
  next
    case 4
    show ?thesis
      using hex read unfolding 4 by (simp add: unescape_def escape_size_def printable_def)
  qed
  then show "unescape (escape_char c) = of_char c" "length (escape_char c) = escape_size (escape_char c)"
    "take 1 (escape_char c) \<noteq> [CHR 0x22]" "list_all printable (escape_char c)" "escape_char c \<noteq> []"
    by (simp_all add: k_def)
qed

lemma escape_prefix:
  assumes "escape_char c @ x = escape_char d @ y"
  shows "c = d \<and> x = y"
proof -
  have size: "length (escape_char e) = escape_size (escape_char e @ z)" for e z
  proof (cases "escape_char e" rule: remdups_adj.cases)
    case 1
    then show ?thesis using escape_facts(5)[of e] by simp
  next
    case (2 a)
    have "a \<noteq> CHR 0x5C"
      using escape_facts(2)[of e] unfolding 2 by (rule contrapos_pn) (simp add: escape_size_def)
    then show ?thesis unfolding 2 by (simp add: escape_size_def)
  next
    case (3 a b r)
    then show ?thesis using escape_facts(2)[of e] unfolding 3 by (simp add: escape_size_def)
  qed
  have "length (escape_char c) = length (escape_char d)"
    using size[of c x] size[of d y] assms by metis
  then have "escape_char c = escape_char d" "x = y"
    using append_eq_append_conv[of "escape_char c" "escape_char d" x y] assms by blast+
  moreover from this have "(of_char c :: int) = of_char d"
    using escape_facts(1)[of c] escape_facts(1)[of d] by metis
  ultimately show ?thesis by simp
qed

lemma escape_quote: "escape_char c @ x \<noteq> CHR 0x22 # y"
  using escape_facts(3,5)[of c] by (cases "escape_char c") auto

lemma escaped_prefix:
  "concat (map escape_char s) @ CHR 0x22 # x = concat (map escape_char t) @ CHR 0x22 # y \<Longrightarrow> s = t \<and> x = y"
proof (induction s arbitrary: t)
  case Nil
  show ?case
  proof (cases t)
    case (Cons d t')
    then show ?thesis
      using Nil escape_quote[of d "concat (map escape_char t') @ CHR 0x22 # y" x] by simp
  qed (use Nil in simp)
next
  case (Cons c s)
  then obtain d t' where t: "t = d # t'"
    using escape_quote[of c "concat (map escape_char s) @ CHR 0x22 # x" y] by (cases t) simp_all
  from Cons.prems have "c = d" "concat (map escape_char s) @ CHR 0x22 # x = concat (map escape_char t') @ CHR 0x22 # y"
    using escape_prefix[of c _ d] unfolding t by auto
  with Cons.IH show ?case unfolding t by simp
qed

lemma json_string_prefix: "json_string s @ x = json_string t @ y \<Longrightarrow> s = t \<and> x = y"
  using escaped_prefix[of s x t y] by (simp add: json_string_def)

definition ends_number :: "string \<Rightarrow> bool" where
  "ends_number x \<longleftrightarrow> (case x of [] \<Rightarrow> True | c # _ \<Rightarrow> \<not> is_digit c)"

lemma digits_prefix:
  assumes "ds @ x = es @ y" "list_all is_digit ds" "list_all is_digit es" "ends_number x" "ends_number y"
  shows "ds = es \<and> x = y"
proof -
  have "takeWhile is_digit (fs @ z) = fs" if "list_all is_digit fs" "ends_number z" for fs z
    using that by (cases z) (auto simp: list_all_iff ends_number_def takeWhile_append2)
  then have "ds = es" using assms by metis
  with assms(1) show ?thesis by simp
qed

lemma minus_not_digit [simp]: "\<not> is_digit CHR ''-''"
  by code_simp

lemma string_of_int_prefix:
  assumes "string_of_int n @ x = string_of_int m @ y" "ends_number x" "ends_number y"
  shows "n = m \<and> x = y"
proof -
  have digits: "list_all is_digit (string_of_nonneg \<bar>k\<bar>)" "int_of_digits (string_of_nonneg \<bar>k\<bar>) = \<bar>k\<bar>" for k
    using string_of_nonneg_digits[of "\<bar>k\<bar>"] by simp_all
  have shape: "string_of_int k = (if k < 0 then ''-'' else []) @ string_of_nonneg \<bar>k\<bar>" for k
    by (simp add: string_of_int_def)
  have start: "\<exists>c r. string_of_nonneg \<bar>k\<bar> = c # r \<and> is_digit c" for k
    using string_of_nonneg_digits[of "\<bar>k\<bar>"] by (cases "string_of_nonneg \<bar>k\<bar>") auto
  have signs: "n < 0 \<longleftrightarrow> m < 0"
    using assms(1) start[of n] start[of m] unfolding shape by (auto split: if_splits)
  then have "string_of_nonneg \<bar>n\<bar> @ x = string_of_nonneg \<bar>m\<bar> @ y"
    using assms(1) unfolding shape by (auto split: if_splits)
  from digits_prefix[OF this digits(1) digits(1) assms(2,3)] have "string_of_nonneg \<bar>n\<bar> = string_of_nonneg \<bar>m\<bar>" "x = y"
    by simp_all
  then show ?thesis
    using digits(2)[of n] digits(2)[of m] signs by (auto simp: abs_if split: if_splits)
qed

definition distinguished :: "('a \<Rightarrow> string) \<Rightarrow> 'a \<Rightarrow> bool" where
  \<comment> \<open>in a text that goes on with no digit, the value and the rest are determined\<close>
  "distinguished f v \<longleftrightarrow> (\<forall>w x y. f v @ x = f w @ y \<longrightarrow> ends_number x \<longrightarrow> ends_number y \<longrightarrow> v = w \<and> x = y)"

definition followed :: "char \<Rightarrow> ('a \<Rightarrow> string) \<Rightarrow> 'a list \<Rightarrow> string" where
  \<comment> \<open>the elements after the first one, and the closing bracket\<close>
  "followed b f vs = concat (map (\<lambda>v. '', '' @ f v) vs) @ [b]"

lemma join_followed: "join '', '' (map f (v # vs)) @ b # x = f v @ (followed b f vs @ x)"
  by (simp add: join_def followed_def comp_def)

lemma ends_followed: "\<not> is_digit b \<Longrightarrow> ends_number (followed b f vs @ x)"
  by (cases vs) (auto simp: followed_def ends_number_def is_digit_def)

lemma followed_prefix:
  assumes "\<forall>v\<in>set vs. distinguished f v" "\<not> is_digit b" "b \<noteq> CHR '',''"
    and "followed b f vs @ x = followed b f ws @ y"
  shows "vs = ws \<and> x = y"
  using assms(1,4)
proof (induction vs arbitrary: ws)
  case Nil
  then show ?case using assms(3) by (cases ws) (auto simp: followed_def)
next
  case (Cons v vs)
  then obtain w ws' where ws: "ws = w # ws'"
    using assms(3) by (cases ws) (auto simp: followed_def)
  from Cons.prems(2) have "f v @ (followed b f vs @ x) = f w @ (followed b f ws' @ y)"
    unfolding ws by (simp add: followed_def)
  moreover have "distinguished f v" using Cons.prems(1) by simp
  ultimately have "v = w" "followed b f vs @ x = followed b f ws' @ y"
    using ends_followed[OF assms(2)] unfolding distinguished_def by blast+
  with Cons.IH Cons.prems(1) show ?case unfolding ws by simp
qed

lemma join_prefix:
  assumes vs: "\<forall>v\<in>set vs. distinguished f v" and b: "\<not> is_digit b" "b \<noteq> CHR '',''" and start: "\<And>w z u. f w @ z \<noteq> b # u"
    and eq: "join '', '' (map f vs) @ b # x = join '', '' (map f ws) @ b # y"
  shows "vs = ws \<and> x = y"
proof (cases vs)
  case Nil
  show ?thesis
  proof (cases ws)
    case some: (Cons w ws')
    show ?thesis
      using eq start unfolding Nil some join_followed by (metis append_Nil join_def list.map(1) list.case(1))
  qed (use eq Nil in \<open>simp add: join_def\<close>)
next
  case (Cons v vs')
  show ?thesis
  proof (cases ws)
    case none: Nil
    show ?thesis
      using eq start unfolding none Cons join_followed by (metis append_Nil join_def list.map(1) list.case(1))
  next
    case (Cons w ws')
    have "f v @ (followed b f vs' @ x) = f w @ (followed b f ws' @ y)"
      using eq unfolding \<open>vs = v # vs'\<close> Cons join_followed .
    moreover have "distinguished f v" using vs \<open>vs = v # vs'\<close> by simp
    ultimately have "v = w" "followed b f vs' @ x = followed b f ws' @ y"
      using ends_followed[OF b(1)] unfolding distinguished_def by blast+
    with followed_prefix[OF _ b this(2)] vs show ?thesis
      unfolding \<open>vs = v # vs'\<close> Cons by simp
  qed
qed

fun starts :: "json \<Rightarrow> char \<Rightarrow> bool" where
  "starts JNull c \<longleftrightarrow> c = CHR ''n''"
| "starts (JBool b) c \<longleftrightarrow> c = (if b then CHR ''t'' else CHR ''f'')"
| "starts (JInt n) c \<longleftrightarrow> is_digit c \<or> c = CHR ''-''"
| "starts (JStr t) c \<longleftrightarrow> c = CHR 0x22"
| "starts (JList vs) c \<longleftrightarrow> c = CHR ''[''"
| "starts (JObj entries) c \<longleftrightarrow> c = CHR ''{''"

lemma dumps_start: "\<exists>c r. json_dumps v = c # r \<and> starts v c"
proof (cases v)
  case (JInt n)
  then show ?thesis
    using string_of_nonneg_digits[of "\<bar>n\<bar>"] by (cases "string_of_nonneg \<bar>n\<bar>") (auto simp: string_of_int_def)
qed (auto simp: json_string_def)

definition same_kind :: "json \<Rightarrow> json \<Rightarrow> bool" where
  "same_kind v w \<longleftrightarrow>
     (case v of JNull \<Rightarrow> w = JNull | JBool b \<Rightarrow> w = JBool b | JInt _ \<Rightarrow> (\<exists>n. w = JInt n) | JStr _ \<Rightarrow> (\<exists>t. w = JStr t)
      | JList _ \<Rightarrow> (\<exists>vs. w = JList vs) | JObj _ \<Rightarrow> (\<exists>es. w = JObj es))"

lemma tokens_not_digits [simp]:
  "\<not> is_digit CHR ''n''" "\<not> is_digit CHR ''t''" "\<not> is_digit CHR ''f''" "\<not> is_digit CHR 0x22" "\<not> is_digit CHR ''[''"
  "\<not> is_digit CHR ''{''" "\<not> is_digit CHR '']''" "\<not> is_digit CHR ''}''" "\<not> is_digit CHR '',''" "\<not> is_digit CHR '':''"
  by code_simp+

lemma starts_kind: "starts v c \<Longrightarrow> starts w c \<Longrightarrow> same_kind v w"
  by (cases v; cases w) (auto simp: same_kind_def split: if_splits)

lemma dumps_kind: "json_dumps v @ x = json_dumps w @ y \<Longrightarrow> same_kind v w"
  using dumps_start[of v] dumps_start[of w] starts_kind by force

definition json_entry :: "string \<times> json \<Rightarrow> string" where
  "json_entry e = json_string (fst e) @ '': '' @ json_dumps (snd e)"

lemma dumps_entries: "json_dumps (JObj entries) = CHR ''{'' # join '', '' (map json_entry entries) @ ''}''"
  by (simp add: json_entry_def case_prod_unfold cong: map_cong)

lemma entry_distinguished:
  assumes "distinguished json_dumps (snd e)"
  shows "distinguished json_entry e"
  unfolding distinguished_def
proof (intro allI impI)
  fix w x y
  assume "json_entry e @ x = json_entry w @ y" and ends: "ends_number x" "ends_number y"
  then have "json_string (fst e) @ ('': '' @ json_dumps (snd e) @ x) = json_string (fst w) @ ('': '' @ json_dumps (snd w) @ y)"
    by (simp add: json_entry_def)
  from json_string_prefix[OF this] have "fst e = fst w" "json_dumps (snd e) @ x = json_dumps (snd w) @ y"
    by simp_all
  with assms ends show "e = w \<and> x = y"
    unfolding distinguished_def by (metis prod.collapse)
qed

lemma dumps_bracket: "json_dumps w @ z \<noteq> CHR '']'' # u"
  using dumps_start[of w] by (cases w) auto

lemma entry_brace: "json_entry e @ z \<noteq> CHR ''}'' # u"
  by (simp add: json_entry_def json_string_def)

lemma json_dumps_distinguished: "distinguished json_dumps v"
proof (induction v)
  case (JInt n)
  show ?case
    unfolding distinguished_def
  proof (intro allI impI)
    fix w x y
    assume eq: "json_dumps (JInt n) @ x = json_dumps w @ y" and ends: "ends_number x" "ends_number y"
    then obtain m where w: "w = JInt m"
      using dumps_kind[OF eq] by (auto simp: same_kind_def)
    show "JInt n = w \<and> x = y"
      using string_of_int_prefix[of n x m y] eq ends unfolding w by simp
  qed
next
  case (JStr t)
  show ?case
    unfolding distinguished_def
  proof (intro allI impI)
    fix w x y
    assume eq: "json_dumps (JStr t) @ x = json_dumps w @ y" and ends: "ends_number x" "ends_number y"
    then obtain u where w: "w = JStr u"
      using dumps_kind[OF eq] by (auto simp: same_kind_def)
    show "JStr t = w \<and> x = y"
      using json_string_prefix[of t x u y] eq ends unfolding w by simp
  qed
next
  case (JList vs)
  then have "\<forall>v\<in>set vs. distinguished json_dumps v" by simp
  note prefix = join_prefix[OF this, of "CHR '']''", OF _ _ dumps_bracket]
  show ?case
    unfolding distinguished_def
  proof (intro allI impI)
    fix w x y
    assume eq: "json_dumps (JList vs) @ x = json_dumps w @ y"
    then obtain ws where w: "w = JList ws"
      using dumps_kind[OF eq] by (auto simp: same_kind_def)
    show "JList vs = w \<and> x = y"
      using prefix[of x ws y] eq unfolding w by simp
  qed
next
  case (JObj es)
  then have "\<forall>e\<in>set es. distinguished json_entry e"
    using entry_distinguished by (metis prod.collapse snds.intros)
  note prefix = join_prefix[OF this, of "CHR ''}''", OF _ _ entry_brace]
  show ?case
    unfolding distinguished_def
  proof (intro allI impI)
    fix w x y
    assume eq: "json_dumps (JObj es) @ x = json_dumps w @ y"
    then obtain es' where w: "w = JObj es'"
      using dumps_kind[OF eq] by (auto simp: same_kind_def)
    show "JObj es = w \<and> x = y"
      using prefix[of x es' y] eq unfolding w dumps_entries by simp
  qed
next
  case (JBool b)
  show ?case
    unfolding distinguished_def
  proof (intro allI impI)
    fix w x y
    assume eq: "json_dumps (JBool b) @ x = json_dumps w @ y"
    then have "w = JBool b"
      using dumps_kind[OF eq] by (simp add: same_kind_def)
    with eq show "JBool b = w \<and> x = y" by (auto split: if_splits)
  qed
next
  case JNull
  show ?case
    unfolding distinguished_def
  proof (intro allI impI)
    fix w x y
    assume eq: "json_dumps (JNull) @ x = json_dumps w @ y"
    then have "w = JNull"
      using dumps_kind[OF eq] by (simp add: same_kind_def)
    with eq show "JNull = w \<and> x = y" by (auto split: if_splits)
  qed
qed

lemma json_text_determines_value: "json_dumps v = json_dumps w \<longleftrightarrow> v = w"
  using json_dumps_distinguished[of v] unfolding distinguished_def
  by (metis append_Nil2 ends_number_def list.simps(4))

lemma printable_tokens [simp]:
  "list_all printable ''null''" "list_all printable ''true''" "list_all printable ''false''" "list_all printable '', ''"
  "list_all printable '': ''" "printable CHR ''[''" "printable CHR '']''" "printable CHR ''{''" "printable CHR ''}''"
  "printable CHR '',''" "printable CHR '' ''" "printable CHR '':''" "printable CHR 0x22" "printable CHR ''-''" "list_all printable []"
  by code_simp+

lemma printable_digit: "is_digit c \<Longrightarrow> printable c"
proof -
  have "(of_char c :: int) = int (of_char c)" by (simp add: of_nat_of_char)
  then show "is_digit c \<Longrightarrow> printable c"
    unfolding is_digit_def printable_def Let_def by linarith
qed

lemma printable_join: "list_all printable sep \<Longrightarrow> \<forall>t\<in>set ts. list_all printable t \<Longrightarrow> list_all printable (join sep ts)"
  by (cases ts) (auto simp: join_def list_all_iff)

lemma json_string_printable [simp]: "list_all printable (json_string t)"
  using escape_facts(4) by (auto simp: json_string_def list_all_iff)

lemma string_of_int_printable [simp]: "list_all printable (string_of_int n)"
  using string_of_nonneg_digits[of "\<bar>n\<bar>"] printable_digit by (auto simp: string_of_int_def list_all_iff)

lemma json_dumps_printable: "list_all printable (json_dumps v)"
proof (induction v)
  case (JObj es)
  then have "list_all printable (json_entry e)" if "e \<in> set es" for e
    using that unfolding json_entry_def list_all_append by (metis json_string_printable printable_tokens(5) snds.intros)
  then show ?case
    unfolding dumps_entries list_all_append list.pred_inject by (auto intro!: printable_join)
next
  case (JBool b)
  show ?case by (cases b) (simp_all only: json_dumps.simps printable_tokens if_True if_False)
next
  case JNull
  show ?case by (simp only: json_dumps.simps printable_tokens)
qed (auto intro!: printable_join)

end
