(* ===== verification/Log_Records.thy ===== *)
theory Log_Records
  imports Json_Text
begin

text \<open>
  The log of the processes (\<open>app/core/logging.py\<close>): the formatter that turns a record into one line of
  JSON, and the configuration of the root logger. A handler is the text it writes for a record.
  Measured durations, which are floats, do not occur among the values.
\<close>

datatype log_level = DEBUG | INFO | WARNING | ERROR | CRITICAL

definition level_number :: "log_level \<Rightarrow> int" where
  "level_number l = (case l of DEBUG \<Rightarrow> 10 | INFO \<Rightarrow> 20 | WARNING \<Rightarrow> 30 | ERROR \<Rightarrow> 40 | CRITICAL \<Rightarrow> 50)"

lemma level_number_eq [simp]: "level_number l = level_number m \<longleftrightarrow> l = m"
  by (cases l; cases m) (simp_all add: level_number_def)

instantiation log_level :: linorder
begin

definition less_eq_log_level :: "log_level \<Rightarrow> log_level \<Rightarrow> bool" where
  "less_eq_log_level l m \<longleftrightarrow> level_number l \<le> level_number m"

definition less_log_level :: "log_level \<Rightarrow> log_level \<Rightarrow> bool" where
  "less_log_level l m \<longleftrightarrow> level_number l < level_number m"

instance
  by intro_classes (auto simp: less_eq_log_level_def less_log_level_def)

end

definition OPERATIONAL_FIELDS :: "string list" where
  "OPERATIONAL_FIELDS =
     [''event'', ''component'', ''job_id'', ''queue'', ''previous_status'', ''new_status'', ''reconciliation_action'',
      ''attempt'', ''max_attempts'', ''duration_ms'', ''dependency'', ''outcome'', ''reconciliation_scanned'',
      ''reconciliation_recovered'', ''reconciliation_failed'']"

record log_message =
  lm_created :: timestamp
  lm_levelno :: int
  lm_levelname :: string
  lm_name :: string
  lm_message :: string                   \<comment> \<open>\<open>getMessage()\<close>\<close>
  lm_exception :: "string option"        \<comment> \<open>the formatted exception\<close>
  lm_extra :: "(string \<times> json) list"    \<comment> \<open>the attributes given as \<open>extra\<close>\<close>

definition log_entries :: "text_format \<Rightarrow> log_message \<Rightarrow> (string \<times> json) list" where
  "log_entries tf r =
     [(''timestamp'', JStr (tf_isoformat tf (lm_created r))), (''level'', JStr (lm_levelname r)),
      (''logger'', JStr (lm_name r)), (''message'', JStr (lm_message r))] @
     (case lm_exception r of None \<Rightarrow> [] | Some t \<Rightarrow> [(''exception'', JStr t)]) @
     concat (map (\<lambda>name. case map_of (lm_extra r) name of None \<Rightarrow> [] | Some v \<Rightarrow> [(name, v)]) OPERATIONAL_FIELDS)"

definition format_record :: "text_format \<Rightarrow> log_message \<Rightarrow> string" where
  "format_record tf r = json_dumps (JObj (log_entries tf r))"

record root_logger =
  rl_handlers :: "(log_message \<Rightarrow> string) list"
  rl_level :: int

definition console_handler :: "text_format \<Rightarrow> log_message \<Rightarrow> string" where
  \<comment> \<open>a \<open>StreamHandler\<close> ends every record with a newline\<close>
  "console_handler tf r = format_record tf r @ newline"

definition configure_logging :: "text_format \<Rightarrow> log_level \<Rightarrow> root_logger \<Rightarrow> root_logger" where
  "configure_logging tf level logger = logger\<lparr>rl_handlers := [console_handler tf], rl_level := level_number level\<rparr>"

definition handle_record :: "root_logger \<Rightarrow> log_message \<Rightarrow> string" where
  "handle_record logger r =
     (if lm_levelno r < rl_level logger then [] else concat (map (\<lambda>h. h r) (rl_handlers logger)))"

definition log_stream :: "root_logger \<Rightarrow> log_message list \<Rightarrow> string" where
  "log_stream logger rs = concat (map (handle_record logger) rs)"

subsection \<open>One line for a record\<close>

definition accepted :: "log_level \<Rightarrow> log_message list \<Rightarrow> log_message list" where
  "accepted level rs = filter (\<lambda>r. level_number level \<le> lm_levelno r) rs"

lemma log_stream_lines:
  "log_stream (configure_logging tf level logger) rs = concat (map (\<lambda>r. format_record tf r @ newline) (accepted level rs))"
  by (induction rs) (auto simp: log_stream_def configure_logging_def handle_record_def accepted_def console_handler_def)

lemma higher_level_drops_records: "l \<le> m \<Longrightarrow> accepted m rs = filter (\<lambda>r. level_number m \<le> lm_levelno r) (accepted l rs)"
  by (auto simp: accepted_def less_eq_log_level_def intro!: filter_cong)

lemma newline_not_printable: "\<not> printable CHR 0x0A"
  by code_simp

lemma lines_determined:
  assumes "list_all (\<lambda>l. CHR 0x0A \<notin> set l) ls" "list_all (\<lambda>l. CHR 0x0A \<notin> set l) ms"
  shows "concat (map (\<lambda>l. l @ newline) ls) = concat (map (\<lambda>l. l @ newline) ms) \<longleftrightarrow> ls = ms"
  using assms
proof (induction ls arbitrary: ms)
  case Nil
  then show ?case by (cases ms) (auto simp: newline_def)
next
  case (Cons l ls)
  show ?case
  proof (cases ms)
    case Nil
    then show ?thesis by (simp add: newline_def)
  next
    case ms: (Cons m ms')
    have "l = m \<and> x = y" if "l @ CHR 0x0A # x = m @ CHR 0x0A # y" for x y
    proof -
      have "takeWhile (\<lambda>c. c \<noteq> CHR 0x0A) (k @ CHR 0x0A # z) = k" if "CHR 0x0A \<notin> set k" for k z
        using that by (simp add: takeWhile_append)
      then have "l = m"
        using that Cons.prems unfolding ms by (metis list.pred_inject(2))
      with that show ?thesis by simp
    qed
    with Cons show ?thesis unfolding ms by (auto simp: newline_def)
  qed
qed

lemma extra_entries:
  "map_of (concat (map (\<lambda>name. case map_of extra name of None \<Rightarrow> [] | Some v \<Rightarrow> [(name, v)]) names)) k =
     (if k \<in> set names then map_of extra k else None)"
  by (induction names) (auto split: option.splits)

lemma extra_keys:
  "map fst (concat (map (\<lambda>name. case map_of extra name of None \<Rightarrow> [] | Some v \<Rightarrow> [(name, v)]) names)) =
     filter (\<lambda>name. map_of extra name \<noteq> None) names"
  by (induction names) (auto split: option.splits)

lemma field_names:
  "distinct OPERATIONAL_FIELDS"
  "''timestamp'' \<notin> set OPERATIONAL_FIELDS" "''level'' \<notin> set OPERATIONAL_FIELDS" "''logger'' \<notin> set OPERATIONAL_FIELDS"
  "''message'' \<notin> set OPERATIONAL_FIELDS" "''exception'' \<notin> set OPERATIONAL_FIELDS"
  by code_simp+

lemma standard_entries:
  "distinct (map fst (log_entries tf r))"
  "map_of (log_entries tf r) ''level'' = Some (JStr (lm_levelname r))"
  "map_of (log_entries tf r) ''logger'' = Some (JStr (lm_name r))"
  "map_of (log_entries tf r) ''message'' = Some (JStr (lm_message r))"
  "map_of (log_entries tf r) ''exception'' = map_option JStr (lm_exception r)"
  using field_names
  by (auto simp: log_entries_def extra_entries extra_keys map_add_def simp del: map_concat split: option.splits)

lemma operational_entries:
  "list_all (\<lambda>k. map_of (log_entries tf r) k = map_of (lm_extra r) k) OPERATIONAL_FIELDS"
  using field_names
  by (auto simp: list_all_iff log_entries_def extra_entries map_add_def simp del: map_concat split: option.splits)

text \<open>
  C40. Every log record becomes exactly one line, whatever its message, exception and attributes
  contain: the line is printable ASCII, the stream of the configured logger consists of the lines of the
  records at or above the level, and it determines their contents, so no message can forge another
  record or another field. No key occurs twice; the standard keys hold the standard values and each
  operational field the attribute of the record, if it has one.
\<close>

theorem log_lines_faithful:
  "log_stream (configure_logging tf level logger) rs =
     concat (map (\<lambda>r. format_record tf r @ newline) (accepted level rs)) \<and>
   list_all (\<lambda>r. list_all printable (format_record tf r)) rs \<and>
   (log_stream (configure_logging tf level logger) rs = log_stream (configure_logging tf level' logger') rs' \<longleftrightarrow>
      map (log_entries tf) (accepted level rs) = map (log_entries tf) (accepted level' rs')) \<and>
   distinct (map fst (log_entries tf r)) \<and>
   map_of (log_entries tf r) ''level'' = Some (JStr (lm_levelname r)) \<and>
   map_of (log_entries tf r) ''logger'' = Some (JStr (lm_name r)) \<and>
   map_of (log_entries tf r) ''message'' = Some (JStr (lm_message r)) \<and>
   map_of (log_entries tf r) ''exception'' = map_option JStr (lm_exception r) \<and>
   list_all (\<lambda>k. map_of (log_entries tf r) k = map_of (lm_extra r) k) OPERATIONAL_FIELDS"
proof -
  have ascii: "list_all printable (format_record tf q)" for q
    by (simp add: format_record_def json_dumps_printable del: json_dumps.simps)
  then have all_true: "list_all (\<lambda>r. list_all printable (format_record tf r)) qs" for qs
    by (simp add: list_all_iff)
  have "CHR 0x0A \<notin> set (format_record tf q)" for q
    using ascii[of q] newline_not_printable by (auto simp: list_all_iff)
  then have plain: "list_all (\<lambda>l. CHR 0x0A \<notin> set l) (map (format_record tf) qs)" for qs
    by (simp add: list_all_iff)
  have same: "map (format_record tf) qs = map (format_record tf) qs' \<longleftrightarrow> map (log_entries tf) qs = map (log_entries tf) qs'" for qs qs'
  proof -
    have "map (format_record tf) qs = map json_dumps (map (JObj \<circ> log_entries tf) qs)" for qs
      by (simp add: format_record_def del: json_dumps.simps)
    moreover have "inj json_dumps"
      by (rule injI) (simp add: json_text_determines_value del: json_dumps.simps)
    ultimately have "map (format_record tf) qs = map (format_record tf) qs' \<longleftrightarrow>
        map (JObj \<circ> log_entries tf) qs = map (JObj \<circ> log_entries tf) qs'"
      by (metis inj_map_eq_map)
    also have "\<dots> \<longleftrightarrow> map JObj (map (log_entries tf) qs) = map JObj (map (log_entries tf) qs')"
      by simp
    also have "\<dots> \<longleftrightarrow> map (log_entries tf) qs = map (log_entries tf) qs'"
      by (rule inj_map_eq_map) (simp add: inj_def)
    finally show ?thesis .
  qed
  show ?thesis
    using lines_determined[OF plain plain] same
    by (simp add: log_stream_lines comp_def standard_entries operational_entries all_true)
qed

end
