(* ===== verification/Application.thy ===== *)
theory Application
  imports Process_Lifecycle Log_Records
begin

text \<open>
  The API application: the table of routes that \<open>app/api/router.py\<close> collects from the route modules,
  and \<open>create_app\<close> of \<open>app/main.py\<close>. A route has its method, the segments of its path, the name of its
  handler, and whether the handler depends on the current user. Choosing the route for a request is the
  rule of the framework: the first route whose path and method match. The documentation routes the
  framework adds, and its redirection of paths with a final slash, are left out.
\<close>

subsection \<open>Routes\<close>

datatype path_segment = Fixed string | Parameter string

record api_route =
  rt_method :: string
  rt_path :: "path_segment list"
  rt_handler :: string
  rt_authenticated :: bool

definition router_prefix :: "string \<Rightarrow> api_route list \<Rightarrow> api_route list" where
  \<comment> \<open>\<open>APIRouter(prefix=...)\<close> with one segment\<close>
  "router_prefix segment = map (\<lambda>r. r\<lparr>rt_path := Fixed segment # rt_path r\<rparr>)"

definition api_endpoint :: "string \<Rightarrow> path_segment list \<Rightarrow> string \<Rightarrow> bool \<Rightarrow> api_route" where
  "api_endpoint request_method path handler authenticated =
     \<lparr>rt_method = request_method, rt_path = path, rt_handler = handler, rt_authenticated = authenticated\<rparr>"

definition health_routes :: "api_route list" where
  "health_routes =
     [api_endpoint ''GET'' [Fixed ''health''] ''health'' False, api_endpoint ''GET'' [Fixed ''ready''] ''ready'' False]"

definition auth_routes :: "api_route list" where
  "auth_routes = router_prefix ''auth'' [api_endpoint ''GET'' [Fixed ''me''] ''auth_me'' True]"

definition jobs_routes :: "api_route list" where
  "jobs_routes = router_prefix ''jobs'' [api_endpoint ''GET'' [Parameter ''job_id''] ''get_preview_job'' True]"

definition strategies_routes :: "api_route list" where
  "strategies_routes = router_prefix ''strategies''
     [api_endpoint ''POST'' [Fixed ''preview''] ''preview_strategy'' True,
      api_endpoint ''POST'' [Fixed ''confirmed''] ''save_confirmed_strategy'' True,
      api_endpoint ''POST'' [] ''create_strategy'' True,
      api_endpoint ''GET'' [] ''list_strategies'' True,
      api_endpoint ''GET'' [Parameter ''strategy_id''] ''get_strategy'' True,
      api_endpoint ''PATCH'' [Parameter ''strategy_id''] ''update_strategy'' True,
      api_endpoint ''DELETE'' [Parameter ''strategy_id''] ''delete_strategy'' True]"

definition api_router :: "api_route list" where
  "api_router = health_routes @ auth_routes @ jobs_routes @ strategies_routes"

fun segment_matches :: "path_segment \<Rightarrow> string \<Rightarrow> bool" where
  "segment_matches (Fixed t) s \<longleftrightarrow> s = t"
| "segment_matches (Parameter _) s \<longleftrightarrow> s \<noteq> []"

definition path_matches :: "string list \<Rightarrow> api_route \<Rightarrow> bool" where
  "path_matches path r \<longleftrightarrow> list_all2 segment_matches (rt_path r) path"

datatype routing = Dispatched api_route | MethodNotAllowed | NotFound

definition route_request :: "api_route list \<Rightarrow> string \<Rightarrow> string list \<Rightarrow> routing" where
  "route_request routes request_method path =
     (case find (\<lambda>r. path_matches path r \<and> rt_method r = request_method) routes of
        Some r \<Rightarrow> Dispatched r
      | None \<Rightarrow> if list_ex (path_matches path) routes then MethodNotAllowed else NotFound)"

subsection \<open>The application\<close>

record application =
  ap_title :: string
  ap_version :: string
  ap_cors :: cors_policy
  ap_routes :: "api_route list"

definition log_level_of :: "string \<Rightarrow> log_level option" where
  "log_level_of = map_of [(''DEBUG'', DEBUG), (''INFO'', INFO), (''WARNING'', WARNING), (''ERROR'', ERROR), (''CRITICAL'', CRITICAL)]"

definition create_app ::
    "text_format \<Rightarrow> (url_parts \<Rightarrow> string) \<Rightarrow> settings result \<Rightarrow> root_logger \<Rightarrow> (application \<times> root_logger) result" where
  \<comment> \<open>a level that is no \<open>LogLevel\<close> is refused by \<open>setLevel\<close>; the settings have been validated\<close>
  "create_app tf render settings logger =
     res_bind settings (\<lambda>s.
     case log_level_of (log_level s) of
       None \<Rightarrow> Inl (ValueError ''Unknown level'')
     | Some level \<Rightarrow>
         Inr (\<lparr>ap_title = app_name s, ap_version = ''0.1.0'', ap_cors = cors_of render s, ap_routes = api_router\<rparr>,
              configure_logging tf level logger))"

subsection \<open>The table of routes\<close>

lemmas route_tables = api_router_def health_routes_def auth_routes_def jobs_routes_def strategies_routes_def router_prefix_def api_endpoint_def

lemma route_unambiguous:
  "length (filter (\<lambda>r. path_matches path r \<and> rt_method r = request_method) api_router) \<le> 1"
  by (cases path rule: remdups_adj.cases)
    (auto simp: route_tables path_matches_def list_all2_Cons1)

text \<open>
  The API is closed by default: whatever the request, at most one route answers it, so the order in
  which the modules are collected does not matter; a request that reaches a handler without a
  current user is one for liveness or readiness; and every method of a route is one the CORS policy lets
  the frontend send, with the header that carries the token.
\<close>

lemma api_closed_by_default:
  assumes "create_app tf render (Inr s) logger = Inr (app, logger')"
  shows "length (filter (\<lambda>r. path_matches path r \<and> rt_method r = request_method) (ap_routes app)) \<le> 1 \<and>
    (case route_request (ap_routes app) request_method path of
       Dispatched r \<Rightarrow> (rt_authenticated r \<or> path \<in> {[''health''], [''ready'']}) \<and> request_method \<in> set (cp_allow_methods (ap_cors app))
     | _ \<Rightarrow> True) \<and>
    ''Authorization'' \<in> set (cp_allow_headers (ap_cors app))"
proof -
  have routes: "ap_routes app = api_router" and cors: "ap_cors app = cors_of render s"
    using assms by (auto simp: create_app_def split: option.splits)
  have "(rt_authenticated r \<or> path \<in> {[''health''], [''ready'']}) \<and> request_method \<in> set (cp_allow_methods (ap_cors app))"
    if "find (\<lambda>r. path_matches path r \<and> rt_method r = request_method) api_router = Some r" for r
  proof -
    from that have "r \<in> set api_router" "path_matches path r" "rt_method r = request_method"
      by (auto simp: find_Some_iff)
    then show ?thesis
      unfolding cors cors_of_def by (auto simp: route_tables path_matches_def list_all2_Cons1)
  qed
  then show ?thesis
    using route_unambiguous[of path request_method] unfolding routes route_request_def
    by (auto simp: cors cors_of_def split: option.splits)
qed

lemma accepted_level: "field_bounds s \<Longrightarrow> \<exists>level. log_level_of (log_level s) = Some level"
  by (auto simp: field_bounds_def log_level_of_def)

end
