(* ===== verification/Operational_Logs.thy ===== *)
theory Operational_Logs
  imports Log_Records Job_Store App_Settings
begin

text \<open>
  The attributes that the services attach to their log records: \<open>log_transition\<close> of
  \<open>app/services/job_store.py\<close>, \<open>log_action\<close> of \<open>app/services/preview_reconciliation.py\<close> and the failure
  callback of \<open>app/workers/preview_worker.py\<close>. They do not change the table, so they are functions
  of the row they report; every one of them reaches the line of the log.
\<close>

definition status_text :: "job_status \<Rightarrow> string" where
  "status_text st = (case st of QUEUED \<Rightarrow> ''queued'' | RUNNING \<Rightarrow> ''running'' | COMPLETED \<Rightarrow> ''completed'' | FAILED \<Rightarrow> ''failed'')"

definition log_transition :: "preview_job \<Rightarrow> string \<Rightarrow> job_status option \<Rightarrow> job_status \<Rightarrow> (string \<times> json) list" where
  "log_transition job event previous_status new_status =
     [(''event'', JStr event), (''component'', JStr ''job_store''), (''job_id'', JStr (uuid_text (pj_id job))),
      (''queue'', JStr ''preview''),
      (''previous_status'', case previous_status of None \<Rightarrow> JNull | Some st \<Rightarrow> JStr (status_text st)),
      (''new_status'', JStr (status_text new_status)), (''attempt'', JInt (pj_attempt_count job)),
      (''outcome'', JStr ''success'')]"

definition log_action :: "preview_job \<Rightarrow> string \<Rightarrow> job_status \<Rightarrow> job_status \<Rightarrow> int \<Rightarrow> (string \<times> json) list" where
  "log_action job action previous_status new_status max_attempts =
     [(''event'', JStr ''preview_reconciliation''), (''component'', JStr ''worker''),
      (''job_id'', JStr (uuid_text (pj_id job))), (''queue'', JStr ''preview''),
      (''previous_status'', JStr (status_text previous_status)), (''new_status'', JStr (status_text new_status)),
      (''reconciliation_action'', JStr action), (''attempt'', JInt (pj_attempt_count job)),
      (''max_attempts'', JInt max_attempts)]"

definition failure_record :: "settings \<Rightarrow> uuid \<Rightarrow> int option \<Rightarrow> string \<Rightarrow> bool \<Rightarrow> (string \<times> json) list" where
  \<comment> \<open>the record at the end of \<open>handle_preview_job_failure\<close>; \<open>changed\<close> is the result of the transition\<close>
  "failure_record s job_id retries exception_name changed =
     (let retries_left = (case retries of None \<Rightarrow> 0 | Some n \<Rightarrow> n) in
      [(''event'', JStr ''preview_job_transition''), (''component'', JStr ''worker''),
       (''job_id'', JStr (uuid_text job_id)), (''queue'', JStr (preview_queue_name s)),
       (''previous_status'', JStr ''running''), (''new_status'', JStr (if 0 < retries_left then ''queued'' else ''failed'')),
       (''attempt'', JInt (preview_job_max_retries s - retries_left + 1)),
       (''max_attempts'', JInt (preview_job_max_retries s + 1)),
       (''outcome'', JStr (exception_name @ (if changed then '':state_changed'' else '':state_unchanged'')))])"

lemma attributes_logged:
  assumes "distinct (map fst extra)" "set (map fst extra) \<subseteq> set OPERATIONAL_FIELDS"
  shows "list_all (\<lambda>(k, v). map_of (log_entries tf (r\<lparr>lm_extra := extra\<rparr>)) k = Some v) extra"
proof -
  have "map_of (log_entries tf (r\<lparr>lm_extra := extra\<rparr>)) k = Some v" if "(k, v) \<in> set extra" for k v
  proof -
    have "k \<in> set OPERATIONAL_FIELDS" using assms(2) that by force
    then have "map_of (log_entries tf (r\<lparr>lm_extra := extra\<rparr>)) k = map_of extra k"
      using operational_entries[of tf "r\<lparr>lm_extra := extra\<rparr>"] by (simp add: list_all_iff)
    then show ?thesis using assms(1) that by simp
  qed
  then show ?thesis by (auto simp: list_all_iff)
qed

lemma service_attributes_logged:
  "list_all (\<lambda>(k, v). map_of (log_entries tf (r\<lparr>lm_extra := log_transition job event prev new\<rparr>)) k = Some v)
     (log_transition job event prev new)"
  "list_all (\<lambda>(k, v). map_of (log_entries tf (r\<lparr>lm_extra := log_action job action st new limit\<rparr>)) k = Some v)
     (log_action job action st new limit)"
  "list_all (\<lambda>(k, v). map_of (log_entries tf (r\<lparr>lm_extra := failure_record s job_id retries name changed\<rparr>)) k = Some v)
     (failure_record s job_id retries name changed)"
  by (rule attributes_logged; simp add: log_transition_def log_action_def failure_record_def Let_def OPERATIONAL_FIELDS_def)+

lemma failure_attempt_in_range:
  assumes "0 \<le> n" "n \<le> preview_job_max_retries s"
  shows "\<exists>k. map_of (failure_record s job_id (Some n) name changed) ''attempt'' = Some (JInt k) \<and>
    1 \<le> k \<and> k \<le> preview_job_max_retries s + 1"
  using assms by (simp add: failure_record_def Let_def)

end
