(* ===== verification/Command_Line.thy ===== *)
theory Command_Line
  imports Market_Import_Properties Strategy_Provider Json_Text
begin

text \<open>
  The entry points of two scripts: the report of the import of bars (\<open>app/scripts/import_market_csv.py\<close>)
  and the command-line strategy parser (\<open>app/scripts/parse_strategy.py\<close>). A console is what was printed
  on the two streams, line by line; the text of an exception is a parameter. Both scripts always return
  an exit code.
\<close>

record console =
  co_stdout :: "string list"
  co_stderr :: "string list"
  co_exit :: int

subsection \<open>The import\<close>

definition format_timestamp :: "text_format \<Rightarrow> timestamp option \<Rightarrow> string" where
  "format_timestamp tf v = (case v of None \<Rightarrow> ''none'' | Some u \<Rightarrow> tf_isoformat tf u)"

definition format_summary :: "text_format \<Rightarrow> import_summary \<Rightarrow> string" where
  "format_summary tf c =
     join newline
       [''Total CSV rows: '' @ string_of_int (int (im_total_csv_rows c)),
        ''Inserted rows: '' @ string_of_int (int (im_inserted_rows c)),
        ''Updated rows: '' @ string_of_int (int (im_updated_rows c)),
        ''Skipped rows: '' @ string_of_int (int (length (im_skipped_rows c))),
        ''Earliest stored timestamp: '' @ format_timestamp tf (im_earliest c),
        ''Latest stored timestamp: '' @ format_timestamp tf (im_latest c),
        ''Total symbol rows: '' @ string_of_int (int (im_total_symbol_rows c))]"

definition MAX_REPORTED_SKIPPED_ROWS :: nat where
  "MAX_REPORTED_SKIPPED_ROWS = 20"

definition skipped_report :: "skipped_row list \<Rightarrow> string list" where
  "skipped_report skipped =
     map (\<lambda>r. ''Skipped CSV row '' @ string_of_int (int (sk_row_number r)) @ '': '' @ sk_reason r)
       (take MAX_REPORTED_SKIPPED_ROWS skipped) @
     (if MAX_REPORTED_SKIPPED_ROWS < length skipped
      then [''... '' @ string_of_int (int (length skipped - MAX_REPORTED_SKIPPED_ROWS)) @ '' additional malformed rows skipped.'']
      else [])"

fun import_failure :: "py_error \<Rightarrow> bool" where
  \<comment> \<open>\<open>OSError\<close> and \<open>ValueError\<close> with their subclasses, and the exceptions of SQLAlchemy\<close>
  "import_failure (ValueError _) \<longleftrightarrow> True"
| "import_failure (ValidationError _) \<longleftrightarrow> True"
| "import_failure (StrategyValidationError _) \<longleftrightarrow> True"
| "import_failure (StrategyCompilationError _) \<longleftrightarrow> True"
| "import_failure (MarketDataUnavailableError _) \<longleftrightarrow> True"
| "import_failure (OSError _) \<longleftrightarrow> True"
| "import_failure TimeoutError \<longleftrightarrow> True"
| "import_failure e \<longleftrightarrow> db_error e"

record import_arguments =
  ia_file :: string
  ia_symbol :: string
  ia_interval :: string
  ia_batch_size :: int

definition import_defaults :: "string \<Rightarrow> import_arguments" where
  "import_defaults path = \<lparr>ia_file = path, ia_symbol = ''SPY'', ia_interval = ''1d'', ia_batch_size = 500\<rparr>"

definition import_main ::
    "text_format \<Rightarrow> (py_error \<Rightarrow> string) \<Rightarrow> bool \<Rightarrow> string list list \<Rightarrow> import_arguments \<Rightarrow> ('z import_session_scheme, console) action" where
  \<comment> \<open>the process ends here, closing its session\<close>
  "import_main tf str_error is_file records args =
     act_try
       (import_market_csv is_file (ia_file args) records (ia_symbol args) (ia_interval args) (ia_batch_size args))
       (\<lambda>c. act_return \<lparr>co_stdout = [format_summary tf c], co_stderr = skipped_report (im_skipped_rows c), co_exit = 0\<rparr>)
       (\<lambda>e. if import_failure e
            then act_return \<lparr>co_stdout = [], co_stderr = [''Import failed: '' @ str_error e], co_exit = 1\<rparr>
            else act_raise e)"

subsection \<open>The strategy parser\<close>

fun parser_failure :: "py_error \<Rightarrow> bool" where
  \<comment> \<open>\<open>StrategyParserError\<close> with its subclasses, \<open>StrategyValidationError\<close> and \<open>ValidationError\<close>\<close>
  "parser_failure (StrategyParserError _) \<longleftrightarrow> True"
| "parser_failure (StrategyProviderError _) \<longleftrightarrow> True"
| "parser_failure (StrategyProviderRefusalError _) \<longleftrightarrow> True"
| "parser_failure (StrategyProviderTimeoutError _) \<longleftrightarrow> True"
| "parser_failure (StrategyMalformedOutputError _) \<longleftrightarrow> True"
| "parser_failure (StrategyValidationError _) \<longleftrightarrow> True"
| "parser_failure (ValidationError _) \<longleftrightarrow> True"
| "parser_failure _ \<longleftrightarrow> False"

definition parser_report :: "text_format \<Rightarrow> parsed_strategy_result \<Rightarrow> string list" where
  "parser_report tf r =
     [''Normalized strategy JSON:'', json_indented 0 (sorted_keys (specification_json tf (pr_specification r))), [],
      ''Defaults applied:'', json_indented 0 (JList (map default_json (pr_defaults_applied r))), [],
      ''Assumptions made:'', json_indented 0 (JList (map assumption_json (pr_assumptions r))), [],
      ''Confirmation required: '' @ (if pr_requires_confirmation r then ''Yes'' else ''No''), [],
      interpret_strategy (tf_str_decimal tf) (tf_general tf) r]"

definition parse_main ::
    "text_format \<Rightarrow> (py_error \<Rightarrow> string) \<Rightarrow> settings result \<Rightarrow> openai_sdk \<Rightarrow> string \<Rightarrow> console result" where
  "parse_main tf str_error settings sdk strategy =
     (case res_bind settings (\<lambda>s. openai_parser (tf_str_decimal tf) s sdk strategy) of
        Inr r \<Rightarrow> Inr \<lparr>co_stdout = parser_report tf r, co_stderr = [], co_exit = 0\<rparr>
      | Inl e \<Rightarrow> if parser_failure e
           then Inr \<lparr>co_stdout = [], co_stderr = [''Strategy parsing failed: '' @ str_error e], co_exit = 1\<rparr>
           else Inl e)"

subsection \<open>Exit codes\<close>

lemma import_error_handled: "(\<exists>m. e = ValueError m) \<or> db_error e \<Longrightarrow> import_failure e"
  by (cases e) (auto simp: db_error_def)

lemma import_market_csv_error:
  assumes run: "import_market_csv is_file path records symbol interval n s = (Inl e, t)" and ok: "market_table_ok (table_rows s)"
  shows "(\<exists>m. e = ValueError m) \<or> db_error e"
proof (cases "check_arguments is_file path symbol interval n")
  case (Inl e')
  then show ?thesis
    using run by (auto simp: import_market_csv_def act_bind_def check_arguments_def split: if_splits)
next
  case (Inr x)
  then have n: "0 < n"
    by (auto simp: check_arguments_def split: if_splits)
  show ?thesis
  proof (cases "parse_market_csv records")
    case (Inl e')
    then show ?thesis
      using run Inr parse_market_csv_cases[of records]
      by (auto simp: import_market_csv_def act_bind_def split: if_splits)
  next
    case parsed: (Inr st)
    then have d: "distinct (map ir_timestamp (ps_rows st))"
      using parse_market_csv_cases[of records] by (auto simp: parsed_ok_def split: if_splits)
    obtain q u where body: "import_rows symbol interval n st s = (q, u)" by (meson surj_pair)
    with import_rows_effect[OF body n ok d] run Inr parsed show ?thesis
      by (auto simp: import_market_csv_def act_bind_def act_catch_def act_then_def db_rollback_def split: if_splits)
  qed
qed

lemma import_main_total:
  assumes "market_table_ok (table_rows s)"
  shows "\<exists>out t. import_main tf str_error is_file records args s = (Inr out, t) \<and> length (co_stderr out) \<le> 21 \<and>
    (co_exit out = 0 \<or> co_exit out = 1 \<and> co_stdout out = [])"
proof (cases "import_market_csv is_file (ia_file args) records (ia_symbol args) (ia_interval args) (ia_batch_size args) s")
  case (Pair r t)
  show ?thesis
  proof (cases r)
    case (Inl e)
    then have "import_failure e"
      using import_market_csv_error[OF _ assms] Pair import_error_handled by blast
    then show ?thesis
      using Pair Inl by (simp add: import_main_def act_try_def act_return_def)
  next
    case (Inr c)
    then show ?thesis
      using Pair by (simp add: import_main_def act_try_def act_return_def skipped_report_def MAX_REPORTED_SKIPPED_ROWS_def)
  qed
qed

lemma openai_provider_failure: "openai_provider env sdk key model text = Inl e \<Longrightarrow> parser_failure e"
  by (auto simp: openai_provider_def provider_parse_def split: if_splits sdk_outcome.splits option.splits)

lemma openai_parser_failure:
  assumes "openai_parser f s sdk text = Inl e"
    and "\<And>key model d dump. sdk_parse sdk key model text = SdkAnswer (Some d) dump \<Longrightarrow> parse_draft_schema d"
  shows "parser_failure e"
proof -
  consider "parser_failure e"
    | (draft) key model d where "openai_provider (environment s) sdk key model text = Inr d" "normalize_strategy_draft f d text = Inl e"
    using assms(1) validate_text_error[of f _ e] openai_provider_failure
    by (fastforce simp: openai_parser_def parse_strategy_def result_simps split: option.splits if_splits)
  then show ?thesis
  proof cases
    case draft
    then have "parse_draft_schema d"
      using assms(2) by (auto simp: openai_provider_def provider_parse_def split: if_splits sdk_outcome.splits option.splits)
    then show ?thesis
      using normalize_draft_error[OF draft(2)] by auto
  qed
qed

text \<open>
  The parser script always ends with an exit code: whatever the settings, the SDK and the text, either
  the report of the strategy is printed, or one line on the error stream and nothing else.
\<close>

lemma parse_main_total:
  assumes "\<And>e. settings = Inl e \<Longrightarrow> \<exists>m. e = ValidationError m"
    and "\<And>key model d dump. sdk_parse sdk key model text = SdkAnswer (Some d) dump \<Longrightarrow> parse_draft_schema d"
  shows "\<exists>out. parse_main tf str_error settings sdk text = Inr out \<and>
    (if co_exit out = 0
     then (\<exists>s r. settings = Inr s \<and> openai_parser (tf_str_decimal tf) s sdk text = Inr r \<and> co_stdout out = parser_report tf r \<and> co_stderr out = [])
     else co_exit out = 1 \<and> co_stdout out = [] \<and> length (co_stderr out) = 1)"
proof (cases "res_bind settings (\<lambda>s. openai_parser (tf_str_decimal tf) s sdk text)")
  case (Inl e)
  then have "parser_failure e"
    using assms(1) openai_parser_failure[OF _ assms(2)] by (cases settings) auto
  then show ?thesis
    using Inl by (simp add: parse_main_def)
next
  case (Inr r)
  then show ?thesis
    by (cases settings) (auto simp: parse_main_def)
qed

end
