(* ===== verification/Spec2Isabelle.thy ===== *)
theory Spec2Isabelle
  imports Engine_Exactness Engine_Causality Engine_Trades Reconciliation_Properties
    Strategy_Access Market_Import_Properties Strategy_Provider
    Report_Text Preview_Response_Properties Process_Properties Job_System
    Application Operational_Logs Command_Line
begin

text \<open>
  A model of the backend of the agentic trading platform (\<open>src/backend/app\<close>): a strategy written in
  plain language is reviewed, parsed by a language model, normalized into a small rule language,
  compiled, backtested on stored daily bars, and reported; the work runs as a durable job behind a
  queue.

  \<^bold>\<open>Conventions.\<close> A function that can raise returns \<open>py_error + 'a\<close> (\<open>result\<close> in
  \<open>Trading_Prelude\<close>). A \<open>decimal.Decimal\<close> is a rational and every operation rounds to the 28 digits
  of the default context (\<open>Decimal_Context\<close>); floats are not modelled. Timestamps are integers, in
  microseconds where arithmetic is done on them. Stateful code is an action on a session
  (\<open>Database_Session\<close>): it returns the result and the state left behind, also after an exception, and an adversary
  chooses the faults of the database. Every query and commit of the code is such an action, the query of
  the stored bars included; a rollback is assumed not to fail. The proofs about actions use Hoare triples
  for both outcomes.

  \<^bold>\<open>Backtesting\<close> (\<open>app/backtesting\<close>, \<open>app/models/market_data.py\<close>).
  \<^item> \<open>Market_Models\<close>: the records, the table of prices with its constraints, \<open>load_market_bars\<close>.
  \<^item> \<open>Engine\<close>: \<open>execute_long_only_signals\<close> with every helper of \<open>engine.py\<close>; \<open>Engine_Steps\<close> an invariant
    of the loop state and the facts every step obeys; \<open>Engine_Safety\<close>, \<open>Engine_Trades\<close>, \<open>Engine_Causality\<close>,
    \<open>Engine_Exactness\<close> the properties: no debt, genuine trades, no lookahead, exact books.
  \<^item> \<open>Metrics\<close>: \<open>metrics.py\<close>; the one-pass drawdown equals the definition over all pairs of points.
  \<^item> \<open>Moving_Averages\<close>, \<open>Strategy_Compiler\<close>: \<open>sma_crossover.py\<close> and \<open>strategy_compiler.py\<close>; rolling sums
    equal the mean of the window, compiled strategies are total and causal.

  \<^bold>\<open>From text to strategy\<close> (\<open>app/services\<close>, \<open>app/schemas/strategy_spec.py\<close>).
  \<^item> \<open>Strategy_Spec\<close>, \<open>Strategy_Semantics\<close>: the schemas and \<open>strategy_semantics.py\<close>, whose regular
    expressions are values of a small matcher (\<open>Regex_Text\<close>); \<open>Strategy_Text\<close> what the review of a text guarantees.
  \<^item> \<open>Strategy_Parser\<close>: \<open>strategy_parser.py\<close>; the provider is a parameter. \<open>Strategy_Review\<close>: whatever it
    answers, a parsed strategy is valid and tells what was inferred.
  \<^item> \<open>Strategy_Preview\<close>, \<open>Preview_Properties\<close>: \<open>strategy_preview.py\<close>, \<open>strategy_interpretation.py\<close> and the
    serialization of a preview, composed from the parts above.
  \<^item> \<open>Strategy_Provider\<close>: the adapter to the language model and the parser the worker builds from the
    settings; which failures reach the user and which one makes the queue try again.

  \<^bold>\<open>Durable jobs\<close> (\<open>job_store.py\<close>, \<open>preview_job_service.py\<close>, \<open>preview_worker.py\<close>, \<open>preview_queue.py\<close>,
  \<open>preview_reconciliation.py\<close>, \<open>config.py\<close>).
  \<^item> \<open>App_Settings\<close>: the settings and their validation; \<open>Uuid_Text\<close>: UUIDs as 128-bit words and their text.
  \<^item> \<open>Job_Store\<close>: the table of jobs, its transitions and the advisory locks; \<open>Job_Lifecycle\<close>: the step
    relation of a row, its refinement to four phases, and a triple for every transition.
  \<^item> \<open>Preview_Job_Service\<close>, \<open>Preview_Worker\<close>: submitting and running a job, and the queue task with its
    failure callback; \<open>Preview_Job_Runs\<close>, \<open>Preview_Worker_Runs\<close> their triples; \<open>Job_Properties\<close> the properties:
    a single execution is safe under all faults, and a delivery on a working database ends its job or leaves
    it to a retry. When RQ delivers, retries or calls the callback is not modelled.
  \<^item> \<open>Preview_Queue\<close>, \<open>Preview_Reconciliation\<close>: what is handed to RQ, and the repair of forgotten jobs.

  \<^bold>\<open>Users, saved strategies and stored prices\<close> (\<open>app/api\<close>, \<open>app/models/strategy.py\<close>,
  \<open>app/schemas/strategy.py\<close>, \<open>app/scripts/import_market_csv.py\<close>).
  \<^item> \<open>Strategy_Store\<close>: the table of saved strategies, its request models and its routes;
    \<open>Strategy_Access\<close>: the routes as the calls of a user, who reads and changes only rows of their own.
  \<^item> \<open>Api_Access\<close>: authentication by the identity service, the routes of preview jobs, readiness.
  \<^item> \<open>Market_Import\<close>: the import of a file of bars, from literals and dates to the upsert in batches;
    \<open>Market_Import_Properties\<close>: the rows it accepts, and the table it leaves as an update of a map.
  \<^item> \<open>Reconciliation_Runs\<close>, \<open>Reconciliation_Properties\<close>: the triples and properties of the repair of jobs.

  \<^bold>\<open>Responses and processes\<close> (\<open>app/main.py\<close>, \<open>app/core\<close>, \<open>app/db/session.py\<close>, \<open>app/workers\<close>, \<open>app/scripts\<close>).
  \<^item> \<open>Preview_Response\<close>: the response models, as readers of JSON; \<open>Preview_Response_Properties\<close>: they read a
    stored preview back to the computed values.
  \<^item> \<open>Connections\<close>: the options of the database engine and of the Redis client, and what accepted settings
    guarantee about them.
  \<^item> \<open>Process_Lifecycle\<close>: the checks of the dependencies, the start and end of the worker and of the API, as
    actions that keep a trace; \<open>Process_Properties\<close> the order of events on every path.
  \<^item> \<open>Application\<close>: the table of routes, how a request is routed, and \<open>create_app\<close>.
  \<^item> \<open>Json_Text\<close>: values as JSON text, which determines them; \<open>Log_Records\<close>: the formatter and the root
    logger; \<open>Operational_Logs\<close>: the attributes the services log.
  \<^item> \<open>Sma_Backtest\<close>: the command-line backtest, equal to the preview of the same rules; \<open>Report_Text\<close>: its
    printed amounts say what they stand for. \<open>Command_Line\<close>: the entry points of the import and of the parser.

  \<^bold>\<open>The system of jobs\<close> is composed in \<open>Job_System\<close>: a step relation whose steps are requests, reads,
  executions of a worker, failure callbacks, reconciliations and clean-ups, in any order and with any faults. An
  operation is one step: what other processes do in the middle of one appears as faults and
  held locks, not as an interleaving.

  \<^bold>\<open>Bounds.\<close> No definition uses fuel. The loop that waits for a lock ends because every turn lets time
  pass up to the deadline, which its termination proof shows.

  \<^bold>\<open>Parameters.\<close> Code outside the repository is an argument: the answer of the language model and its
  SDK, the identity service, the rendering of decimals, times and URLs as text and their reading by the
  validation library, the power function of \<open>decimal\<close>, the calls of RQ and of other resources, the generated
  identifiers and the clock. The theorems hold for all of them, under hypotheses that they state. The
  options of the Redis client are the arguments it is given; those in the query of its URL, which the
  client prefers, are not read by the code and not modelled.

  \<^bold>\<open>Not modelled.\<close> The exceptions outside \<open>Exception\<close>, such as \<open>SystemExit\<close>; what the worker does before
  its first log record (reading the settings, configuring the logging, building the clients), whose errors
  escape; the argument parsers beyond their defaults, the tokenizing of a CSV file, the
  choice of the worker class of RQ, the connection pools, the measured durations in the log, the
  documentation routes of the framework, the SQL migrations (their constraints are those of the models),
  and the frontend, which is a client of the API.
\<close>

end
